theory Spec2Isabelle
  imports Complex_Main "HOL-Library.Word" "HOL-Library.Product_Lexorder" "HOL-Library.Multiset"
begin

section \<open>Go values\<close>

text \<open>
  Conventions of the embedding.
  \<^item> A Go \<open>float64\<close> is a value of the datatype \<open>float64\<close>: not-a-number, the two
    infinities, or a finite number. A finite value may be any real number, the
    numbers that a \<open>float64\<close> holds among them, so that what is proved of all finite
    values holds of these. \<open>Fin 0\<close> stands for both zeros, which compare
    equal; the one place where their sign shows, a division by zero, only ever divides
    by the \<open>float64\<close> of an integer, which is the positive zero.
  \<^item> The result of an operation on finite numbers is rounded. The rounding \<open>fl\<close>, from
    the exact result to the \<open>float64\<close> that holds it (an infinity on overflow), is a
    parameter of every function that computes with \<open>float64\<close>; a theorem that needs
    a property of the rounding states it.
  \<^item> A Go \<open>int64\<close> timestamp is a \<open>64 word\<close>; subtraction wraps and \<open>sint\<close> reads the
    signed value, so \<open>float64(dur)\<close> is \<open>fl (real_of_int (sint dur))\<close>.
  \<^item> \<open>len(s.vals)\<close> and \<open>s.Cnt\<close> are unbounded: a slice long enough to overflow
    \<open>95 * Cnt\<close> does not fit in memory.
  \<^item> A method that mutates its receiver returns the updated receiver.
\<close>

datatype float64 = NaN | NInf | Fin real | PInf

type_synonym int64 = "64 word"

type_synonym rounding = "real \<Rightarrow> float64"

text \<open>
  The rounding of a result that a \<open>float64\<close> holds exactly: the rounding of Go on the
  examples below, which compute with such numbers only.
\<close>

definition exact :: rounding where
  "exact x = Fin x"

text \<open>The comparisons of Go: every comparison with not-a-number is false.\<close>

fun flt :: "float64 \<Rightarrow> float64 \<Rightarrow> bool" where
  "flt NaN b = False"
| "flt a NaN = False"
| "flt a NInf = False"
| "flt NInf b = True"
| "flt PInf b = False"
| "flt (Fin x) PInf = True"
| "flt (Fin x) (Fin y) = (x < y)"

definition feq :: "float64 \<Rightarrow> float64 \<Rightarrow> bool" where
  "feq a b \<longleftrightarrow> a \<noteq> NaN \<and> b \<noteq> NaN \<and> a = b"

definition fle :: "float64 \<Rightarrow> float64 \<Rightarrow> bool" where
  "fle a b \<longleftrightarrow> flt a b \<or> feq a b"

definition fgt :: "float64 \<Rightarrow> float64 \<Rightarrow> bool" where
  "fgt a b \<longleftrightarrow> flt b a"

definition fge :: "float64 \<Rightarrow> float64 \<Rightarrow> bool" where
  "fge a b \<longleftrightarrow> fle b a"

text \<open>The arithmetic of Go on \<open>float64\<close>: the special values, and rounding otherwise.\<close>

fun fneg :: "float64 \<Rightarrow> float64" where
  "fneg NaN = NaN"
| "fneg NInf = PInf"
| "fneg PInf = NInf"
| "fneg (Fin x) = Fin (- x)"

fun fadd :: "rounding \<Rightarrow> float64 \<Rightarrow> float64 \<Rightarrow> float64" where
  "fadd fl NaN b = NaN"
| "fadd fl a NaN = NaN"
| "fadd fl PInf NInf = NaN"
| "fadd fl NInf PInf = NaN"
| "fadd fl PInf b = PInf"
| "fadd fl NInf b = NInf"
| "fadd fl (Fin x) PInf = PInf"
| "fadd fl (Fin x) NInf = NInf"
| "fadd fl (Fin x) (Fin y) = fl (x + y)"

definition fsub :: "rounding \<Rightarrow> float64 \<Rightarrow> float64 \<Rightarrow> float64" where
  "fsub fl a b = fadd fl a (fneg b)"

fun fdiv :: "rounding \<Rightarrow> float64 \<Rightarrow> float64 \<Rightarrow> float64" where
  "fdiv fl NaN b = NaN"
| "fdiv fl a NaN = NaN"
| "fdiv fl PInf (Fin y) = (if y < 0 then NInf else PInf)"
| "fdiv fl NInf (Fin y) = (if y < 0 then PInf else NInf)"
| "fdiv fl PInf b = NaN"
| "fdiv fl NInf b = NaN"
| "fdiv fl (Fin x) (Fin y) =
     (if y = 0 then (if x = 0 then NaN else if 0 < x then PInf else NInf)
      else fl (x / y))"
| "fdiv fl (Fin x) b = Fin 0"

text \<open>A finite number: neither an infinity nor not-a-number.\<close>

fun is_finite :: "float64 \<Rightarrow> bool" where
  "is_finite (Fin x) = True"
| "is_finite a = False"

text \<open>
  \<open>sort.Float64s\<close> sorts by \<open>Less\<close>, which puts not-a-number before every number:
  \<open>x[i] < x[j] || (isNaN(x[i]) && !isNaN(x[j]))\<close>. The key \<open>sort_rank\<close> is one to one
  and ordered as \<open>Less\<close> orders, so the sorted slice is the list sorted by it.
\<close>

definition Less :: "float64 \<Rightarrow> float64 \<Rightarrow> bool" where
  "Less a b \<longleftrightarrow> flt a b \<or> (a = NaN \<and> b \<noteq> NaN)"

fun sort_rank :: "float64 \<Rightarrow> nat \<times> real" where
  "sort_rank NaN = (0, 0)"
| "sort_rank NInf = (1, 0)"
| "sort_rank (Fin x) = (2, x)"
| "sort_rank PInf = (3, 0)"

definition Float64s :: "float64 list \<Rightarrow> float64 list" where
  "Float64s xs = sort_key sort_rank xs"

section \<open>Metric statistics (package mm, Stats)\<close>

text \<open>
  Modelled from the spec: the struct \<open>Metric\<close> is declared outside the files at hand;
  the spec gives it a name, a type and a number, the fields the code reads as
  \<open>metric.Name\<close>, \<open>metric.Type\<close> and \<open>m.Number\<close>.
\<close>

record Metric =
  Name :: string
  Type :: string
  Number :: float64

text \<open>
  The struct \<open>Stats\<close>. The fields \<open>sum\<close>, \<open>Min\<close> and \<open>Max\<close> carry a suffix
  because HOL has constants of these names.
\<close>

record Stats =
  metricType :: string
  str :: string
  firstVal :: bool
  prevTs :: int64
  penuTs :: int64
  prevVal :: float64
  penuVal :: float64
  vals :: "float64 list"
  sum_s :: float64
  Cnt :: int
  Min_s :: float64
  Pct5 :: float64
  Avg :: float64
  Med :: float64
  Pct95 :: float64
  Max_s :: float64

text \<open>The Go zero value of the struct: what a composite literal leaves in unnamed fields.\<close>

definition Stats_zero :: Stats where
  "Stats_zero =
     \<lparr>metricType = [], str = [], firstVal = False, prevTs = 0, penuTs = 0,
      prevVal = Fin 0, penuVal = Fin 0, vals = [], sum_s = Fin 0, Cnt = 0, Min_s = Fin 0,
      Pct5 = Fin 0, Avg = Fin 0, Med = Fin 0, Pct95 = Fin 0, Max_s = Fin 0\<rparr>"

text \<open>
  Modelled from the spec: the table \<open>MetricTypes\<close> is declared outside the files at hand;
  the spec's data model gives a metric's type as the enumeration of gauge and counter.
\<close>

definition MetricTypes :: "string \<Rightarrow> bool" where
  "MetricTypes t = (t = ''gauge'' \<or> t = ''counter'')"

datatype error =
    InvalidMetricType string
  | ValueLap int64 float64 int64 float64 int64 float64

datatype panic = Panic string

definition NewStats :: "string \<Rightarrow> error + Stats" where
  "NewStats mt =
     (if \<not> MetricTypes mt then Inl (InvalidMetricType mt)
      else Inr (Stats_zero\<lparr>metricType := mt, vals := [], firstVal := True\<rparr>))"

definition Reset :: "Stats \<Rightarrow> Stats" where
  "Reset s = s\<lparr>sum_s := Fin 0, vals := []\<rparr>"

text \<open>
  \<open>Add\<close>: \<open>Inl\<close> is the \<open>log.Panic\<close> of the default branch; \<open>Inr\<close> carries the
  returned error (\<open>None\<close> for nil) and the updated receiver.
\<close>

definition Add :: "rounding \<Rightarrow> Stats \<Rightarrow> Metric \<Rightarrow> int64 \<Rightarrow> panic + (error option \<times> Stats)" where
  "Add fl s m ts =
     (if metricType s = ''gauge'' then
        Inr (None, s\<lparr>vals := vals s @ [Number m], sum_s := fadd fl (sum_s s) (Number m)\<rparr>)
      else if metricType s = ''counter'' then
        (if \<not> firstVal s then
           (if fge (Number m) (prevVal s) then
              (let err = (if fgt (penuVal s) (Fin 0) \<and> feq (prevVal s) (Fin 0) \<and>
                             fgt (Number m) (penuVal s)
                          then Some (ValueLap (penuTs s) (penuVal s) (prevTs s) (prevVal s)
                                       ts (Number m))
                          else None);
                   inc = fsub fl (Number m) (prevVal s);
                   dur = ts - prevTs s;
                   val = fdiv fl inc (fl (real_of_int (sint dur)))
               in Inr (err, s\<lparr>vals := vals s @ [val], sum_s := fadd fl (sum_s s) val,
                                penuTs := prevTs s, prevTs := ts,
                                penuVal := prevVal s, prevVal := Number m\<rparr>))
            else
              Inr (None, s\<lparr>penuTs := prevTs s, prevTs := ts,
                              penuVal := prevVal s, prevVal := Number m\<rparr>))
         else
           Inr (None, s\<lparr>penuTs := prevTs s, prevTs := ts,
                           penuVal := prevVal s, prevVal := Number m,
                           firstVal := False\<rparr>))
      else Inl (Panic (''mm:Aggregator:Add: Invalid metric type: '' @ metricType s)))"

text \<open>
  \<open>Summarize\<close>: \<open>sort.Float64s\<close> sorts the slice in place, so the receiver keeps
  the sorted values. The three percentile indexes are \<open>(p * Cnt) / 100\<close> in integer
  arithmetic.
\<close>

definition Summarize :: "rounding \<Rightarrow> Stats \<Rightarrow> Stats" where
  "Summarize fl s =
     (if metricType s = ''gauge'' \<or> metricType s = ''counter'' then
        (let n = length (vals s) in
         if n > 1 then
           (let vs = Float64s (vals s) in
            s\<lparr>vals := vs, Cnt := int n,
              Min_s := vs ! 0,
              Pct5 := vs ! ((5 * n) div 100),
              Avg := fdiv fl (sum_s s) (fl (real n)),
              Med := vs ! ((50 * n) div 100),
              Pct95 := vs ! ((95 * n) div 100),
              Max_s := vs ! (n - 1)\<rparr>)
         else if n = 1 then
           s\<lparr>Cnt := 1,
             Min_s := vals s ! 0, Pct5 := vals s ! 0, Avg := vals s ! 0,
             Med := vals s ! 0, Pct95 := vals s ! 0, Max_s := vals s ! 0\<rparr>
         else s\<lparr>Cnt := 0\<rparr>)
      else s)"

text \<open>
  \<open>Finalize\<close> returns the new struct (\<open>None\<close> for nil) and the receiver, which
  \<open>Summarize\<close> has updated. The returned literal names the seven summary fields only.
\<close>

definition Finalize :: "rounding \<Rightarrow> Stats \<Rightarrow> Stats option \<times> Stats" where
  "Finalize fl s =
     (if length (vals s) = 0 then (None, s)
      else (let s' = Summarize fl s in
            (Some (Stats_zero\<lparr>Cnt := Cnt s', Min_s := Min_s s', Pct5 := Pct5 s',
                              Avg := Avg s', Med := Med s', Pct95 := Pct95 s',
                              Max_s := Max_s s'\<rparr>), s')))"

text \<open>
  The caller's loop over one \<open>Stats\<close>: successive \<open>Add\<close> calls, each sample a metric
  with its timestamp, collecting the error every call returns.
\<close>

fun AddSeq :: "rounding \<Rightarrow> Stats \<Rightarrow> (Metric \<times> int64) list \<Rightarrow> panic + (error option list \<times> Stats)" where
  "AddSeq fl s [] = Inr ([], s)"
| "AddSeq fl s ((m, ts) # rest) =
     (case Add fl s m ts of
        Inl p \<Rightarrow> Inl p
      | Inr (e, s') \<Rightarrow>
          (case AddSeq fl s' rest of
             Inl p \<Rightarrow> Inl p
           | Inr (es, s'') \<Rightarrow> Inr (e # es, s'')))"

text \<open>
  Reading a sequence of samples: the value and the timestamp of sample \<open>i\<close>, counting
  from 0.
\<close>

definition sample_val :: "(Metric \<times> int64) list \<Rightarrow> nat \<Rightarrow> float64" where
  "sample_val ms i = Number (fst (ms ! i))"

definition sample_ts :: "(Metric \<times> int64) list \<Rightarrow> nat \<Rightarrow> int64" where
  "sample_ts ms i = snd (ms ! i)"

text \<open>
  The rate \<open>Add\<close> computes at sample \<open>i\<close> from sample \<open>i - 1\<close>: the increase over the
  duration, the duration being the \<open>int64\<close> difference of the timestamps.
\<close>

definition rate_at :: "rounding \<Rightarrow> (Metric \<times> int64) list \<Rightarrow> nat \<Rightarrow> float64" where
  "rate_at fl ms i =
     fdiv fl (fsub fl (sample_val ms i) (sample_val ms (i - 1)))
       (fl (real_of_int (sint (sample_ts ms i - sample_ts ms (i - 1)))))"

text \<open>The samples that did not decrease, and the rates \<open>Add\<close> computes at them.\<close>

definition rates :: "rounding \<Rightarrow> (Metric \<times> int64) list \<Rightarrow> float64 list" where
  "rates fl ms =
     map (rate_at fl ms)
       (filter (\<lambda>i. fge (sample_val ms i) (sample_val ms (i - 1))) [1..<length ms])"

text \<open>
  The condition of the lap error at sample \<open>i\<close>, on the samples: the value before the
  previous one is positive, the previous one is exactly 0, and this one exceeds the
  value before the previous one.
\<close>

definition lap_at :: "(Metric \<times> int64) list \<Rightarrow> nat \<Rightarrow> bool" where
  "lap_at ms i \<longleftrightarrow>
     2 \<le> i \<and> fgt (sample_val ms (i - 2)) (Fin 0) \<and> feq (sample_val ms (i - 1)) (Fin 0) \<and>
     fgt (sample_val ms i) (sample_val ms (i - 2))"

text \<open>
  In the words of the spec: a lap is a reset followed by a value that exceeds the value
  before the reset. At sample \<open>i\<close>: sample \<open>i - 1\<close> decreased, and sample \<open>i\<close> exceeds
  the value of sample \<open>i - 2\<close>.
\<close>

definition reset_then_exceeds :: "(Metric \<times> int64) list \<Rightarrow> nat \<Rightarrow> bool" where
  "reset_then_exceeds ms i \<longleftrightarrow>
     2 \<le> i \<and> flt (sample_val ms (i - 1)) (sample_val ms (i - 2)) \<and>
     fgt (sample_val ms i) (sample_val ms (i - 2))"

text \<open>
  A sequence with exactly one decrease, at sample \<open>j\<close>, after which every value stays
  below the value before the decrease (the peak, since the values did not decrease
  before \<open>j\<close>).
\<close>

definition one_decrease_below_peak :: "(Metric \<times> int64) list \<Rightarrow> nat \<Rightarrow> bool" where
  "one_decrease_below_peak ms j \<longleftrightarrow>
     0 < j \<and> j < length ms \<and> flt (sample_val ms j) (sample_val ms (j - 1)) \<and>
     list_all (\<lambda>i. i = j \<or> fle (sample_val ms (i - 1)) (sample_val ms i)) [1..<length ms] \<and>
     list_all (\<lambda>k. flt (sample_val ms k) (sample_val ms (j - 1))) [Suc j..<length ms]"

section \<open>Aggregator (package mm)\<close>

text \<open>
  A \<open>time.Time\<close> is the count of nanoseconds since the zero instant (1 January of
  year 1, UTC), so that \<open>IsZero\<close> is equality with 0.
\<close>

type_synonym Time = int

definition IsZero :: "Time \<Rightarrow> bool" where
  "IsZero t = (t = 0)"

text \<open>
  Modelled from the spec: the types \<open>Collection\<close>, \<open>Metrics\<close> and \<open>Report\<close> are declared
  outside the files at hand. A Collection is a batch of Metrics with a \<open>StartTs\<close>, which
  \<open>run\<close> passes to \<open>Add\<close> as the \<open>int64\<close> timestamp (its field \<open>Metrics\<close> is
  \<open>CMetrics\<close> here, the name being taken by the Report's); \<open>Metrics\<close> is the map that
  \<open>run\<close> makes and indexes by metric name; a Report is a timestamp and such a map.
\<close>

record Collection =
  StartTs :: int64
  CMetrics :: "Metric list"

type_synonym Metrics = "string \<rightharpoonup> Stats"

record Report =
  Ts :: Time
  Metrics :: Metrics

text \<open>
  The state the goroutine of \<open>run\<close> owns: the locals \<open>startTs\<close> and \<open>cur\<close>, and the
  Spooler. Modelled from the spec: the interface \<open>data.Spooler\<close> is declared outside the
  files at hand; its \<open>Write\<close> accepts a Report and queues it, so the Spooler is the list
  of the Reports handed to \<open>Write\<close>, oldest first.
\<close>

record Aggregator =
  startTs :: Time
  cur :: Metrics
  agg_spool :: "Report list"

definition NewAggregator :: Aggregator where
  "NewAggregator = \<lparr>startTs = 0, cur = Map.empty, agg_spool = []\<rparr>"

text \<open>
  \<open>report\<close> summarizes every \<open>Stats\<close> of the map and writes one Report that holds the
  map itself. The order of the \<open>range\<close> loop does not matter: each \<open>Summarize\<close> touches
  its own \<open>Stats\<close> only.
\<close>

definition report :: "rounding \<Rightarrow> Report list \<Rightarrow> Time \<Rightarrow> Metrics \<Rightarrow> Report list" where
  "report fl sp start metrics =
     sp @ [\<lparr>Ts = start, Metrics = (\<lambda>name. map_option (Summarize fl) (metrics name))\<rparr>]"

text \<open>
  The body of the collection case. \<open>run\<close> keeps the one value it takes from \<open>NewStats\<close>
  and calls \<open>Add\<close> on it; where \<open>NewStats\<close> refuses the type that value is nil and the
  call dereferences it, a run-time panic.
\<close>

fun addMetrics :: "rounding \<Rightarrow> Metrics \<Rightarrow> int64 \<Rightarrow> Metric list \<Rightarrow> panic + Metrics" where
  "addMetrics fl c ts [] = Inr c"
| "addMetrics fl c ts (metric # rest) =
     (case (case c (Name metric) of
              Some stats \<Rightarrow> Inr stats
            | None \<Rightarrow>
                (case NewStats (Type metric) of
                   Inl e \<Rightarrow> Inl (Panic ''nil pointer dereference'')
                 | Inr stats \<Rightarrow> Inr stats)) of
        Inl p \<Rightarrow> Inl p
      | Inr stats \<Rightarrow>
          (case Add fl stats metric ts of
             Inl p \<Rightarrow> Inl p
           | Inr (e, stats') \<Rightarrow> addMetrics fl (c(Name metric \<mapsto> stats')) ts rest))"

text \<open>
  What one \<open>select\<close> of the loop receives: a tick, a Collection, or the stop signal.
\<close>

datatype event = Tick Time | Collect Collection | StopSig

text \<open>
  \<open>run\<close> over the events in the order the loop receives them. The result is the panic
  that ended the goroutine, if any, and the state: when the loop returned, when the
  events ran out, or, after a panic, before the Collection that raised it.
\<close>

fun run :: "rounding \<Rightarrow> Aggregator \<Rightarrow> event list \<Rightarrow> panic option \<times> Aggregator" where
  "run fl a [] = (None, a)"
| "run fl a (Tick now # evs) =
     run fl (a\<lparr>agg_spool := (if \<not> IsZero (startTs a)
                            then report fl (agg_spool a) (startTs a) (cur a)
                            else agg_spool a),
            startTs := now, cur := Map.empty\<rparr>) evs"
| "run fl a (Collect collection # evs) =
     (case addMetrics fl (cur a) (StartTs collection) (CMetrics collection) of
        Inl p \<Rightarrow> (Some p, a)
      | Inr c \<Rightarrow> run fl (a\<lparr>cur := c\<rparr>) evs)"
| "run fl a (StopSig # evs) = (None, a)"

text \<open>
  The map that the collection case of \<open>run\<close> builds over successive Collections,
  starting from the map \<open>c\<close>.
\<close>

fun collect :: "rounding \<Rightarrow> Metrics \<Rightarrow> Collection list \<Rightarrow> panic + Metrics" where
  "collect fl c [] = Inr c"
| "collect fl c (x # xs) =
     (case addMetrics fl c (StartTs x) (CMetrics x) of
        Inl p \<Rightarrow> Inl p
      | Inr c' \<Rightarrow> collect fl c' xs)"

text \<open>
  The times of the ticks the loop receives from a trace of events, in order: those that
  come before the stop signal, if there is one.
\<close>

fun ticks :: "event list \<Rightarrow> Time list" where
  "ticks [] = []"
| "ticks (Tick t # evs) = t # ticks evs"
| "ticks (Collect c # evs) = ticks evs"
| "ticks (StopSig # evs) = []"

section \<open>Connection (package mysql)\<close>

text \<open>
  \<open>Connect\<close> talks to three collaborators that are not in the files at hand: the
  Backoff (\<open>Wait\<close> and \<open>Success\<close>, taken as the parameters \<open>W\<close> and \<open>S\<close> over any
  Backoff state), the clock (\<open>time.Sleep\<close>) and the database driver (\<open>sql.Open\<close>,
  \<open>Ping\<close>, \<open>Close\<close>). What the driver answers at each attempt is an input; what
  \<open>Connect\<close> does to the collaborators is the list of effects it returns.
\<close>

datatype 'h dial =
    OpenFails string
  | PingFails 'h string
  | Connected 'h

datatype 'h effect =
    Sleep nat
  | Open
  | Ping 'h
  | Close 'h
  | Success

record ('h, 'b) Connection =
  dsn :: string
  conn :: "'h option"
  backoff :: 'b

datatype connect_error = ConnectFailed nat "string option"

type_synonym ('h, 'b) connect_result =
  "connect_error option \<times> ('h, 'b) Connection \<times> 'h effect list"

definition after :: "'h effect list \<Rightarrow> ('h, 'b) connect_result \<Rightarrow> ('h, 'b) connect_result" where
  "after efs r = (case r of (e, c, efs') \<Rightarrow> (e, c, efs @ efs'))"

text \<open>
  The loop \<open>for i := tries; i > 0; i--\<close>, by recursion on \<open>i\<close>; the attempt made at
  \<open>i\<close> is number \<open>tries - i\<close>, counting from 0. \<open>err\<close> is the variable the
  final message formats.
\<close>

fun connect_loop ::
  "('b \<Rightarrow> nat \<times> 'b) \<Rightarrow> ('b \<Rightarrow> 'b) \<Rightarrow> (nat \<Rightarrow> 'h dial) \<Rightarrow> nat \<Rightarrow> nat \<Rightarrow>
   ('h, 'b) Connection \<Rightarrow> string option \<Rightarrow> ('h, 'b) connect_result" where
  "connect_loop W S db tries 0 c err = (Some (ConnectFailed tries err), c, [])"
| "connect_loop W S db tries (Suc i) c err =
     (case W (backoff c) of
        (d, b) \<Rightarrow>
          (case db (tries - Suc i) of
             OpenFails e \<Rightarrow>
               after [Sleep d, Open]
                 (connect_loop W S db tries i (c\<lparr>backoff := b\<rparr>) (Some e))
           | PingFails h e \<Rightarrow>
               after [Sleep d, Open, Ping h, Close h]
                 (connect_loop W S db tries i (c\<lparr>backoff := b\<rparr>) (Some e))
           | Connected h \<Rightarrow>
               (None, c\<lparr>conn := Some h, backoff := S b\<rparr>,
                [Sleep d, Open, Ping h, Success])))"

definition Connect ::
  "('b \<Rightarrow> nat \<times> 'b) \<Rightarrow> ('b \<Rightarrow> 'b) \<Rightarrow> (nat \<Rightarrow> 'h dial) \<Rightarrow>
   ('h, 'b) Connection \<Rightarrow> nat \<Rightarrow> ('h, 'b) connect_result" where
  "Connect W S db c tries =
     (if tries = 0 then (None, c, []) else connect_loop W S db tries tries c None)"

text \<open>
  Reading the effects of \<open>Connect\<close>: the attempts are the \<open>Open\<close> effects; the waits
  slept, in order; and the first \<open>n\<close> waits that a Backoff in state \<open>b\<close> computes when
  \<open>Wait\<close> is called \<open>n\<close> times in a row.
\<close>

definition attempts :: "'h effect list \<Rightarrow> nat" where
  "attempts efs = length (filter (\<lambda>e. e = Open) efs)"

fun slept :: "'h effect list \<Rightarrow> nat list" where
  "slept [] = []"
| "slept (Sleep d # efs) = d # slept efs"
| "slept (e # efs) = slept efs"

fun waits :: "('b \<Rightarrow> nat \<times> 'b) \<Rightarrow> 'b \<Rightarrow> nat \<Rightarrow> nat list" where
  "waits W b 0 = []"
| "waits W b (Suc n) = fst (W b) # waits W (snd (W b)) n"

fun waited :: "('b \<Rightarrow> nat \<times> 'b) \<Rightarrow> 'b \<Rightarrow> nat \<Rightarrow> 'b" where
  "waited W b 0 = b"
| "waited W b (Suc n) = waited W (snd (W b)) n"

text \<open>
  What one attempt does, given the wait \<open>d\<close> and the answer of the driver: sleep, open,
  and, when the handle opened, probe it, closing it when the probe fails.
\<close>

fun attempt_effects :: "nat \<Rightarrow> 'h dial \<Rightarrow> 'h effect list" where
  "attempt_effects d (OpenFails e) = [Sleep d, Open]"
| "attempt_effects d (PingFails h e) = [Sleep d, Open, Ping h, Close h]"
| "attempt_effects d (Connected h) = [Sleep d, Open, Ping h, Success]"

fun dial_error :: "'h dial \<Rightarrow> string option" where
  "dial_error (OpenFails e) = Some e"
| "dial_error (PingFails h e) = Some e"
| "dial_error (Connected h) = None"

fun is_Connected :: "'h dial \<Rightarrow> bool" where
  "is_Connected (Connected h) = True"
| "is_Connected d = False"

text \<open>The effects of the attempts numbered \<open>k\<close> up to \<open>k + n - 1\<close>, one after the other.\<close>

fun attempts_effects :: "('b \<Rightarrow> nat \<times> 'b) \<Rightarrow> (nat \<Rightarrow> 'h dial) \<Rightarrow> 'b \<Rightarrow> nat \<Rightarrow> nat \<Rightarrow> 'h effect list" where
  "attempts_effects W db b k 0 = []"
| "attempts_effects W db b k (Suc n) =
     attempt_effects (fst (W b)) (db k) @ attempts_effects W db (snd (W b)) (Suc k) n"

text \<open>
  Two checks on a list of effects: every \<open>Open\<close> comes right after a \<open>Sleep\<close>; and
  every probed handle is, right after the probe, either closed or recorded with
  \<open>Success\<close>.
\<close>

fun sleeps_before_opens :: "'h effect list \<Rightarrow> bool" where
  "sleeps_before_opens [] = True"
| "sleeps_before_opens (Sleep d # Open # efs) = sleeps_before_opens efs"
| "sleeps_before_opens (Open # efs) = False"
| "sleeps_before_opens (e # efs) = sleeps_before_opens efs"

fun probes_settled :: "'h effect list \<Rightarrow> bool" where
  "probes_settled [] = True"
| "probes_settled (Ping h # Close h' # efs) = (h = h' \<and> probes_settled efs)"
| "probes_settled (Ping h # Success # efs) = probes_settled efs"
| "probes_settled (Ping h # efs) = False"
| "probes_settled (e # efs) = probes_settled efs"

section \<open>Sender (package data)\<close>

definition MAX_SEND_ERRORS :: nat where
  "MAX_SEND_ERRORS = 3"

text \<open>
  Modelled from the spec: \<open>proto.Response\<close> is declared outside the files at hand; the
  spec gives the response envelope a numeric \<open>Code\<close> and an \<open>Error\<close> string.
\<close>

record Response =
  Code :: int
  Error :: string

text \<open>
  The Sender's fields that \<open>send\<close> reads or writes. The counters are unbounded: a cycle
  cannot handle enough files to wrap a \<open>uint\<close>. The logger and the status texts written
  while a cycle runs decide nothing and are left out; the status text that ends the
  cycle is \<open>sentInfo\<close> below.

  Modelled from the spec: the interface \<open>Spooler\<close> is declared outside the files at
  hand; its pending units are enumerated by \<open>Files\<close>, read by \<open>Read\<close> and ended by
  \<open>Remove\<close>. The Spooler is the list of the names of its pending units, in the order
  \<open>Files\<close> enumerates them, and \<open>Remove\<close> deletes a name; what \<open>Read\<close> returns is an
  input, below.
\<close>

record Sender =
  spool :: "string list"
  timeout :: nat
  blackhole :: bool
  sent :: nat
  sentBytes :: int
  sentTime :: float64
  errs :: nat
  bad :: nat
  apiErr :: bool
  timeoutErr :: bool

definition Remove :: "string list \<Rightarrow> string \<Rightarrow> string list" where
  "Remove sp file = removeAll file sp"

text \<open>
  What the world answers while one unit is handled: the run time in whole seconds that
  the timeout check reads, the result of \<open>spool.Read\<close> (an error or the bytes), the
  error of \<open>SendBytes\<close> (\<open>None\<close> for nil), the seconds \<open>SendBytes\<close> took, and the
  result of \<open>Recv\<close>.
\<close>

record file_io =
  io_runTime :: nat
  io_read :: "string + nat list"
  io_send :: "string option"
  io_sendTime :: float64
  io_recv :: "string + Response"

datatype send_error =
    SpoolRead string
  | Sending string string
  | WaitingForAck string string
  | UnhandledCode int string
  | UnknownCode int string

text \<open>The loop of \<open>sendAllFiles\<close> over the enumerated names.\<close>

fun sendFiles :: "rounding \<Rightarrow> (string \<Rightarrow> file_io) \<Rightarrow> Sender \<Rightarrow> string list \<Rightarrow> send_error option \<times> Sender" where
  "sendFiles fl io s [] = (None, s)"
| "sendFiles fl io s (file # files) =
     (if io_runTime (io file) > timeout s then (None, s\<lparr>timeoutErr := True\<rparr>)
      else
        (case io_read (io file) of
           Inl e \<Rightarrow> (Some (SpoolRead e), s)
         | Inr data \<Rightarrow>
             if blackhole s then
               sendFiles fl io (s\<lparr>spool := Remove (spool s) file\<rparr>) files
             else if length data = 0 then
               sendFiles fl io (s\<lparr>spool := Remove (spool s) file\<rparr>) files
             else
               (case io_send (io file) of
                  Some e \<Rightarrow> (Some (Sending file e), s)
                | None \<Rightarrow>
                    (let s1 = s\<lparr>sentTime := fadd fl (sentTime s) (io_sendTime (io file)),
                                 sentBytes := sentBytes s + int (length data)\<rparr>
                     in case io_recv (io file) of
                          Inl e \<Rightarrow> (Some (WaitingForAck file e), s1)
                        | Inr resp \<Rightarrow>
                            if Code resp \<ge> 500 then (None, s1\<lparr>apiErr := True\<rparr>)
                            else if Code resp \<ge> 400 then
                              sendFiles fl io (s1\<lparr>spool := Remove (spool s1) file,
                                                sent := sent s1 + 1,
                                                bad := bad s1 + 1\<rparr>) files
                            else if Code resp \<ge> 300 then
                              (Some (UnhandledCode (Code resp) (Error resp)), s1)
                            else if Code resp \<ge> 200 then
                              sendFiles fl io (s1\<lparr>spool := Remove (spool s1) file,
                                                sent := sent s1 + 1\<rparr>) files
                            else (Some (UnknownCode (Code resp) (Error resp)), s1)))))"

definition sendAllFiles :: "rounding \<Rightarrow> (string \<Rightarrow> file_io) \<Rightarrow> Sender \<Rightarrow> send_error option \<times> Sender" where
  "sendAllFiles fl io s = sendFiles fl io s (spool s)"

text \<open>
  What the world answers during one pass of the loop of \<open>send\<close>: the run time the
  timeout check reads, the error of \<open>ConnectOnce\<close>, and the answers for the files.
  Every pass that does not end the cycle adds one to \<open>errs\<close>, so \<open>errs\<close> numbers the
  passes and the world is a function of it.
\<close>

record pass_io =
  p_runTime :: nat
  p_connect :: "string option"
  p_files :: "string \<Rightarrow> file_io"

lemma sendFiles_errs: "errs (snd (sendFiles fl io s files)) = errs s"
  by (induction fl io s files rule: sendFiles.induct)
     (simp_all add: Let_def split: sum.splits option.splits)

lemma sendAllFiles_errs: "(e, s') = sendAllFiles fl io s \<Longrightarrow> errs s' = errs s"
  using sendFiles_errs [of fl io s "spool s"] by (simp add: sendAllFiles_def) (metis snd_conv)

function send_loop :: "rounding \<Rightarrow> (nat \<Rightarrow> pass_io) \<Rightarrow> Sender \<Rightarrow> Sender" where
  "send_loop fl world s =
     (if \<not> apiErr s \<and> errs s < MAX_SEND_ERRORS \<and> \<not> timeoutErr s then
        (if p_runTime (world (errs s)) > timeout s then s\<lparr>timeoutErr := True\<rparr>
         else
           (case p_connect (world (errs s)) of
              Some e \<Rightarrow> send_loop fl world (s\<lparr>errs := errs s + 1\<rparr>)
            | None \<Rightarrow>
                (case sendAllFiles fl (p_files (world (errs s))) s of
                   (Some e, s') \<Rightarrow> send_loop fl world (s'\<lparr>errs := errs s' + 1\<rparr>)
                 | (None, s') \<Rightarrow> s')))
      else s)"
  by pat_completeness auto
termination
  apply (relation "measure (\<lambda>(fl, world, s). MAX_SEND_ERRORS - errs s)")
    apply simp
   apply (frule sendAllFiles_errs)
   apply (simp add: MAX_SEND_ERRORS_def, arith)
  apply (simp add: MAX_SEND_ERRORS_def, arith)
  done

text \<open>
  The status text that the deferred function of \<open>send\<close> writes, as the values it
  formats: the count sent, the seconds and the bytes (for the rate), and, only when
  something went wrong, the bad count, the error count and the two flags.
\<close>

record sentInfo =
  info_sent :: nat
  info_sentTime :: float64
  info_sentBytes :: int
  info_problems :: "(nat \<times> nat \<times> bool \<times> bool) option"

definition status_of :: "Sender \<Rightarrow> sentInfo" where
  "status_of s =
     \<lparr>info_sent = sent s, info_sentTime = sentTime s, info_sentBytes = sentBytes s,
      info_problems =
        (if errs s > 0 \<or> bad s > 0 \<or> apiErr s \<or> timeoutErr s
         then Some (bad s, errs s, apiErr s, timeoutErr s) else None)\<rparr>"

text \<open>
  \<open>send\<close>: reset the counters of the cycle, run the loop, and on the way out write the
  status; the second component tells whether "No data sent" is logged.
\<close>

definition send :: "rounding \<Rightarrow> (nat \<Rightarrow> pass_io) \<Rightarrow> Sender \<Rightarrow> sentInfo \<times> bool \<times> Sender" where
  "send fl world s =
     (let s1 = send_loop fl world
                 (s\<lparr>sent := 0, sentBytes := 0, sentTime := Fin 0, errs := 0, bad := 0,
                    apiErr := False, timeoutErr := False\<rparr>)
      in (status_of s1, sent s1 = 0 \<and> \<not> apiErr s1, s1))"

text \<open>
  The unit \<open>file\<close> is transmitted and acknowledged: the time budget is not exceeded,
  the unit is read and holds the bytes \<open>data\<close>, which are not empty, blackhole mode is
  off, \<open>SendBytes\<close> succeeds and \<open>Recv\<close> delivers the response \<open>resp\<close>.
\<close>

definition acked :: "(string \<Rightarrow> file_io) \<Rightarrow> Sender \<Rightarrow> string \<Rightarrow> nat list \<Rightarrow> Response \<Rightarrow> bool" where
  "acked io s file data resp \<longleftrightarrow>
     \<not> io_runTime (io file) > timeout s \<and> io_read (io file) = Inr data \<and>
     \<not> blackhole s \<and> length data \<noteq> 0 \<and> io_send (io file) = None \<and>
     io_recv (io file) = Inr resp"

text \<open>
  The code with which the transport acknowledges a unit (0 when \<open>Recv\<close> fails), and the
  three ranges of codes that \<open>sendAllFiles\<close> handles without returning an error.
\<close>

definition ack_code :: "(string \<Rightarrow> file_io) \<Rightarrow> string \<Rightarrow> int" where
  "ack_code io file = (case io_recv (io file) of Inl e \<Rightarrow> 0 | Inr resp \<Rightarrow> Code resp)"

definition handled_code :: "int \<Rightarrow> bool" where
  "handled_code c \<longleftrightarrow> (200 \<le> c \<and> c \<le> 299) \<or> (400 \<le> c \<and> c \<le> 499) \<or> 500 \<le> c"

text \<open>The Sender's state once the bytes of an acknowledged unit have been sent.\<close>

definition transmitted :: "rounding \<Rightarrow> (string \<Rightarrow> file_io) \<Rightarrow> Sender \<Rightarrow> string \<Rightarrow> nat list \<Rightarrow> Sender" where
  "transmitted fl io s file data =
     s\<lparr>sentTime := fadd fl (sentTime s) (io_sendTime (io file)),
       sentBytes := sentBytes s + int (length data)\<rparr>"

text \<open>
  The mocks of the scenario: a spool whose units all hold the same three bytes, and a
  transport that answers each unit with the code listed for it, at once.
\<close>

definition mock_files :: "(string \<times> int) list \<Rightarrow> string \<Rightarrow> file_io" where
  "mock_files codes file =
     \<lparr>io_runTime = 0, io_read = Inr [1, 2, 3], io_send = None, io_sendTime = Fin 0,
      io_recv = (case map_of codes file of
                   None \<Rightarrow> Inl ''no response''
                 | Some c \<Rightarrow> Inr \<lparr>Code = c, Error = []\<rparr>)\<rparr>"

definition mock_world :: "(string \<times> int) list \<Rightarrow> nat \<Rightarrow> pass_io" where
  "mock_world codes pass = \<lparr>p_runTime = 0, p_connect = None, p_files = mock_files codes\<rparr>"

section \<open>Properties of the float64 operations\<close>

lemma flt_rank: "flt a b \<longleftrightarrow> a \<noteq> NaN \<and> b \<noteq> NaN \<and> sort_rank a < sort_rank b"
  by (cases a; cases b; simp)

lemma fle_rank: "fle a b \<longleftrightarrow> a \<noteq> NaN \<and> b \<noteq> NaN \<and> sort_rank a \<le> sort_rank b"
  by (cases a; cases b; auto simp: fle_def feq_def)

lemma Less_rank: "Less a b \<longleftrightarrow> sort_rank a < sort_rank b"
  by (cases a; cases b; simp add: Less_def)

lemma fle_not_flt: "fle a b \<Longrightarrow> \<not> flt b a"
  by (auto simp: fle_rank flt_rank)

lemma flt_not_fge: "flt a b \<Longrightarrow> \<not> fge a b"
  by (auto simp: fge_def fle_rank flt_rank)

text \<open>
  The slice \<open>sort.Float64s\<close> leaves is a permutation of the slice it was given, in which
  no element is \<open>Less\<close> than an earlier one.
\<close>

lemma Float64s_sorted: "sorted_wrt (\<lambda>a b. \<not> Less b a) (Float64s xs)"
proof -
  have "sorted (map sort_rank (Float64s xs))" by (simp add: Float64s_def)
  then show ?thesis by (simp add: sorted_map Less_rank not_less)
qed

lemma Float64s_mset: "mset (Float64s xs) = mset xs"
  by (simp add: Float64s_def)

lemma Float64s_set: "set (Float64s xs) = set xs"
  by (simp add: Float64s_def)

lemma Float64s_length: "length (Float64s xs) = length xs"
  by (simp add: Float64s_def)

lemma Float64s_nth_rank:
  assumes "i \<le> j" "j < length xs"
  shows "sort_rank (Float64s xs ! i) \<le> sort_rank (Float64s xs ! j)"
proof -
  have s: "sorted (map sort_rank (Float64s xs))" by (simp add: Float64s_def)
  have "map sort_rank (Float64s xs) ! i \<le> map sort_rank (Float64s xs) ! j"
    by (rule sorted_nth_mono [OF s assms(1)]) (simp add: Float64s_length assms(2))
  then show ?thesis using assms by (simp add: Float64s_length)
qed

lemma Float64s_nth_mem:
  assumes "i < length xs"
  shows "Float64s xs ! i \<in> set xs"
  using assms nth_mem [of i "Float64s xs"] by (simp add: Float64s_length Float64s_set)

lemma Float64s_nth_le:
  assumes "NaN \<notin> set xs" "i \<le> j" "j < length xs"
  shows "fle (Float64s xs ! i) (Float64s xs ! j)"
proof -
  have "Float64s xs ! i \<in> set xs" "Float64s xs ! j \<in> set xs"
    using assms by (auto intro: Float64s_nth_mem)
  then have "Float64s xs ! i \<noteq> NaN" "Float64s xs ! j \<noteq> NaN" using assms(1) by auto
  then show ?thesis using Float64s_nth_rank [OF assms(2,3)] by (simp add: fle_rank)
qed

section \<open>Properties of Stats\<close>

lemma Add_gauge:
  "metricType s = ''gauge'' \<Longrightarrow>
   Add fl s m ts =
     Inr (None, s\<lparr>vals := vals s @ [Number m], sum_s := fadd fl (sum_s s) (Number m)\<rparr>)"
  by (simp add: Add_def)

lemma Add_total:
  assumes "metricType s = ''gauge'' \<or> metricType s = ''counter''"
  shows "\<exists>e s'. Add fl s m ts = Inr (e, s') \<and> metricType s' = metricType s"
  using assms by (auto simp: Add_def Let_def)

lemma NewStats_type:
  "NewStats mt = Inr s \<Longrightarrow> metricType s = mt \<and> (mt = ''gauge'' \<or> mt = ''counter'')"
  by (auto simp: NewStats_def MetricTypes_def split: if_splits)

lemma addMetrics_types:
  assumes "\<forall>n st. c n = Some st \<longrightarrow> metricType st = ''gauge'' \<or> metricType st = ''counter''"
    and "addMetrics fl c ts ms = Inr c'"
  shows "\<forall>n st. c' n = Some st \<longrightarrow> metricType st = ''gauge'' \<or> metricType st = ''counter''"
  using assms
proof (induction fl c ts ms arbitrary: c' rule: addMetrics.induct)
  case (1 fl c ts)
  then show ?case by simp
next
  case (2 fl c ts metric rest)
  from 2(3) obtain stats e stats' where
    l: "(case c (Name metric) of
              Some stats \<Rightarrow> Inr stats
            | None \<Rightarrow>
                (case NewStats (Type metric) of
                   Inl e \<Rightarrow> Inl (Panic ''nil pointer dereference'')
                 | Inr stats \<Rightarrow> Inr stats)) = Inr stats" and
    a: "Add fl stats metric ts = Inr (e, stats')" and
    r: "addMetrics fl (c(Name metric \<mapsto> stats')) ts rest = Inr c'"
    by (auto split: sum.splits prod.splits)
  have v: "metricType stats = ''gauge'' \<or> metricType stats = ''counter''"
    using l 2(2) NewStats_type [of "Type metric" stats]
    by (auto split: option.splits sum.splits)
  from Add_total [OF v, of fl metric ts] a v
  have v': "metricType stats' = ''gauge'' \<or> metricType stats' = ''counter''" by auto
  have "\<forall>n st. (c(Name metric \<mapsto> stats')) n = Some st \<longrightarrow>
      metricType st = ''gauge'' \<or> metricType st = ''counter''"
    using 2(2) v' by auto
  from 2(1) [OF l a refl this r] show ?case .
qed

lemma run_types:
  assumes "\<forall>n st. cur a n = Some st \<longrightarrow> metricType st = ''gauge'' \<or> metricType st = ''counter''"
  shows "\<forall>n st. cur (snd (run fl a evs)) n = Some st \<longrightarrow>
     metricType st = ''gauge'' \<or> metricType st = ''counter''"
  using assms
proof (induction fl a evs rule: run.induct)
  case (1 fl a)
  then show ?case by simp
next
  case (2 fl a now evs)
  then show ?case by simp
next
  case (3 fl a collection evs)
  show ?case
  proof (cases "addMetrics fl (cur a) (StartTs collection) (CMetrics collection)")
    case (Inl p)
    with 3(2) show ?thesis by simp
  next
    case (Inr c)
    from addMetrics_types [OF 3(2) Inr]
    have "\<forall>n st. cur (a\<lparr>cur := c\<rparr>) n = Some st \<longrightarrow>
        metricType st = ''gauge'' \<or> metricType st = ''counter''" by simp
    from 3(1) [OF Inr this] Inr show ?thesis by simp
  qed
next
  case (4 fl a evs)
  then show ?case by simp
qed

text \<open>
  Claim C10. A \<open>Stats\<close> whose \<open>metricType\<close> is gauge or counter never reaches the
  \<open>log.Panic\<close> of \<open>Add\<close>: every call returns an error value (possibly nil) and an
  updated \<open>Stats\<close> of the same type, so the next call is panic-free as well.
  \<open>NewStats\<close> builds a \<open>Stats\<close> under these two types only, and so every \<open>Stats\<close> in
  the map of the Aggregator, which come from \<open>NewStats\<close> and \<open>Add\<close>, has one of them.
  This holds for every \<open>float64\<close> value and whatever the rounding.
\<close>

theorem Add_panic_free:
  "(metricType s = ''gauge'' \<or> metricType s = ''counter'' \<longrightarrow>
      (\<exists>e s'. Add fl s m ts = Inr (e, s') \<and> metricType s' = metricType s)) \<and>
   (NewStats mt = Inr s \<longrightarrow> metricType s = ''gauge'' \<or> metricType s = ''counter'') \<and>
   (cur (snd (run fl NewAggregator evs)) name = Some st \<longrightarrow>
      metricType st = ''gauge'' \<or> metricType st = ''counter'')"
proof -
  have "\<forall>n st. cur NewAggregator n = Some st \<longrightarrow>
      metricType st = ''gauge'' \<or> metricType st = ''counter''"
    by (simp add: NewAggregator_def)
  from run_types [OF this, of fl evs] Add_total [of s fl m ts] NewStats_type [of mt s]
  show ?thesis by blast
qed

theorem Add_panic_free_witness:
  "NewStats ''counter'' = Inr (Stats_zero\<lparr>metricType := ''counter'', vals := [], firstVal := True\<rparr>) \<and>
   (\<exists>e s'. Add exact (Stats_zero\<lparr>metricType := ''counter'', vals := [], firstVal := True\<rparr>)
              \<lparr>Name = ''x'', Type = ''counter'', Number = Fin 7\<rparr> 5 = Inr (e, s') \<and>
            metricType s' = ''counter'') \<and>
   cur (snd (run exact NewAggregator
     [Collect \<lparr>StartTs = 5, CMetrics = [\<lparr>Name = ''x'', Type = ''gauge'', Number = Fin 7\<rparr>]\<rparr>])) ''x'' =
     Some (Stats_zero\<lparr>metricType := ''gauge'', vals := [Fin 7], firstVal := True,
                       sum_s := Fin 7\<rparr>) \<and>
   metricType (Stats_zero\<lparr>metricType := ''gauge'', vals := [Fin 7], firstVal := True,
                           sum_s := Fin 7\<rparr>) = ''gauge''"
proof -
  let ?fresh = "Stats_zero\<lparr>metricType := ''counter'', vals := [], firstVal := True\<rparr>"
  let ?g = "Stats_zero\<lparr>metricType := ''gauge'', vals := [Fin 7], firstVal := True,
                        sum_s := Fin 7\<rparr>"
  let ?evs = "[Collect \<lparr>StartTs = 5, CMetrics = [\<lparr>Name = ''x'', Type = ''gauge'', Number = Fin 7\<rparr>]\<rparr>]"
  have n: "NewStats ''counter'' = Inr ?fresh"
    by (simp add: NewStats_def MetricTypes_def)
  have t: "metricType ?fresh = ''gauge'' \<or> metricType ?fresh = ''counter''"
    by simp
  have c: "cur (snd (run exact NewAggregator ?evs)) ''x'' = Some ?g"
    by (simp add: NewAggregator_def NewStats_def MetricTypes_def Add_def Stats_zero_def
        exact_def)
  note inst = Add_panic_free [where s = ?fresh and fl = exact
      and m = "\<lparr>Name = ''x'', Type = ''counter'', Number = Fin 7\<rparr>"
      and ts = 5 and mt = "''counter''" and evs = ?evs and name = "''x''" and st = ?g]
  from inst t have 1: "\<exists>e s'. Add exact ?fresh \<lparr>Name = ''x'', Type = ''counter'', Number = Fin 7\<rparr> 5 =
      Inr (e, s') \<and> metricType s' = metricType ?fresh"
    by blast
  from inst c have 2: "metricType ?g = ''gauge'' \<or> metricType ?g = ''counter''" by blast
  from n 1 c 2 show ?thesis by simp
qed

lemma Add_vals_grow:
  "Add fl s m ts = Inr (e, s') \<Longrightarrow> \<exists>ws. vals s' = vals s @ ws"
  by (auto simp: Add_def Let_def split: if_splits)

lemma AddSeq_gauge:
  "metricType s = ''gauge'' \<Longrightarrow>
   \<exists>s'. AddSeq fl s ms = Inr (replicate (length ms) None, s') \<and>
         vals s' = vals s @ map (\<lambda>(m, ts). Number m) ms \<and> metricType s' = ''gauge''"
proof (induction fl s ms rule: AddSeq.induct)
  case (1 fl s)
  then show ?case by simp
next
  case (2 fl s m ts rest)
  let ?s1 = "s\<lparr>vals := vals s @ [Number m], sum_s := fadd fl (sum_s s) (Number m)\<rparr>"
  have a: "Add fl s m ts = Inr (None, ?s1)" using 2(2) by (rule Add_gauge)
  from 2(1) [OF a refl] 2(2) obtain s' where
    "AddSeq fl ?s1 rest = Inr (replicate (length rest) None, s')"
    "vals s' = vals ?s1 @ map (\<lambda>(m, ts). Number m) rest" "metricType s' = ''gauge''"
    by auto
  with a show ?case by simp
qed

lemma pct_index:
  assumes "0 < n" "p < 100"
  shows "(p * n) div 100 < (n::nat)"
  using assms by (simp add: less_mult_imp_div_less mult.commute)

lemma Summarize_fields:
  assumes t: "metricType s = ''gauge'' \<or> metricType s = ''counter''" and ne: "vals s \<noteq> []"
  shows "Cnt (Summarize fl s) = int (length (vals s))"
    and "Min_s (Summarize fl s) = Float64s (vals s) ! 0"
    and "Pct5 (Summarize fl s) = Float64s (vals s) ! ((5 * length (vals s)) div 100)"
    and "Med (Summarize fl s) = Float64s (vals s) ! ((50 * length (vals s)) div 100)"
    and "Pct95 (Summarize fl s) = Float64s (vals s) ! ((95 * length (vals s)) div 100)"
    and "Max_s (Summarize fl s) = Float64s (vals s) ! (length (vals s) - 1)"
proof -
  obtain x ys where xy: "vals s = x # ys" using ne by (cases "vals s") auto
  consider (one) x where "vals s = [x]" | (many) "length (vals s) > 1"
    using xy by (cases ys) auto
  then have "Cnt (Summarize fl s) = int (length (vals s)) \<and>
      Min_s (Summarize fl s) = Float64s (vals s) ! 0 \<and>
      Pct5 (Summarize fl s) = Float64s (vals s) ! ((5 * length (vals s)) div 100) \<and>
      Med (Summarize fl s) = Float64s (vals s) ! ((50 * length (vals s)) div 100) \<and>
      Pct95 (Summarize fl s) = Float64s (vals s) ! ((95 * length (vals s)) div 100) \<and>
      Max_s (Summarize fl s) = Float64s (vals s) ! (length (vals s) - 1)"
  proof cases
    case one
    then show ?thesis using t by (auto simp: Summarize_def Float64s_def)
  next
    case many
    then show ?thesis using t by (auto simp: Summarize_def Let_def)
  qed
  then show "Cnt (Summarize fl s) = int (length (vals s))"
    and "Min_s (Summarize fl s) = Float64s (vals s) ! 0"
    and "Pct5 (Summarize fl s) = Float64s (vals s) ! ((5 * length (vals s)) div 100)"
    and "Med (Summarize fl s) = Float64s (vals s) ! ((50 * length (vals s)) div 100)"
    and "Pct95 (Summarize fl s) = Float64s (vals s) ! ((95 * length (vals s)) div 100)"
    and "Max_s (Summarize fl s) = Float64s (vals s) ! (length (vals s) - 1)"
    by blast+
qed

text \<open>
  Claim C4, as amended. For a non-empty sequence of gauge samples, none of them
  not-a-number, added to a fresh \<open>Stats\<close>, the summary satisfies
  \<open>Min \<le> Pct5 \<le> Med \<le> Pct95 \<le> Max\<close> in the comparison of Go; each of the five is one
  of the values that were added; and \<open>Pct5\<close>, \<open>Med\<close>, \<open>Pct95\<close> are the elements of the
  ascending sorted values at the indexes \<open>(p * Cnt) div 100\<close> for \<open>p\<close> = 5, 50, 95
  (\<open>Min\<close> and \<open>Max\<close> are its first and last elements). The infinities are allowed.
\<close>

theorem gauge_summary:
  assumes "ms \<noteq> []" and "list_all (\<lambda>(m, ts). Number m \<noteq> NaN) ms"
  shows "\<exists>s0 es s. NewStats ''gauge'' = Inr s0 \<and> AddSeq fl s0 ms = Inr (es, s) \<and>
     (let r = Summarize fl s; xs = map (\<lambda>(m, ts). Number m) ms; n = length xs in
        Cnt r = int n \<and>
        fle (Min_s r) (Pct5 r) \<and> fle (Pct5 r) (Med r) \<and> fle (Med r) (Pct95 r) \<and>
        fle (Pct95 r) (Max_s r) \<and>
        Min_s r \<in> set xs \<and> Pct5 r \<in> set xs \<and> Med r \<in> set xs \<and>
        Pct95 r \<in> set xs \<and> Max_s r \<in> set xs \<and>
        Min_s r = Float64s xs ! 0 \<and>
        Pct5 r = Float64s xs ! ((5 * n) div 100) \<and>
        Med r = Float64s xs ! ((50 * n) div 100) \<and>
        Pct95 r = Float64s xs ! ((95 * n) div 100) \<and>
        Max_s r = Float64s xs ! (n - 1))"
proof -
  let ?s0 = "Stats_zero\<lparr>metricType := ''gauge'', vals := [], firstVal := True\<rparr>"
  let ?xs = "map (\<lambda>(m, ts). Number m) ms"
  let ?n = "length ?xs"
  let ?r = "Summarize fl"
  have n0: "NewStats ''gauge'' = Inr ?s0" by (simp add: NewStats_def MetricTypes_def)
  have "metricType ?s0 = ''gauge''" by simp
  from AddSeq_gauge [OF this, of fl ms] obtain s where
    a: "AddSeq fl ?s0 ms = Inr (replicate (length ms) None, s)" and
    v: "vals s = ?xs" and t: "metricType s = ''gauge''"
    by auto
  have nn: "NaN \<notin> set ?xs" using assms(2) by (auto simp: list_all_iff)
  have ne: "vals s \<noteq> []" and pos: "0 < ?n" using assms(1) v by auto
  have t': "metricType s = ''gauge'' \<or> metricType s = ''counter''" using t by simp
  note f = Summarize_fields [OF t' ne, unfolded v]
  have i5: "(5 * ?n) div 100 < ?n" and i50: "(50 * ?n) div 100 < ?n"
    and i95: "(95 * ?n) div 100 < ?n"
    using pos by (intro pct_index; simp)+
  have le1: "(5 * ?n) div 100 \<le> (50 * ?n) div 100" by (rule div_le_mono) simp
  have le2: "(50 * ?n) div 100 \<le> (95 * ?n) div 100" by (rule div_le_mono) simp
  have le3: "(95 * ?n) div 100 \<le> ?n - 1" using i95 by simp
  have o1: "fle (Float64s ?xs ! 0) (Float64s ?xs ! ((5 * ?n) div 100))"
    by (rule Float64s_nth_le [OF nn]) (use i5 in simp_all)
  have o2: "fle (Float64s ?xs ! ((5 * ?n) div 100)) (Float64s ?xs ! ((50 * ?n) div 100))"
    by (rule Float64s_nth_le [OF nn le1 i50])
  have o3: "fle (Float64s ?xs ! ((50 * ?n) div 100)) (Float64s ?xs ! ((95 * ?n) div 100))"
    by (rule Float64s_nth_le [OF nn le2 i95])
  have o4: "fle (Float64s ?xs ! ((95 * ?n) div 100)) (Float64s ?xs ! (?n - 1))"
    by (rule Float64s_nth_le [OF nn le3]) (use pos in simp)
  have m0: "Float64s ?xs ! 0 \<in> set ?xs" by (rule Float64s_nth_mem) (use pos in simp)
  have m5: "Float64s ?xs ! ((5 * ?n) div 100) \<in> set ?xs" by (rule Float64s_nth_mem [OF i5])
  have m50: "Float64s ?xs ! ((50 * ?n) div 100) \<in> set ?xs" by (rule Float64s_nth_mem [OF i50])
  have m95: "Float64s ?xs ! ((95 * ?n) div 100) \<in> set ?xs" by (rule Float64s_nth_mem [OF i95])
  have m1: "Float64s ?xs ! (?n - 1) \<in> set ?xs" by (rule Float64s_nth_mem) (use pos in simp)
  have "Cnt (?r s) = int ?n \<and>
        fle (Min_s (?r s)) (Pct5 (?r s)) \<and> fle (Pct5 (?r s)) (Med (?r s)) \<and>
        fle (Med (?r s)) (Pct95 (?r s)) \<and> fle (Pct95 (?r s)) (Max_s (?r s)) \<and>
        Min_s (?r s) \<in> set ?xs \<and> Pct5 (?r s) \<in> set ?xs \<and>
        Med (?r s) \<in> set ?xs \<and>
        Pct95 (?r s) \<in> set ?xs \<and> Max_s (?r s) \<in> set ?xs \<and>
        Min_s (?r s) = Float64s ?xs ! 0 \<and>
        Pct5 (?r s) = Float64s ?xs ! ((5 * ?n) div 100) \<and>
        Med (?r s) = Float64s ?xs ! ((50 * ?n) div 100) \<and>
        Pct95 (?r s) = Float64s ?xs ! ((95 * ?n) div 100) \<and>
        Max_s (?r s) = Float64s ?xs ! (?n - 1)"
    unfolding f using o1 o2 o3 o4 m0 m5 m50 m95 m1 by blast
  then show ?thesis using n0 a unfolding Let_def by blast
qed

theorem gauge_summary_witness:
  "\<exists>s0 es s. NewStats ''gauge'' = Inr s0 \<and>
      AddSeq exact s0 [(\<lparr>Name = ''x'', Type = ''gauge'', Number = Fin 30\<rparr>, 1),
                 (\<lparr>Name = ''x'', Type = ''gauge'', Number = Fin 10\<rparr>, 2),
                 (\<lparr>Name = ''x'', Type = ''gauge'', Number = PInf\<rparr>, 3),
                 (\<lparr>Name = ''x'', Type = ''gauge'', Number = Fin 20\<rparr>, 4)] = Inr (es, s) \<and>
      Cnt (Summarize exact s) = 4 \<and> Min_s (Summarize exact s) = Fin 10 \<and>
      Pct5 (Summarize exact s) = Fin 10 \<and> Med (Summarize exact s) = Fin 30 \<and>
      Pct95 (Summarize exact s) = PInf \<and> Max_s (Summarize exact s) = PInf"
proof -
  let ?ms = "[(\<lparr>Name = ''x'', Type = ''gauge'', Number = Fin 30\<rparr>, 1 :: int64),
    (\<lparr>Name = ''x'', Type = ''gauge'', Number = Fin 10\<rparr>, 2),
    (\<lparr>Name = ''x'', Type = ''gauge'', Number = PInf\<rparr>, 3),
    (\<lparr>Name = ''x'', Type = ''gauge'', Number = Fin 20\<rparr>, 4)]"
  let ?xs = "map (\<lambda>(m, ts). Number m) ?ms"
  have h: "?ms \<noteq> []" by simp
  have nn: "list_all (\<lambda>(m, ts). Number m \<noteq> NaN) ?ms" by simp
  have srt: "Float64s ?xs = [Fin 10, Fin 20, Fin 30, PInf]" by (simp add: Float64s_def)
  from gauge_summary [OF h nn, of exact] obtain s0 es s where
    1: "NewStats ''gauge'' = Inr s0" "AddSeq exact s0 ?ms = Inr (es, s)" and
    r: "Cnt (Summarize exact s) = int (length ?xs) \<and>
        Min_s (Summarize exact s) = Float64s ?xs ! 0 \<and>
        Pct5 (Summarize exact s) = Float64s ?xs ! ((5 * length ?xs) div 100) \<and>
        Med (Summarize exact s) = Float64s ?xs ! ((50 * length ?xs) div 100) \<and>
        Pct95 (Summarize exact s) = Float64s ?xs ! ((95 * length ?xs) div 100) \<and>
        Max_s (Summarize exact s) = Float64s ?xs ! (length ?xs - 1)"
    unfolding Let_def by blast
  from r have "Cnt (Summarize exact s) = 4 \<and> Min_s (Summarize exact s) = Fin 10 \<and>
      Pct5 (Summarize exact s) = Fin 10 \<and> Med (Summarize exact s) = Fin 30 \<and>
      Pct95 (Summarize exact s) = PInf \<and> Max_s (Summarize exact s) = PInf"
    unfolding srt by simp
  with 1 show ?thesis by blast
qed

theorem gauge_summary_counterexample:
  "NewStats ''gauge'' =
     Inr (Stats_zero\<lparr>metricType := ''gauge'', vals := [], firstVal := True\<rparr>) \<and>
   AddSeq exact (Stats_zero\<lparr>metricType := ''gauge'', vals := [], firstVal := True\<rparr>)
     [(\<lparr>Name = ''x'', Type = ''gauge'', Number = Fin 1\<rparr>, 1),
      (\<lparr>Name = ''x'', Type = ''gauge'', Number = NaN\<rparr>, 2),
      (\<lparr>Name = ''x'', Type = ''gauge'', Number = Fin 2\<rparr>, 3)] =
     Inr ([None, None, None],
          Stats_zero\<lparr>metricType := ''gauge'', vals := [Fin 1, NaN, Fin 2], firstVal := True,
                      sum_s := NaN\<rparr>) \<and>
   Min_s (Summarize exact
     (Stats_zero\<lparr>metricType := ''gauge'', vals := [Fin 1, NaN, Fin 2], firstVal := True,
                 sum_s := NaN\<rparr>)) = NaN \<and>
   Pct5 (Summarize exact
     (Stats_zero\<lparr>metricType := ''gauge'', vals := [Fin 1, NaN, Fin 2], firstVal := True,
                 sum_s := NaN\<rparr>)) = NaN \<and>
   \<not> fle (Min_s (Summarize exact
            (Stats_zero\<lparr>metricType := ''gauge'', vals := [Fin 1, NaN, Fin 2],
                        firstVal := True, sum_s := NaN\<rparr>)))
          (Pct5 (Summarize exact
            (Stats_zero\<lparr>metricType := ''gauge'', vals := [Fin 1, NaN, Fin 2],
                        firstVal := True, sum_s := NaN\<rparr>))) \<and>
   \<not> feq (Min_s (Summarize exact
            (Stats_zero\<lparr>metricType := ''gauge'', vals := [Fin 1, NaN, Fin 2],
                        firstVal := True, sum_s := NaN\<rparr>))) (Fin 1) \<and>
   \<not> feq (Min_s (Summarize exact
            (Stats_zero\<lparr>metricType := ''gauge'', vals := [Fin 1, NaN, Fin 2],
                        firstVal := True, sum_s := NaN\<rparr>))) NaN \<and>
   \<not> feq (Min_s (Summarize exact
            (Stats_zero\<lparr>metricType := ''gauge'', vals := [Fin 1, NaN, Fin 2],
                        firstVal := True, sum_s := NaN\<rparr>))) (Fin 2)"
  by (simp add: NewStats_def MetricTypes_def Add_def Stats_zero_def Summarize_def
      Float64s_def exact_def fle_def feq_def Let_def)

lemma AddSeq_append:
  "AddSeq fl s (xs @ ys) =
     (case AddSeq fl s xs of
        Inl p \<Rightarrow> Inl p
      | Inr (es, s') \<Rightarrow>
          (case AddSeq fl s' ys of
             Inl p \<Rightarrow> Inl p
           | Inr (es', s'') \<Rightarrow> Inr (es @ es', s'')))"
  by (induction fl s xs rule: AddSeq.induct) (auto split: sum.splits prod.splits)

lemma AddSeq_vals_grow:
  "AddSeq fl s ms = Inr (es, s') \<Longrightarrow> \<exists>ws. vals s' = vals s @ ws"
proof (induction fl s ms arbitrary: es s' rule: AddSeq.induct)
  case (1 fl s)
  then show ?case by simp
next
  case (2 fl s m ts rest)
  then show ?case
    by (fastforce split: sum.splits prod.splits dest: Add_vals_grow)
qed

lemma AddSeq_take:
  assumes "AddSeq fl s ms = Inr (es, s')"
  shows "\<exists>es1 s1 ws. AddSeq fl s (take k ms) = Inr (es1, s1) \<and> vals s' = vals s1 @ ws"
proof -
  have "AddSeq fl s (take k ms @ drop k ms) = Inr (es, s')" using assms by simp
  then obtain es1 s1 es2 where
    1: "AddSeq fl s (take k ms) = Inr (es1, s1)" and
    2: "AddSeq fl s1 (drop k ms) = Inr (es2, s')"
    unfolding AddSeq_append by (auto split: sum.splits prod.splits)
  from AddSeq_vals_grow [OF 2] 1 show ?thesis by blast
qed

lemma NewStats_Inr:
  "NewStats mt = Inr s \<Longrightarrow> s = Stats_zero\<lparr>metricType := mt, vals := [], firstVal := True\<rparr>"
  by (auto simp: NewStats_def split: if_splits)

lemma Finalize_None: "fst (Finalize fl s) = None \<longleftrightarrow> vals s = []"
  by (simp add: Finalize_def Let_def)

lemma Finalize_Some:
  "vals s \<noteq> [] \<Longrightarrow>
   Finalize fl s =
     (Some \<lparr>metricType = [], str = [], firstVal = False, prevTs = 0, penuTs = 0,
            prevVal = Fin 0, penuVal = Fin 0, vals = [], sum_s = Fin 0,
            Cnt = Cnt (Summarize fl s), Min_s = Min_s (Summarize fl s),
            Pct5 = Pct5 (Summarize fl s), Avg = Avg (Summarize fl s),
            Med = Med (Summarize fl s),
            Pct95 = Pct95 (Summarize fl s), Max_s = Max_s (Summarize fl s)\<rparr>,
      Summarize fl s)"
  by (simp add: Finalize_def Let_def Stats_zero_def)

lemma sample_val_snoc_old: "i < length ms \<Longrightarrow> sample_val (ms @ [x]) i = sample_val ms i"
  by (simp add: sample_val_def nth_append)

lemma sample_ts_snoc_old: "i < length ms \<Longrightarrow> sample_ts (ms @ [x]) i = sample_ts ms i"
  by (simp add: sample_ts_def nth_append)

lemma sample_snoc_new:
  "sample_val (ms @ [(m, t)]) (length ms) = Number m"
  "sample_ts (ms @ [(m, t)]) (length ms) = t"
  by (simp_all add: sample_val_def sample_ts_def)

lemma rate_at_snoc_old: "i < length ms \<Longrightarrow> rate_at fl (ms @ [x]) i = rate_at fl ms i"
  by (simp add: rate_at_def sample_val_snoc_old sample_ts_snoc_old)

lemma lap_at_snoc_old: "i < length ms \<Longrightarrow> lap_at (ms @ [x]) i = lap_at ms i"
  by (simp add: lap_at_def sample_val_snoc_old)

lemma rates_snoc:
  "rates fl (ms @ [x]) =
     rates fl ms @
     (if ms \<noteq> [] \<and>
         fge (sample_val (ms @ [x]) (length ms)) (sample_val (ms @ [x]) (length ms - 1))
      then [rate_at fl (ms @ [x]) (length ms)] else [])"
proof (cases "ms = []")
  case True
  then show ?thesis by (simp add: rates_def)
next
  case False
  then have n: "0 < length ms" by simp
  have up: "[1..<length (ms @ [x])] = [1..<length ms] @ [length ms]"
    using n by (simp add: Suc_le_eq)
  have f: "filter (\<lambda>i. fge (sample_val (ms @ [x]) i) (sample_val (ms @ [x]) (i - 1)))
        [1..<length ms]
      = filter (\<lambda>i. fge (sample_val ms i) (sample_val ms (i - 1))) [1..<length ms]"
    by (rule filter_cong) (auto simp: sample_val_snoc_old)
  have m: "map (rate_at fl (ms @ [x]))
        (filter (\<lambda>i. fge (sample_val ms i) (sample_val ms (i - 1))) [1..<length ms])
      = map (rate_at fl ms)
        (filter (\<lambda>i. fge (sample_val ms i) (sample_val ms (i - 1))) [1..<length ms])"
    by (rule map_cong) (auto simp: rate_at_snoc_old)
  show ?thesis
    unfolding rates_def up filter_append map_append f m using False n
    by (simp add: Suc_le_eq)
qed

lemma AddSeq_snoc:
  "AddSeq fl s (ms @ [(m, t)]) =
     (case AddSeq fl s ms of
        Inl p \<Rightarrow> Inl p
      | Inr (es, s') \<Rightarrow>
          (case Add fl s' m t of
             Inl p \<Rightarrow> Inl p
           | Inr (e, s'') \<Rightarrow> Inr (es @ [e], s'')))"
  by (simp add: AddSeq_append split: sum.splits prod.splits)

lemma lap_implies_ge:
  "fgt p (Fin 0) \<Longrightarrow> feq q (Fin 0) \<Longrightarrow> fgt n p \<Longrightarrow> fge n q"
  by (cases p; cases n; auto simp: fgt_def fge_def fle_def feq_def)

text \<open>
  The state of a counter \<open>Stats\<close> after a sequence of samples, and the errors the
  calls returned, in terms of the samples.
\<close>

lemma counter_seq:
  assumes "NewStats ''counter'' = Inr s0"
  shows "\<exists>es s. AddSeq fl s0 ms = Inr (es, s) \<and> metricType s = ''counter'' \<and>
     length es = length ms \<and>
     firstVal s = (ms = []) \<and>
     prevVal s = (if ms = [] then Fin 0 else sample_val ms (length ms - 1)) \<and>
     prevTs s = (if ms = [] then 0 else sample_ts ms (length ms - 1)) \<and>
     penuVal s = (if length ms < 2 then Fin 0 else sample_val ms (length ms - 2)) \<and>
     penuTs s = (if length ms < 2 then 0 else sample_ts ms (length ms - 2)) \<and>
     (\<forall>i<length ms. (es ! i \<noteq> None) = lap_at ms i) \<and>
     vals s = rates fl ms"
proof (induction ms rule: rev_induct)
  case Nil
  from NewStats_Inr [OF assms] show ?case
    by (simp add: rates_def Stats_zero_def)
next
  case (snoc x ms)
  obtain m t where x: "x = (m, t)" by (cases x)
  from snoc obtain es s where
    seq: "AddSeq fl s0 ms = Inr (es, s)" and ty: "metricType s = ''counter''" and
    len: "length es = length ms" and
    fv: "firstVal s = (ms = [])" and
    pv: "prevVal s = (if ms = [] then Fin 0 else sample_val ms (length ms - 1))" and
    pt: "prevTs s = (if ms = [] then 0 else sample_ts ms (length ms - 1))" and
    qv: "penuVal s = (if length ms < 2 then Fin 0 else sample_val ms (length ms - 2))" and
    qt: "penuTs s = (if length ms < 2 then 0 else sample_ts ms (length ms - 2))" and
    laps: "\<forall>i<length ms. (es ! i \<noteq> None) = lap_at ms i" and
    vs: "vals s = rates fl ms"
    by blast
  let ?ms' = "ms @ [(m, t)]"
  let ?n = "length ms"
  from Add_total [of s fl m t] ty obtain e s' where
    add: "Add fl s m t = Inr (e, s')" and ty': "metricType s' = ''counter''" by auto
  have seq': "AddSeq fl s0 ?ms' = Inr (es @ [e], s')"
    by (simp add: AddSeq_snoc seq add)
  have oldv: "\<And>i. i < ?n \<Longrightarrow> sample_val ?ms' i = sample_val ms i"
    by (rule sample_val_snoc_old)
  have oldt: "\<And>i. i < ?n \<Longrightarrow> sample_ts ?ms' i = sample_ts ms i"
    by (rule sample_ts_snoc_old)
  have newv: "sample_val ?ms' ?n = Number m" and newt: "sample_ts ?ms' ?n = t"
    by (rule sample_snoc_new)+
  have prev: "prevVal s' = Number m" "prevTs s' = t" "\<not> firstVal s'"
    "penuVal s' = prevVal s" "penuTs s' = prevTs s"
    using add ty by (auto simp: Add_def Let_def split: if_splits)
  have e_lap: "(e \<noteq> None) = lap_at ?ms' ?n"
  proof (cases "?n < 2")
    case True
    then have "penuVal s = Fin 0" by (simp add: qv)
    then have "e = None"
      using add ty by (auto simp: Add_def Let_def fgt_def split: if_splits)
    with True show ?thesis by (simp add: lap_at_def)
  next
    case False
    then have 2: "2 \<le> ?n" "ms \<noteq> []" by auto
    have p: "prevVal s = sample_val ?ms' (?n - 1)" "penuVal s = sample_val ?ms' (?n - 2)"
      using 2 by (simp_all add: pv qv oldv)
    have nf: "\<not> firstVal s" using 2 by (simp add: fv)
    have "(e \<noteq> None) =
        (fge (Number m) (prevVal s) \<and> fgt (penuVal s) (Fin 0) \<and> feq (prevVal s) (Fin 0) \<and>
         fgt (Number m) (penuVal s))"
      using add ty nf by (auto simp: Add_def Let_def split: if_splits)
    also have "\<dots> = (fgt (penuVal s) (Fin 0) \<and> feq (prevVal s) (Fin 0) \<and>
         fgt (Number m) (penuVal s))"
      using lap_implies_ge [of "penuVal s" "prevVal s" "Number m"] by blast
    also have "\<dots> = lap_at ?ms' ?n"
      using 2 by (simp add: lap_at_def p newv)
    finally show ?thesis .
  qed
  have laps': "\<forall>i<length ?ms'. ((es @ [e]) ! i \<noteq> None) = lap_at ?ms' i"
  proof (intro allI impI)
    fix i assume "i < length ?ms'"
    then consider "i < ?n" | "i = ?n" by force
    then show "((es @ [e]) ! i \<noteq> None) = lap_at ?ms' i"
    proof cases
      case 1
      then show ?thesis using laps len by (simp add: nth_append lap_at_snoc_old)
    next
      case 2
      then show ?thesis using e_lap len by (simp add: nth_append)
    qed
  qed
  have vals': "vals s' = rates fl ?ms'"
  proof (cases "ms = []")
    case True
    then have "firstVal s" by (simp add: fv)
    then have "vals s' = vals s" using add ty by (auto simp: Add_def)
    with True vs show ?thesis by (simp add: rates_def)
  next
    case False
    then have nf: "\<not> firstVal s" and n: "0 < ?n" by (simp_all add: fv)
    have p: "prevVal s = sample_val ?ms' (?n - 1)" "prevTs s = sample_ts ?ms' (?n - 1)"
      using False n by (simp_all add: pv pt oldv oldt)
    show ?thesis
    proof (cases "fge (Number m) (prevVal s)")
      case True
      then have "vals s' = vals s @
          [fdiv fl (fsub fl (Number m) (prevVal s)) (fl (real_of_int (sint (t - prevTs s))))]"
        using add ty nf by (auto simp: Add_def Let_def)
      then show ?thesis
        using True False p vs newv newt by (simp add: rates_snoc rate_at_def)
    next
      case False
      then have "vals s' = vals s" using add ty nf by (auto simp: Add_def Let_def)
      then show ?thesis using False \<open>ms \<noteq> []\<close> p vs newv by (simp add: rates_snoc)
    qed
  qed
  have pv': "prevVal s' = (if ?ms' = [] then Fin 0 else sample_val ?ms' (length ?ms' - 1))"
    and pt': "prevTs s' = (if ?ms' = [] then 0 else sample_ts ?ms' (length ?ms' - 1))"
    using prev newv newt by simp_all
  have qv': "penuVal s' = (if length ?ms' < 2 then Fin 0 else sample_val ?ms' (length ?ms' - 2))"
    and qt': "penuTs s' = (if length ?ms' < 2 then 0 else sample_ts ?ms' (length ?ms' - 2))"
    using prev pv pt oldv [of "?n - 1"] oldt [of "?n - 1"]
    by (cases "ms = []"; simp add: Suc_diff_Suc numeral_2_eq_2)+
  have "AddSeq fl s0 ?ms' = Inr (es @ [e], s') \<and> metricType s' = ''counter'' \<and>
     length (es @ [e]) = length ?ms' \<and>
     firstVal s' = (?ms' = []) \<and>
     prevVal s' = (if ?ms' = [] then Fin 0 else sample_val ?ms' (length ?ms' - 1)) \<and>
     prevTs s' = (if ?ms' = [] then 0 else sample_ts ?ms' (length ?ms' - 1)) \<and>
     penuVal s' = (if length ?ms' < 2 then Fin 0 else sample_val ?ms' (length ?ms' - 2)) \<and>
     penuTs s' = (if length ?ms' < 2 then 0 else sample_ts ?ms' (length ?ms' - 2)) \<and>
     (\<forall>i<length ?ms'. ((es @ [e]) ! i \<noteq> None) = lap_at ?ms' i) \<and>
     vals s' = rates fl ?ms'"
    using seq' ty' len prev(3) pv' pt' qv' qt' laps' vals' by simp
  then show ?case unfolding x by blast
qed

text \<open>
  Claim C8, as amended. \<open>Finalize\<close> returns nil exactly when the list of accumulated
  samples (\<open>vals\<close>: the gauge values or the counter rates) is empty. For a window, a
  \<open>Stats\<close> made by \<open>NewStats\<close> and fed by \<open>Add\<close> calls, that is: the list was empty
  after every call so far; for a gauge, there was no call; for a counter, no call after
  the first brought a value at least as large as the one before, which holds when there
  was no call and also when there was exactly one. Otherwise \<open>Finalize\<close> returns a new
  struct that holds the seven fields \<open>Cnt\<close>, \<open>Min\<close>, \<open>Pct5\<close>, \<open>Avg\<close>, \<open>Med\<close>, \<open>Pct95\<close>,
  \<open>Max\<close> of the summary and the zero value in every field of the working state.
\<close>

theorem Finalize_nil_iff_vals_empty:
  "(fst (Finalize fl s) = None \<longleftrightarrow> vals s = []) \<and>
   (vals s \<noteq> [] \<longrightarrow>
      Finalize fl s =
        (Some \<lparr>metricType = [], str = [], firstVal = False, prevTs = 0, penuTs = 0,
               prevVal = Fin 0, penuVal = Fin 0, vals = [], sum_s = Fin 0,
               Cnt = Cnt (Summarize fl s), Min_s = Min_s (Summarize fl s),
               Pct5 = Pct5 (Summarize fl s), Avg = Avg (Summarize fl s),
               Med = Med (Summarize fl s),
               Pct95 = Pct95 (Summarize fl s), Max_s = Max_s (Summarize fl s)\<rparr>,
         Summarize fl s)) \<and>
   (NewStats mt = Inr s0 \<longrightarrow> fst (Finalize fl s0) = None) \<and>
   (NewStats mt = Inr s0 \<and> AddSeq fl s0 ms = Inr (es, s) \<longrightarrow>
      (fst (Finalize fl s) = None \<longleftrightarrow>
         (\<forall>k \<le> length ms. \<exists>es1 s1. AddSeq fl s0 (take k ms) = Inr (es1, s1) \<and> vals s1 = []))) \<and>
   (NewStats ''gauge'' = Inr s0 \<and> AddSeq fl s0 ms = Inr (es, s) \<longrightarrow>
      (fst (Finalize fl s) = None \<longleftrightarrow> ms = [])) \<and>
   (NewStats ''counter'' = Inr s0 \<and> AddSeq fl s0 ms = Inr (es, s) \<longrightarrow>
      (fst (Finalize fl s) = None \<longleftrightarrow>
         (\<forall>i. 0 < i \<and> i < length ms \<longrightarrow>
            \<not> fge (sample_val ms i) (sample_val ms (i - 1)))))"
proof (intro conjI impI)
  show "fst (Finalize fl s) = None \<longleftrightarrow> vals s = []" by (rule Finalize_None)
next
  assume "vals s \<noteq> []"
  then show "Finalize fl s =
        (Some \<lparr>metricType = [], str = [], firstVal = False, prevTs = 0, penuTs = 0,
               prevVal = Fin 0, penuVal = Fin 0, vals = [], sum_s = Fin 0,
               Cnt = Cnt (Summarize fl s), Min_s = Min_s (Summarize fl s),
               Pct5 = Pct5 (Summarize fl s), Avg = Avg (Summarize fl s),
               Med = Med (Summarize fl s),
               Pct95 = Pct95 (Summarize fl s), Max_s = Max_s (Summarize fl s)\<rparr>,
         Summarize fl s)"
    by (rule Finalize_Some)
next
  assume "NewStats mt = Inr s0"
  then show "fst (Finalize fl s0) = None"
    by (auto simp: Finalize_None dest: NewStats_Inr)
next
  assume a: "NewStats mt = Inr s0 \<and> AddSeq fl s0 ms = Inr (es, s)"
  then have seq: "AddSeq fl s0 ms = Inr (es, s)" by simp
  show "fst (Finalize fl s) = None \<longleftrightarrow>
         (\<forall>k \<le> length ms. \<exists>es1 s1. AddSeq fl s0 (take k ms) = Inr (es1, s1) \<and> vals s1 = [])"
  proof
    assume "fst (Finalize fl s) = None"
    then have e: "vals s = []" by (simp add: Finalize_None)
    show "\<forall>k \<le> length ms. \<exists>es1 s1. AddSeq fl s0 (take k ms) = Inr (es1, s1) \<and> vals s1 = []"
    proof (intro allI impI)
      fix k
      from AddSeq_take [OF seq, of k] obtain es1 s1 ws where
        "AddSeq fl s0 (take k ms) = Inr (es1, s1)" "vals s = vals s1 @ ws" by blast
      with e show "\<exists>es1 s1. AddSeq fl s0 (take k ms) = Inr (es1, s1) \<and> vals s1 = []" by simp
    qed
  next
    assume "\<forall>k \<le> length ms. \<exists>es1 s1. AddSeq fl s0 (take k ms) = Inr (es1, s1) \<and> vals s1 = []"
    then have "\<exists>es1 s1. AddSeq fl s0 (take (length ms) ms) = Inr (es1, s1) \<and> vals s1 = []"
      by blast
    with seq have "vals s = []" by simp
    then show "fst (Finalize fl s) = None" by (simp add: Finalize_None)
  qed
next
  assume a: "NewStats ''gauge'' = Inr s0 \<and> AddSeq fl s0 ms = Inr (es, s)"
  then have g: "metricType s0 = ''gauge''" "vals s0 = []"
    by (auto dest: NewStats_Inr)
  from AddSeq_gauge [OF g(1), of fl ms] a g(2)
  have "vals s = map (\<lambda>(m, ts). Number m) ms" by auto
  then show "fst (Finalize fl s) = None \<longleftrightarrow> ms = []" by (simp add: Finalize_None)
next
  assume a: "NewStats ''counter'' = Inr s0 \<and> AddSeq fl s0 ms = Inr (es, s)"
  then have n: "NewStats ''counter'' = Inr s0" by simp
  from counter_seq [OF n, of fl ms] a have v: "vals s = rates fl ms" by auto
  have "rates fl ms = [] \<longleftrightarrow>
      (\<forall>i. 0 < i \<and> i < length ms \<longrightarrow> \<not> fge (sample_val ms i) (sample_val ms (i - 1)))"
    by (auto simp: rates_def filter_empty_conv Suc_le_eq)
  then show "fst (Finalize fl s) = None \<longleftrightarrow>
      (\<forall>i. 0 < i \<and> i < length ms \<longrightarrow> \<not> fge (sample_val ms i) (sample_val ms (i - 1)))"
    by (simp add: Finalize_None v)
qed

theorem Finalize_nil_iff_vals_empty_witness:
  "NewStats ''gauge'' = Inr (Stats_zero\<lparr>metricType := ''gauge'', vals := [], firstVal := True\<rparr>) \<and>
   AddSeq exact (Stats_zero\<lparr>metricType := ''gauge'', vals := [], firstVal := True\<rparr>)
     [(\<lparr>Name = ''x'', Type = ''gauge'', Number = Fin 10\<rparr>, 5)] =
     Inr ([None], Stats_zero\<lparr>metricType := ''gauge'', vals := [Fin 10], firstVal := True,
                               sum_s := Fin 10\<rparr>) \<and>
   fst (Finalize exact (Stats_zero\<lparr>metricType := ''gauge'', vals := [], firstVal := True\<rparr>)) =
     None \<and>
   fst (Finalize exact (Stats_zero\<lparr>metricType := ''gauge'', vals := [Fin 10], firstVal := True,
                                    sum_s := Fin 10\<rparr>)) =
     Some (Stats_zero\<lparr>Cnt := 1, Min_s := Fin 10, Pct5 := Fin 10, Avg := Fin 10, Med := Fin 10,
                       Pct95 := Fin 10, Max_s := Fin 10\<rparr>) \<and>
   fst (Finalize exact (Stats_zero\<lparr>metricType := ''gauge'', vals := [Fin 10], firstVal := True,
                                    sum_s := Fin 10\<rparr>)) \<noteq> None"
proof -
  let ?fresh = "Stats_zero\<lparr>metricType := ''gauge'', vals := [], firstVal := True\<rparr>"
  let ?s1 = "Stats_zero\<lparr>metricType := ''gauge'', vals := [Fin 10], firstVal := True,
                         sum_s := Fin 10\<rparr>"
  let ?ms = "[(\<lparr>Name = ''x'', Type = ''gauge'', Number = Fin 10\<rparr>, 5 :: int64)]"
  have n: "NewStats ''gauge'' = Inr ?fresh" by (simp add: NewStats_def MetricTypes_def)
  have a: "AddSeq exact ?fresh ?ms = Inr ([None], ?s1)"
    by (simp add: Add_def Stats_zero_def exact_def)
  have v: "vals ?s1 \<noteq> []" by simp
  have sm: "Summarize exact ?s1 = ?s1\<lparr>Cnt := 1, Min_s := Fin 10, Pct5 := Fin 10, Avg := Fin 10,
      Med := Fin 10, Pct95 := Fin 10, Max_s := Fin 10\<rparr>"
    by (simp add: Summarize_def Stats_zero_def)
  note inst = Finalize_nil_iff_vals_empty [of exact ?s1 "''gauge''" ?fresh ?ms "[None]"]
  from inst n have z: "fst (Finalize exact ?fresh) = None" by blast
  from inst n a have nz: "fst (Finalize exact ?s1) = None \<longleftrightarrow> ?ms = []" by blast
  then have nz': "fst (Finalize exact ?s1) \<noteq> None" by simp
  from inst v have "Finalize exact ?s1 =
        (Some \<lparr>metricType = [], str = [], firstVal = False, prevTs = 0, penuTs = 0,
               prevVal = Fin 0, penuVal = Fin 0, vals = [], sum_s = Fin 0,
               Cnt = Cnt (Summarize exact ?s1), Min_s = Min_s (Summarize exact ?s1),
               Pct5 = Pct5 (Summarize exact ?s1), Avg = Avg (Summarize exact ?s1),
               Med = Med (Summarize exact ?s1),
               Pct95 = Pct95 (Summarize exact ?s1), Max_s = Max_s (Summarize exact ?s1)\<rparr>,
         Summarize exact ?s1)"
    by blast
  then have "fst (Finalize exact ?s1) =
     Some (Stats_zero\<lparr>Cnt := 1, Min_s := Fin 10, Pct5 := Fin 10, Avg := Fin 10, Med := Fin 10,
                       Pct95 := Fin 10, Max_s := Fin 10\<rparr>)"
    unfolding sm by (simp add: Stats_zero_def)
  with n a z nz' show ?thesis by blast
qed

theorem Finalize_nil_iff_vals_empty_counterexample:
  "NewStats ''counter'' =
     Inr (Stats_zero\<lparr>metricType := ''counter'', vals := [], firstVal := True\<rparr>) \<and>
   AddSeq exact (Stats_zero\<lparr>metricType := ''counter'', vals := [], firstVal := True\<rparr>)
     [(\<lparr>Name = ''q'', Type = ''counter'', Number = Fin 12\<rparr>, 30)] =
     Inr ([None],
          Stats_zero\<lparr>metricType := ''counter'', vals := [], firstVal := False, prevTs := 30,
                      prevVal := Fin 12\<rparr>) \<and>
   fst (Finalize exact
     (Stats_zero\<lparr>metricType := ''counter'', vals := [], firstVal := False, prevTs := 30,
                 prevVal := Fin 12\<rparr>)) = None"
  by (simp add: NewStats_def MetricTypes_def Add_def Stats_zero_def Finalize_def)

lemma sint_diff_no_wrap:
  fixes a b :: int64
  assumes "sint b < sint a" "sint a - sint b < 2 ^ 63"
  shows "sint (a - b) = sint a - sint b"
proof -
  have "sint (a - b) = signed_take_bit (LENGTH(64) - 1) (sint a - sint b)"
    by (rule sint_word_diff)
  also have "\<dots> = sint a - sint b"
    by (rule signed_take_bit_int_eq_self) (use assms in simp_all)
  finally show ?thesis .
qed

lemma Summarize_Cnt:
  "metricType s = ''gauge'' \<or> metricType s = ''counter'' \<Longrightarrow>
   Cnt (Summarize fl s) = int (length (vals s))"
  by (auto simp: Summarize_def Let_def not_less le_Suc_eq)

lemma sample_take:
  "i < k \<Longrightarrow> sample_val (take k ms) i = sample_val ms i"
  "i < k \<Longrightarrow> sample_ts (take k ms) i = sample_ts ms i"
  by (simp_all add: sample_val_def sample_ts_def)

lemma rates_steady:
  assumes ts: "\<forall>i. 0 < i \<and> i < length ms \<longrightarrow>
        sint (sample_ts ms (i - 1)) < sint (sample_ts ms i) \<and>
        sint (sample_ts ms i) - sint (sample_ts ms (i - 1)) < 2 ^ 63"
    and mono: "\<forall>i. 0 < i \<and> i < length ms \<longrightarrow> fle (sample_val ms (i - 1)) (sample_val ms i)"
    and k: "k \<le> length ms"
  shows "rates fl (take k ms) =
     map (\<lambda>i. fdiv fl (fsub fl (sample_val ms i) (sample_val ms (i - 1)))
                 (fl (real_of_int (sint (sample_ts ms i) - sint (sample_ts ms (i - 1))))))
       [1..<k]"
proof -
  have len: "length (take k ms) = k" using k by simp
  have f: "filter (\<lambda>i. fge (sample_val (take k ms) i) (sample_val (take k ms) (i - 1))) [1..<k]
      = [1..<k]"
  proof (rule filter_True, clarify)
    fix i assume "i \<in> set [1..<k]"
    then have i: "0 < i" "i < k" "i - 1 < k" "i < length ms" using k by auto
    with mono show "fge (sample_val (take k ms) i) (sample_val (take k ms) (i - 1))"
      by (simp add: sample_take fge_def)
  qed
  have m: "map (rate_at fl (take k ms)) [1..<k] =
     map (\<lambda>i. fdiv fl (fsub fl (sample_val ms i) (sample_val ms (i - 1)))
                 (fl (real_of_int (sint (sample_ts ms i) - sint (sample_ts ms (i - 1))))))
       [1..<k]"
  proof (rule map_cong [OF refl])
    fix i assume "i \<in> set [1..<k]"
    then have i: "0 < i" "i < k" "i - 1 < k" "i < length ms" using k by auto
    with ts have "sint (sample_ts ms (i - 1)) < sint (sample_ts ms i)"
      "sint (sample_ts ms i) - sint (sample_ts ms (i - 1)) < 2 ^ 63" by auto
    then have "sint (sample_ts ms i - sample_ts ms (i - 1)) =
        sint (sample_ts ms i) - sint (sample_ts ms (i - 1))"
      by (rule sint_diff_no_wrap)
    then show "rate_at fl (take k ms) i =
        fdiv fl (fsub fl (sample_val ms i) (sample_val ms (i - 1)))
          (fl (real_of_int (sint (sample_ts ms i) - sint (sample_ts ms (i - 1)))))"
      using i by (simp add: rate_at_def sample_take)
  qed
  show ?thesis unfolding rates_def len f m ..
qed

lemma rate_nonneg:
  assumes r1: "\<forall>x. 0 \<le> x \<longrightarrow> fge (fl x) (Fin 0)"
    and d: "fl d = Fin y" "0 < y"
    and v: "is_finite a" "is_finite b" "fle a b"
  shows "fge (fdiv fl (fsub fl b a) (fl d)) (Fin 0)"
proof -
  from v obtain x z where ab: "a = Fin x" "b = Fin z" and le: "x \<le> z"
    by (cases a; cases b; auto simp: fle_def feq_def)
  have inc: "fsub fl b a = fl (z - x)" by (simp add: ab fsub_def)
  from r1 le have g: "fge (fl (z - x)) (Fin 0)" by simp
  show ?thesis
  proof (cases "fl (z - x)")
    case NaN
    with g show ?thesis by (simp add: fge_def fle_def feq_def)
  next
    case NInf
    with g show ?thesis by (simp add: fge_def fle_def feq_def)
  next
    case (Fin w)
    with g have "0 \<le> w" by (auto simp: fge_def fle_def feq_def)
    then have "0 \<le> w / y" using d(2) by simp
    with r1 have "fge (fl (w / y)) (Fin 0)" by blast
    then show ?thesis using d by (simp add: inc Fin)
  next
    case PInf
    then show ?thesis using d by (simp add: inc fge_def fle_def)
  qed
qed

text \<open>
  Claim C2, as amended. For a counter \<open>Stats\<close> and a non-empty sequence of samples
  whose values are finite and never decrease and whose timestamps increase strictly by
  less than \<open>2 ^ 63\<close> from each sample to the next (so that the \<open>int64\<close> difference does
  not wrap): after the first \<open>k\<close> calls the list of rates holds exactly \<open>k - 1\<close> rates,
  one for each call after the first, in order, each the \<open>float64\<close> quotient of the
  \<open>float64\<close> increase by the \<open>float64\<close> of the duration, every operation rounded; every
  rate is non-negative (it may be the positive infinity, when the increase overflows);
  and after \<open>Summarize\<close> the count is the length of the sequence minus one. Of the
  rounding the theorem asks that it sends no non-negative number below zero and a whole
  number from 1 up to \<open>2 ^ 63\<close> to a finite positive number.
\<close>

theorem counter_rates:
  assumes ne: "ms \<noteq> []"
    and r1: "\<forall>x. 0 \<le> x \<longrightarrow> fge (fl x) (Fin 0)"
    and r2: "\<forall>x. 1 \<le> x \<and> x < 2 ^ 63 \<longrightarrow> (\<exists>y. 0 < y \<and> fl x = Fin y)"
    and ts: "\<forall>i. 0 < i \<and> i < length ms \<longrightarrow>
        sint (sample_ts ms (i - 1)) < sint (sample_ts ms i) \<and>
        sint (sample_ts ms i) - sint (sample_ts ms (i - 1)) < 2 ^ 63"
    and fin: "\<forall>i < length ms. is_finite (sample_val ms i)"
    and mono: "\<forall>i. 0 < i \<and> i < length ms \<longrightarrow> fle (sample_val ms (i - 1)) (sample_val ms i)"
  shows "\<exists>s0 es s. NewStats ''counter'' = Inr s0 \<and> AddSeq fl s0 ms = Inr (es, s) \<and>
     (\<forall>k \<le> length ms. \<exists>es' s'. AddSeq fl s0 (take k ms) = Inr (es', s') \<and>
        vals s' =
          map (\<lambda>i. fdiv fl (fsub fl (sample_val ms i) (sample_val ms (i - 1)))
                      (fl (real_of_int (sint (sample_ts ms i) - sint (sample_ts ms (i - 1))))))
            [1..<k]) \<and>
     (\<forall>r \<in> set (vals s). fge r (Fin 0)) \<and>
     Cnt (Summarize fl s) = int (length ms) - 1"
proof -
  let ?s0 = "Stats_zero\<lparr>metricType := ''counter'', vals := [], firstVal := True\<rparr>"
  let ?rate = "\<lambda>i. fdiv fl (fsub fl (sample_val ms i) (sample_val ms (i - 1)))
                      (fl (real_of_int (sint (sample_ts ms i) - sint (sample_ts ms (i - 1)))))"
  have n0: "NewStats ''counter'' = Inr ?s0" by (simp add: NewStats_def MetricTypes_def)
  have pre: "\<exists>es' s'. AddSeq fl ?s0 (take k ms) = Inr (es', s') \<and> metricType s' = ''counter'' \<and>
      vals s' = map ?rate [1..<k]" if "k \<le> length ms" for k
  proof -
    from counter_seq [OF n0, of fl "take k ms"] obtain es' s' where
      "AddSeq fl ?s0 (take k ms) = Inr (es', s')" "metricType s' = ''counter''"
      "vals s' = rates fl (take k ms)" by blast
    with rates_steady [OF ts mono that, of fl] show ?thesis by auto
  qed
  from pre [of "length ms"] obtain es s where
    seq: "AddSeq fl ?s0 ms = Inr (es, s)" and ty: "metricType s = ''counter''" and
    vs: "vals s = map ?rate [1..<length ms]" by auto
  have nonneg: "\<forall>r \<in> set (vals s). fge r (Fin 0)"
  proof
    fix r assume "r \<in> set (vals s)"
    then have "\<exists>i. 0 < i \<and> i < length ms \<and> r = ?rate i"
      unfolding vs by (auto simp: Suc_le_eq)
    then obtain i where i: "0 < i" "i < length ms" and r: "r = ?rate i"
      by blast
    let ?d = "real_of_int (sint (sample_ts ms i) - sint (sample_ts ms (i - 1)))"
    from ts i have "0 < sint (sample_ts ms i) - sint (sample_ts ms (i - 1))"
      "sint (sample_ts ms i) - sint (sample_ts ms (i - 1)) < 2 ^ 63" by auto
    then have "1 \<le> ?d \<and> ?d < 2 ^ 63"
      by (metis int_one_le_iff_zero_less of_int_1_le_iff of_int_less_numeral_power_cancel_iff)
    with r2 obtain y where y: "0 < y" "fl ?d = Fin y" by blast
    from fin i have f: "is_finite (sample_val ms (i - 1))" "is_finite (sample_val ms i)"
      by simp_all
    from mono i have m: "fle (sample_val ms (i - 1)) (sample_val ms i)" by simp
    show "fge r (Fin 0)" unfolding r by (rule rate_nonneg [OF r1 y(2) y(1) f m])
  qed
  have cnt: "Cnt (Summarize fl s) = int (length ms) - 1"
    using ne by (simp add: Summarize_Cnt ty vs of_nat_diff Suc_leI)
  from n0 seq pre nonneg cnt show ?thesis by blast
qed

theorem counter_rates_witness:
  "\<exists>s0 es s. NewStats ''counter'' = Inr s0 \<and>
     AddSeq exact s0 [(\<lparr>Name = ''x'', Type = ''counter'', Number = Fin 10\<rparr>, 100),
                      (\<lparr>Name = ''x'', Type = ''counter'', Number = Fin 30\<rparr>, 110)] =
       Inr (es, s) \<and>
     vals s = [Fin 2] \<and> fge (Fin 2) (Fin 0) \<and> Cnt (Summarize exact s) = 1"
proof -
  let ?ms = "[(\<lparr>Name = ''x'', Type = ''counter'', Number = Fin 10\<rparr>, 100 :: int64),
              (\<lparr>Name = ''x'', Type = ''counter'', Number = Fin 30\<rparr>, 110)]"
  let ?rate = "\<lambda>i. fdiv exact (fsub exact (sample_val ?ms i) (sample_val ?ms (i - 1)))
      (exact (real_of_int (sint (sample_ts ?ms i) - sint (sample_ts ?ms (i - 1)))))"
  have ne: "?ms \<noteq> []" by simp
  have r1: "\<forall>x. 0 \<le> x \<longrightarrow> fge (exact x) (Fin 0)"
    by (auto simp: exact_def fge_def fle_def feq_def)
  have r2: "\<forall>x. 1 \<le> x \<and> x < 2 ^ 63 \<longrightarrow> (\<exists>y. 0 < y \<and> exact x = Fin y)"
    by (auto simp: exact_def)
  have i1: "i = 1" if "0 < i \<and> i < length ?ms" for i using that by simp
  have ts: "\<forall>i. 0 < i \<and> i < length ?ms \<longrightarrow>
      sint (sample_ts ?ms (i - 1)) < sint (sample_ts ?ms i) \<and>
      sint (sample_ts ?ms i) - sint (sample_ts ?ms (i - 1)) < 2 ^ 63"
  proof (intro allI impI)
    fix i assume "0 < i \<and> i < length ?ms"
    then have "i = 1" by (rule i1)
    then show "sint (sample_ts ?ms (i - 1)) < sint (sample_ts ?ms i) \<and>
      sint (sample_ts ?ms i) - sint (sample_ts ?ms (i - 1)) < 2 ^ 63"
      by (simp add: sample_ts_def)
  qed
  have fin: "\<forall>i < length ?ms. is_finite (sample_val ?ms i)"
    by (simp add: sample_val_def less_Suc_eq numeral_2_eq_2)
  have mono: "\<forall>i. 0 < i \<and> i < length ?ms \<longrightarrow> fle (sample_val ?ms (i - 1)) (sample_val ?ms i)"
  proof (intro allI impI)
    fix i assume "0 < i \<and> i < length ?ms"
    then have "i = 1" by (rule i1)
    then show "fle (sample_val ?ms (i - 1)) (sample_val ?ms i)"
      by (simp add: sample_val_def fle_def)
  qed
  from counter_rates [OF ne r1 r2 ts fin mono] obtain s0 es s where
    1: "NewStats ''counter'' = Inr s0" "AddSeq exact s0 ?ms = Inr (es, s)" and
    2: "\<forall>k \<le> length ?ms. \<exists>es' s'. AddSeq exact s0 (take k ?ms) = Inr (es', s') \<and>
        vals s' = map ?rate [1..<k]" and
    3: "\<forall>r \<in> set (vals s). fge r (Fin 0)" and
    4: "Cnt (Summarize exact s) = int (length ?ms) - 1"
    by blast
  from 2 have "\<exists>es' s'. AddSeq exact s0 (take (length ?ms) ?ms) = Inr (es', s') \<and>
        vals s' = map ?rate [1..<length ?ms]"
    by blast
  with 1 have "vals s = map ?rate [1..<length ?ms]" by simp
  then have v: "vals s = [Fin 2]"
    by (simp add: sample_val_def sample_ts_def fsub_def exact_def)
  with 3 have "fge (Fin 2) (Fin 0)" by simp
  moreover from 4 have "Cnt (Summarize exact s) = 1" by simp
  ultimately show ?thesis using 1 v by blast
qed

theorem counter_rates_counterexample:
  "NewStats ''counter'' =
     Inr (Stats_zero\<lparr>metricType := ''counter'', vals := [], firstVal := True\<rparr>) \<and>
   sint (1 :: int64) < sint (2 :: int64) \<and> fle PInf PInf \<and>
   AddSeq exact (Stats_zero\<lparr>metricType := ''counter'', vals := [], firstVal := True\<rparr>)
     [(\<lparr>Name = ''x'', Type = ''counter'', Number = PInf\<rparr>, 1),
      (\<lparr>Name = ''x'', Type = ''counter'', Number = PInf\<rparr>, 2)] =
     Inr ([None, None],
          Stats_zero\<lparr>metricType := ''counter'', prevTs := 2, penuTs := 1, prevVal := PInf,
                      penuVal := PInf, vals := [NaN], sum_s := NaN\<rparr>) \<and>
   \<not> fge NaN (Fin 0)"
  by (simp add: NewStats_def MetricTypes_def Add_def Stats_zero_def Let_def
      fge_def fle_def feq_def fgt_def fsub_def)

text \<open>
  The duration is an \<open>int64\<close> difference, which wraps: from the timestamp \<open>- 2 ^ 63\<close> to
  the timestamp 0 it is \<open>- 2 ^ 63\<close>, and the rate of an increase is negative.
\<close>

lemma Add_duration_wraps:
  "sint (- 9223372036854775808 :: int64) < sint (0 :: int64) \<and>
   fle (Fin 0) (Fin 1) \<and>
   AddSeq exact (Stats_zero\<lparr>metricType := ''counter'', vals := [], firstVal := True\<rparr>)
     [(\<lparr>Name = ''x'', Type = ''counter'', Number = Fin 0\<rparr>, - 9223372036854775808),
      (\<lparr>Name = ''x'', Type = ''counter'', Number = Fin 1\<rparr>, 0)] =
     Inr ([None, None],
          Stats_zero\<lparr>metricType := ''counter'', prevTs := 0,
                      penuTs := - 9223372036854775808, prevVal := Fin 1, penuVal := Fin 0,
                      vals := [Fin (- (1 / 9223372036854775808))],
                      sum_s := Fin (- (1 / 9223372036854775808))\<rparr>) \<and>
   \<not> fge (Fin (- (1 / 9223372036854775808))) (Fin 0)"
  by (simp add: Add_def Stats_zero_def Let_def fge_def fle_def feq_def fgt_def fsub_def
      exact_def)

lemma Add_counter_lap:
  assumes "metricType s = ''counter''"
  shows "\<exists>e s'. Add fl s m ts = Inr (e, s') \<and>
     (e \<noteq> None \<longleftrightarrow>
        \<not> firstVal s \<and> fgt (penuVal s) (Fin 0) \<and> feq (prevVal s) (Fin 0) \<and>
        fgt (Number m) (penuVal s)) \<and>
     (e \<noteq> None \<longrightarrow>
        vals s' = vals s @
          [fdiv fl (fsub fl (Number m) (prevVal s)) (fl (real_of_int (sint (ts - prevTs s))))] \<and>
        prevVal s' = Number m \<and> prevTs s' = ts \<and>
        penuVal s' = prevVal s \<and> penuTs s' = prevTs s)"
  using assms lap_implies_ge [of "penuVal s" "prevVal s" "Number m"]
  by (auto simp: Add_def Let_def)

lemma flt_asym: "flt a b \<Longrightarrow> \<not> flt b a"
  by (auto simp: flt_rank)

lemma lap_at_reset:
  assumes "lap_at ms i"
  shows "reset_then_exceeds ms i"
proof -
  from assms have i: "2 \<le> i" and p: "flt (Fin 0) (sample_val ms (i - 2))"
    and z: "sample_val ms (i - 1) = Fin 0"
    and e: "fgt (sample_val ms i) (sample_val ms (i - 2))"
    by (auto simp: lap_at_def fgt_def feq_def)
  then show ?thesis by (simp add: reset_then_exceeds_def)
qed

lemma no_lap_one_decrease:
  assumes "one_decrease_below_peak ms j" "i < length ms"
  shows "\<not> lap_at ms i"
proof
  assume lap: "lap_at ms i"
  from lap_at_reset [OF this]
  have i2: "2 \<le> i" and dec: "flt (sample_val ms (i - 1)) (sample_val ms (i - 2))"
    and exc: "flt (sample_val ms (i - 2)) (sample_val ms i)"
    by (auto simp: reset_then_exceeds_def fgt_def)
  have "i - 1 = j"
  proof (rule ccontr)
    assume "i - 1 \<noteq> j"
    moreover have "i - 1 \<in> set [1..<length ms]" using i2 assms(2) by auto
    ultimately have "fle (sample_val ms (i - 1 - 1)) (sample_val ms (i - 1))"
      using assms(1) unfolding one_decrease_below_peak_def list_all_iff by blast
    moreover have "i - 1 - 1 = i - 2" by simp
    ultimately show False using dec fle_not_flt by simp
  qed
  then have j: "i \<in> set [Suc j..<length ms]" "j - 1 = i - 2" using i2 assms(2) by auto
  with assms(1) have "flt (sample_val ms i) (sample_val ms (i - 2))"
    unfolding one_decrease_below_peak_def list_all_iff by metis
  with exc show False using flt_asym by blast
qed

text \<open>
  Claim C3, as amended. For a counter \<open>Stats\<close>, \<open>Add\<close> returns a lap error exactly when
  it is not the first sample, the previous value is exactly 0, the value before it is
  positive, and the new value exceeds that value: over a sequence of samples, at sample
  \<open>i\<close> exactly when sample \<open>i - 2\<close> was positive, sample \<open>i - 1\<close> was 0 and sample \<open>i\<close>
  exceeds sample \<open>i - 2\<close>. Every lap is therefore a reset followed by a value above the
  value before the reset, but a reset to a value other than 0 raises nothing. A sequence
  with exactly one decrease, followed only by values below the value before it, yields
  no lap error. A lap error is not fatal: the rate is appended and the previous and
  penultimate value and timestamp advance.
\<close>

theorem lap_error:
  "(metricType s = ''counter'' \<longrightarrow>
      (\<exists>e s'. Add fl s m ts = Inr (e, s') \<and>
         (e \<noteq> None \<longleftrightarrow>
            \<not> firstVal s \<and> fgt (penuVal s) (Fin 0) \<and> feq (prevVal s) (Fin 0) \<and>
            fgt (Number m) (penuVal s)) \<and>
         (e \<noteq> None \<longrightarrow>
            vals s' = vals s @
              [fdiv fl (fsub fl (Number m) (prevVal s))
                 (fl (real_of_int (sint (ts - prevTs s))))] \<and>
            prevVal s' = Number m \<and> prevTs s' = ts \<and>
            penuVal s' = prevVal s \<and> penuTs s' = prevTs s))) \<and>
   (NewStats ''counter'' = Inr s0 \<longrightarrow>
      (\<exists>es s1. AddSeq fl s0 ms = Inr (es, s1) \<and> length es = length ms \<and>
         (\<forall>i < length ms. (es ! i \<noteq> None) = lap_at ms i) \<and>
         (\<forall>i < length ms. lap_at ms i \<longrightarrow> reset_then_exceeds ms i) \<and>
         (one_decrease_below_peak ms j \<longrightarrow> (\<forall>i < length ms. es ! i = None))))"
proof (intro conjI impI)
  assume "metricType s = ''counter''"
  then show "\<exists>e s'. Add fl s m ts = Inr (e, s') \<and>
         (e \<noteq> None \<longleftrightarrow>
            \<not> firstVal s \<and> fgt (penuVal s) (Fin 0) \<and> feq (prevVal s) (Fin 0) \<and>
            fgt (Number m) (penuVal s)) \<and>
         (e \<noteq> None \<longrightarrow>
            vals s' = vals s @
              [fdiv fl (fsub fl (Number m) (prevVal s))
                 (fl (real_of_int (sint (ts - prevTs s))))] \<and>
            prevVal s' = Number m \<and> prevTs s' = ts \<and>
            penuVal s' = prevVal s \<and> penuTs s' = prevTs s)"
    by (rule Add_counter_lap)
next
  assume "NewStats ''counter'' = Inr s0"
  from counter_seq [OF this, of fl ms] obtain es s1 where
    seq: "AddSeq fl s0 ms = Inr (es, s1)" and len: "length es = length ms" and
    laps: "\<forall>i < length ms. (es ! i \<noteq> None) = lap_at ms i"
    by blast
  have imp: "\<forall>i < length ms. lap_at ms i \<longrightarrow> reset_then_exceeds ms i"
    by (simp add: lap_at_reset)
  have one: "one_decrease_below_peak ms j \<longrightarrow> (\<forall>i < length ms. es ! i = None)"
    using laps no_lap_one_decrease [of ms j] by blast
  from seq len laps imp one
  show "\<exists>es s1. AddSeq fl s0 ms = Inr (es, s1) \<and> length es = length ms \<and>
         (\<forall>i < length ms. (es ! i \<noteq> None) = lap_at ms i) \<and>
         (\<forall>i < length ms. lap_at ms i \<longrightarrow> reset_then_exceeds ms i) \<and>
         (one_decrease_below_peak ms j \<longrightarrow> (\<forall>i < length ms. es ! i = None))"
    by blast
qed

theorem lap_error_witness:
  "(\<exists>es s1.
      AddSeq exact (Stats_zero\<lparr>metricType := ''counter'', vals := [], firstVal := True\<rparr>)
        [(\<lparr>Name = ''x'', Type = ''counter'', Number = Fin 100\<rparr>, 1),
         (\<lparr>Name = ''x'', Type = ''counter'', Number = Fin 0\<rparr>, 2),
         (\<lparr>Name = ''x'', Type = ''counter'', Number = Fin 200\<rparr>, 3)] = Inr (es, s1) \<and>
      es ! 2 \<noteq> None) \<and>
   reset_then_exceeds
     [(\<lparr>Name = ''x'', Type = ''counter'', Number = Fin 100\<rparr>, 1),
      (\<lparr>Name = ''x'', Type = ''counter'', Number = Fin 0\<rparr>, 2),
      (\<lparr>Name = ''x'', Type = ''counter'', Number = Fin 200\<rparr>, 3)] 2 \<and>
   (\<exists>es s1.
      AddSeq exact (Stats_zero\<lparr>metricType := ''counter'', vals := [], firstVal := True\<rparr>)
        [(\<lparr>Name = ''x'', Type = ''counter'', Number = Fin 100\<rparr>, 1),
         (\<lparr>Name = ''x'', Type = ''counter'', Number = Fin 50\<rparr>, 2),
         (\<lparr>Name = ''x'', Type = ''counter'', Number = Fin 70\<rparr>, 3)] = Inr (es, s1) \<and>
      es ! 0 = None \<and> es ! 1 = None \<and> es ! 2 = None) \<and>
   (\<exists>e s'.
      Add exact (Stats_zero\<lparr>metricType := ''counter'', vals := [], prevTs := 2, penuTs := 1,
                             prevVal := Fin 0, penuVal := Fin 100\<rparr>)
        \<lparr>Name = ''x'', Type = ''counter'', Number = Fin 200\<rparr> 3 = Inr (e, s') \<and>
      e \<noteq> None \<and> vals s' = [Fin 200] \<and> prevVal s' = Fin 200 \<and> penuVal s' = Fin 0)"
proof -
  let ?fresh = "Stats_zero\<lparr>metricType := ''counter'', vals := [], firstVal := True\<rparr>"
  let ?lap = "[(\<lparr>Name = ''x'', Type = ''counter'', Number = Fin 100\<rparr>, 1 :: int64),
         (\<lparr>Name = ''x'', Type = ''counter'', Number = Fin 0\<rparr>, 2),
         (\<lparr>Name = ''x'', Type = ''counter'', Number = Fin 200\<rparr>, 3)]"
  let ?one = "[(\<lparr>Name = ''x'', Type = ''counter'', Number = Fin 100\<rparr>, 1 :: int64),
         (\<lparr>Name = ''x'', Type = ''counter'', Number = Fin 50\<rparr>, 2),
         (\<lparr>Name = ''x'', Type = ''counter'', Number = Fin 70\<rparr>, 3)]"
  let ?st = "Stats_zero\<lparr>metricType := ''counter'', vals := [], prevTs := 2, penuTs := 1,
                       prevVal := Fin 0, penuVal := Fin 100\<rparr>"
  let ?m = "\<lparr>Name = ''x'', Type = ''counter'', Number = Fin 200\<rparr>"
  have n0: "NewStats ''counter'' = Inr ?fresh" by (simp add: NewStats_def MetricTypes_def)
  have ty: "metricType ?st = ''counter''" by simp
  have lap2: "lap_at ?lap 2" by (simp add: lap_at_def sample_val_def fgt_def feq_def)
  have one: "one_decrease_below_peak ?one 1"
    by (simp add: one_decrease_below_peak_def sample_val_def upt_rec fle_def)
  note A = lap_error [where s = ?st and fl = exact and m = ?m and ts = 3 and ?s0.0 = ?fresh
      and ms = ?lap and j = 0]
  note B = lap_error [where s = ?st and fl = exact and m = ?m and ts = 3 and ?s0.0 = ?fresh
      and ms = ?one and j = 1]
  from A n0 obtain es s1 where
    a: "AddSeq exact ?fresh ?lap = Inr (es, s1)"
      "\<forall>i < length ?lap. (es ! i \<noteq> None) = lap_at ?lap i"
      "\<forall>i < length ?lap. lap_at ?lap i \<longrightarrow> reset_then_exceeds ?lap i"
    by blast
  from a(2) lap2 have a2: "es ! 2 \<noteq> None" by simp
  from a(3) lap2 have a3: "reset_then_exceeds ?lap 2" by simp
  from B n0 one obtain es' s1' where
    b: "AddSeq exact ?fresh ?one = Inr (es', s1')" "\<forall>i < length ?one. es' ! i = None"
    by blast
  from b(2) have b2: "es' ! 0 = None \<and> es' ! 1 = None \<and> es' ! 2 = None" by simp
  from A ty obtain e s' where
    c: "Add exact ?st ?m 3 = Inr (e, s')"
      "e \<noteq> None \<longleftrightarrow> \<not> firstVal ?st \<and> fgt (penuVal ?st) (Fin 0) \<and> feq (prevVal ?st) (Fin 0) \<and>
         fgt (Number ?m) (penuVal ?st)"
      "e \<noteq> None \<longrightarrow>
        vals s' = vals ?st @
          [fdiv exact (fsub exact (Number ?m) (prevVal ?st))
             (exact (real_of_int (sint (3 - prevTs ?st))))] \<and>
        prevVal s' = Number ?m \<and> prevTs s' = 3 \<and>
        penuVal s' = prevVal ?st \<and> penuTs s' = prevTs ?st"
    by blast
  from c(2) have e: "e \<noteq> None" by (simp add: Stats_zero_def fgt_def feq_def)
  with c(3) have "vals s' = [Fin 200] \<and> prevVal s' = Fin 200 \<and> penuVal s' = Fin 0"
    by (simp add: Stats_zero_def fsub_def exact_def)
  with a(1) a2 a3 b(1) b2 c(1) e show ?thesis by blast
qed

theorem lap_error_counterexample:
  "reset_then_exceeds
     [(\<lparr>Name = ''x'', Type = ''counter'', Number = Fin 100\<rparr>, 1),
      (\<lparr>Name = ''x'', Type = ''counter'', Number = Fin 50\<rparr>, 2),
      (\<lparr>Name = ''x'', Type = ''counter'', Number = Fin 200\<rparr>, 3)] 2 \<and>
   NewStats ''counter'' =
     Inr (Stats_zero\<lparr>metricType := ''counter'', vals := [], firstVal := True\<rparr>) \<and>
   AddSeq exact (Stats_zero\<lparr>metricType := ''counter'', vals := [], firstVal := True\<rparr>)
     [(\<lparr>Name = ''x'', Type = ''counter'', Number = Fin 100\<rparr>, 1),
      (\<lparr>Name = ''x'', Type = ''counter'', Number = Fin 50\<rparr>, 2),
      (\<lparr>Name = ''x'', Type = ''counter'', Number = Fin 200\<rparr>, 3)] =
     Inr ([None, None, None],
          Stats_zero\<lparr>metricType := ''counter'', prevTs := 3, penuTs := 2, prevVal := Fin 200,
                      penuVal := Fin 50, vals := [Fin 150], sum_s := Fin 150\<rparr>)"
  by (simp add: reset_then_exceeds_def sample_val_def NewStats_def MetricTypes_def Add_def
      Stats_zero_def Let_def fge_def fle_def feq_def fgt_def fsub_def exact_def)

lemma NewStats_counter:
  "NewStats ''counter'' = Inr (Stats_zero\<lparr>metricType := ''counter'', vals := [], firstVal := True\<rparr>)"
  by (simp add: NewStats_def MetricTypes_def)

lemma rates_decreasing:
  assumes "\<forall>i. 0 < i \<and> i < length ms \<longrightarrow> flt (sample_val ms i) (sample_val ms (i - 1))"
  shows "rates fl ms = []"
proof -
  have "filter (\<lambda>i. fge (sample_val ms i) (sample_val ms (i - 1))) [1..<length ms] = []"
    unfolding filter_empty_conv
  proof
    fix i assume "i \<in> set [1..<length ms]"
    then have "0 < i \<and> i < length ms" by auto
    with assms have "flt (sample_val ms i) (sample_val ms (i - 1))" by blast
    then show "\<not> fge (sample_val ms i) (sample_val ms (i - 1))" by (rule flt_not_fge)
  qed
  then show ?thesis by (simp add: rates_def)
qed

lemma run_one_window:
  assumes "\<not> IsZero t1" "addMetrics fl Map.empty (StartTs c) (CMetrics c) = Inr w"
  shows "run fl NewAggregator [Tick t1, Collect c, Tick t2] =
     (None, \<lparr>startTs = t2, cur = Map.empty,
             agg_spool = [\<lparr>Ts = t1, Metrics = (\<lambda>name. map_option (Summarize fl) (w name))\<rparr>]\<rparr>)"
  using assms by (simp add: NewAggregator_def report_def IsZero_def)

lemma addMetrics_single_counter:
  assumes "Type m = ''counter''"
  shows "addMetrics fl Map.empty t [m] =
     Inr [Name m \<mapsto> Stats_zero\<lparr>metricType := ''counter'', vals := [], firstVal := False,
                                prevTs := t, prevVal := Number m\<rparr>]"
  using assms by (simp add: NewStats_counter Add_def Stats_zero_def)

text \<open>
  Claim C9, as amended. For a counter \<open>Stats\<close>, \<open>Finalize\<close> returns nil after exactly
  one \<open>Add\<close> and after any sequence in which every value after the first is below its
  predecessor. The Aggregator does not omit such a metric: \<open>report\<close> calls \<open>Summarize\<close>
  and never \<open>Finalize\<close>, so a window that received a counter metric once reports it,
  with a count of 0.
\<close>

theorem counter_Finalize_nil:
  "(NewStats ''counter'' = Inr s0 \<longrightarrow>
      (\<exists>s. AddSeq fl s0 [(m, t)] = Inr ([None], s) \<and> fst (Finalize fl s) = None)) \<and>
   (NewStats ''counter'' = Inr s0 \<and>
    (\<forall>i. 0 < i \<and> i < length ms \<longrightarrow> flt (sample_val ms i) (sample_val ms (i - 1))) \<longrightarrow>
      (\<exists>es s. AddSeq fl s0 ms = Inr (es, s) \<and> fst (Finalize fl s) = None)) \<and>
   (\<not> IsZero t1 \<and> Type m = ''counter'' \<longrightarrow>
      (\<exists>r st. agg_spool (snd (run fl NewAggregator
                  [Tick t1, Collect \<lparr>StartTs = t, CMetrics = [m]\<rparr>, Tick t2])) = [r] \<and>
         Ts r = t1 \<and> Metrics r (Name m) = Some st \<and> Cnt st = 0))"
proof (intro conjI impI)
  assume n: "NewStats ''counter'' = Inr s0"
  from counter_seq [OF n, of fl "[(m, t)]"] obtain es s where
    a: "AddSeq fl s0 [(m, t)] = Inr (es, s)" "length es = length [(m, t)]"
      "\<forall>i<length [(m, t)]. (es ! i \<noteq> None) = lap_at [(m, t)] i"
      "vals s = rates fl [(m, t)]"
    by blast
  from a(2,3) have "es = [None]" by (cases es) (auto simp: lap_at_def)
  moreover from a(4) have "fst (Finalize fl s) = None" by (simp add: Finalize_None rates_def)
  ultimately show "\<exists>s. AddSeq fl s0 [(m, t)] = Inr ([None], s) \<and> fst (Finalize fl s) = None"
    using a(1) by blast
next
  assume h: "NewStats ''counter'' = Inr s0 \<and>
    (\<forall>i. 0 < i \<and> i < length ms \<longrightarrow> flt (sample_val ms i) (sample_val ms (i - 1)))"
  then have n: "NewStats ''counter'' = Inr s0" by simp
  from counter_seq [OF n, of fl ms] obtain es s where
    a: "AddSeq fl s0 ms = Inr (es, s)" "vals s = rates fl ms" by blast
  from h have "rates fl ms = []" by (intro rates_decreasing) simp
  with a show "\<exists>es s. AddSeq fl s0 ms = Inr (es, s) \<and> fst (Finalize fl s) = None"
    by (auto simp: Finalize_None)
next
  assume h: "\<not> IsZero t1 \<and> Type m = ''counter''"
  let ?c = "\<lparr>StartTs = t, CMetrics = [m]\<rparr>"
  let ?st = "Stats_zero\<lparr>metricType := ''counter'', vals := [], firstVal := False,
                                prevTs := t, prevVal := Number m\<rparr>"
  have w: "addMetrics fl Map.empty (StartTs ?c) (CMetrics ?c) = Inr [Name m \<mapsto> ?st]"
    using h by (simp add: addMetrics_single_counter del: addMetrics.simps)
  have z: "\<not> IsZero t1" using h by simp
  have "Cnt (Summarize fl ?st) = 0" by (simp add: Summarize_def Stats_zero_def)
  then show "\<exists>r st. agg_spool (snd (run fl NewAggregator [Tick t1, Collect ?c, Tick t2])) = [r] \<and>
         Ts r = t1 \<and> Metrics r (Name m) = Some st \<and> Cnt st = 0"
    unfolding run_one_window [OF z w] by simp
qed

theorem counter_Finalize_nil_witness:
  "(\<exists>s. AddSeq exact (Stats_zero\<lparr>metricType := ''counter'', vals := [], firstVal := True\<rparr>)
          [(\<lparr>Name = ''x'', Type = ''counter'', Number = Fin 7\<rparr>, 5)] = Inr ([None], s) \<and>
        fst (Finalize exact s) = None) \<and>
   (\<exists>es s. AddSeq exact (Stats_zero\<lparr>metricType := ''counter'', vals := [], firstVal := True\<rparr>)
          [(\<lparr>Name = ''x'', Type = ''counter'', Number = Fin 9\<rparr>, 1),
           (\<lparr>Name = ''x'', Type = ''counter'', Number = Fin 4\<rparr>, 2),
           (\<lparr>Name = ''x'', Type = ''counter'', Number = Fin 1\<rparr>, 3)] = Inr (es, s) \<and>
        fst (Finalize exact s) = None) \<and>
   (\<exists>r st. agg_spool (snd (run exact NewAggregator
          [Tick 60,
           Collect \<lparr>StartTs = 5, CMetrics = [\<lparr>Name = ''x'', Type = ''counter'', Number = Fin 7\<rparr>]\<rparr>,
           Tick 120])) = [r] \<and>
      Ts r = 60 \<and> Metrics r ''x'' = Some st \<and> Cnt st = 0)"
proof -
  let ?fresh = "Stats_zero\<lparr>metricType := ''counter'', vals := [], firstVal := True\<rparr>"
  let ?m = "\<lparr>Name = ''x'', Type = ''counter'', Number = Fin 7\<rparr>"
  let ?down = "[(\<lparr>Name = ''x'', Type = ''counter'', Number = Fin 9\<rparr>, 1 :: int64),
           (\<lparr>Name = ''x'', Type = ''counter'', Number = Fin 4\<rparr>, 2),
           (\<lparr>Name = ''x'', Type = ''counter'', Number = Fin 1\<rparr>, 3)]"
  have n: "NewStats ''counter'' = Inr ?fresh" by (rule NewStats_counter)
  have d: "\<forall>i. 0 < i \<and> i < length ?down \<longrightarrow>
      flt (sample_val ?down i) (sample_val ?down (i - 1))"
    by (auto simp: sample_val_def less_Suc_eq numeral_3_eq_3)
  have z: "\<not> IsZero 60 \<and> Type ?m = ''counter''" by (simp add: IsZero_def)
  note inst = counter_Finalize_nil [where ?s0.0 = ?fresh and fl = exact and m = ?m and t = 5
      and ms = ?down and ?t1.0 = 60 and ?t2.0 = 120]
  from inst n have 1: "\<exists>s. AddSeq exact ?fresh [(?m, 5)] = Inr ([None], s) \<and>
      fst (Finalize exact s) = None"
    by blast
  from inst n d have 2: "\<exists>es s. AddSeq exact ?fresh ?down = Inr (es, s) \<and>
      fst (Finalize exact s) = None"
    by blast
  from inst z have 3: "\<exists>r st. agg_spool (snd (run exact NewAggregator
          [Tick 60, Collect \<lparr>StartTs = 5, CMetrics = [?m]\<rparr>, Tick 120])) = [r] \<and>
      Ts r = 60 \<and> Metrics r (Name ?m) = Some st \<and> Cnt st = 0"
    by blast
  from 1 2 3 show ?thesis by simp
qed

theorem counter_Finalize_nil_counterexample:
  "length (agg_spool (snd (run exact NewAggregator
      [Tick 60,
       Collect \<lparr>StartTs = 61, CMetrics = [\<lparr>Name = ''y'', Type = ''counter'', Number = Fin 7\<rparr>]\<rparr>,
       Tick 120]))) = 1 \<and>
   map_option Cnt (Metrics (hd (agg_spool (snd (run exact NewAggregator
      [Tick 60,
       Collect \<lparr>StartTs = 61, CMetrics = [\<lparr>Name = ''y'', Type = ''counter'', Number = Fin 7\<rparr>]\<rparr>,
       Tick 120])))) ''y'') = Some 0 \<and>
   map_option (fst \<circ> Finalize exact) (Metrics (hd (agg_spool (snd (run exact NewAggregator
      [Tick 60,
       Collect \<lparr>StartTs = 61, CMetrics = [\<lparr>Name = ''y'', Type = ''counter'', Number = Fin 7\<rparr>]\<rparr>,
       Tick 120])))) ''y'') = Some None"
  by (simp add: NewAggregator_def IsZero_def report_def NewStats_def MetricTypes_def Add_def
      Stats_zero_def Summarize_def Finalize_def)

section \<open>Properties of the Aggregator\<close>

lemma Summarize_Cnt_zero:
  "metricType st = ''gauge'' \<or> metricType st = ''counter'' \<Longrightarrow>
   Cnt (Summarize fl st) = 0 \<longleftrightarrow> vals st = []"
  by (simp add: Summarize_Cnt)

text \<open>
  Claim C1, as amended. When a tick closes an open window, the one Report written to
  the Spooler carries the start of the window and an entry for every metric name of the
  window's map, each the \<open>Summarize\<close> of its \<open>Stats\<close>: nothing is left out. For a gauge
  or counter the entry has a count of 0 exactly when no sample was accumulated, which
  is exactly when \<open>Finalize\<close>, which \<open>report\<close> does not call, would return nil.
\<close>

theorem report_keeps_every_metric:
  "(\<not> IsZero (startTs a) \<longrightarrow>
      run fl a [Tick now] =
        (None, \<lparr>startTs = now, cur = Map.empty,
                agg_spool = agg_spool a @
                  [\<lparr>Ts = startTs a,
                    Metrics = (\<lambda>name. map_option (Summarize fl) (cur a name))\<rparr>]\<rparr>)) \<and>
   (\<exists>r. report fl sp start metrics = sp @ [r] \<and> Ts r = start \<and>
        dom (Metrics r) = dom metrics \<and>
        (\<forall>name st. metrics name = Some st \<longrightarrow>
           Metrics r name = Some (Summarize fl st) \<and>
           (metricType st = ''gauge'' \<or> metricType st = ''counter'' \<longrightarrow>
              (Cnt (Summarize fl st) = 0 \<longleftrightarrow> vals st = []) \<and>
              (Cnt (Summarize fl st) = 0 \<longleftrightarrow> fst (Finalize fl st) = None))))"
proof (intro conjI impI)
  assume "\<not> IsZero (startTs a)"
  then show "run fl a [Tick now] =
        (None, \<lparr>startTs = now, cur = Map.empty,
                agg_spool = agg_spool a @
                  [\<lparr>Ts = startTs a,
                    Metrics = (\<lambda>name. map_option (Summarize fl) (cur a name))\<rparr>]\<rparr>)"
    by (simp add: report_def)
next
  let ?r = "\<lparr>Ts = start, Metrics = (\<lambda>name. map_option (Summarize fl) (metrics name))\<rparr>"
  have 1: "report fl sp start metrics = sp @ [?r]" by (simp add: report_def)
  have 2: "Ts ?r = start" by simp
  have 3: "dom (Metrics ?r) = dom metrics" by (auto simp: dom_def)
  have 4: "\<forall>name st. metrics name = Some st \<longrightarrow>
           Metrics ?r name = Some (Summarize fl st) \<and>
           (metricType st = ''gauge'' \<or> metricType st = ''counter'' \<longrightarrow>
              (Cnt (Summarize fl st) = 0 \<longleftrightarrow> vals st = []) \<and>
              (Cnt (Summarize fl st) = 0 \<longleftrightarrow> fst (Finalize fl st) = None))"
    by (simp add: Summarize_Cnt_zero Finalize_None)
  from 1 2 3 4 show "\<exists>r. report fl sp start metrics = sp @ [r] \<and> Ts r = start \<and>
        dom (Metrics r) = dom metrics \<and>
        (\<forall>name st. metrics name = Some st \<longrightarrow>
           Metrics r name = Some (Summarize fl st) \<and>
           (metricType st = ''gauge'' \<or> metricType st = ''counter'' \<longrightarrow>
              (Cnt (Summarize fl st) = 0 \<longleftrightarrow> vals st = []) \<and>
              (Cnt (Summarize fl st) = 0 \<longleftrightarrow> fst (Finalize fl st) = None)))"
    by blast
qed

theorem report_keeps_every_metric_witness:
  "run exact \<lparr>startTs = 1,
        cur = [''x'' \<mapsto> Stats_zero\<lparr>metricType := ''counter'', vals := [], prevTs := 5,
                                    prevVal := Fin 10\<rparr>],
        agg_spool = []\<rparr> [Tick 2] =
     (None, \<lparr>startTs = 2, cur = Map.empty,
             agg_spool =
               [\<lparr>Ts = 1,
                 Metrics = (\<lambda>name. map_option (Summarize exact)
                   ([''x'' \<mapsto> Stats_zero\<lparr>metricType := ''counter'', vals := [], prevTs := 5,
                                            prevVal := Fin 10\<rparr>] name))\<rparr>]\<rparr>) \<and>
   Cnt (Summarize exact (Stats_zero\<lparr>metricType := ''counter'', vals := [], prevTs := 5,
                                     prevVal := Fin 10\<rparr>)) = 0 \<and>
   fst (Finalize exact (Stats_zero\<lparr>metricType := ''counter'', vals := [], prevTs := 5,
                                    prevVal := Fin 10\<rparr>)) = None"
proof -
  let ?st = "Stats_zero\<lparr>metricType := ''counter'', vals := [], prevTs := 5,
                         prevVal := Fin 10\<rparr>"
  let ?a = "\<lparr>startTs = 1, cur = [''x'' \<mapsto> ?st], agg_spool = []\<rparr>"
  note inst = report_keeps_every_metric [where a = ?a and fl = exact and now = 2 and sp = "[]"
      and start = 1 and metrics = "[''x'' \<mapsto> ?st]"]
  have z: "\<not> IsZero (startTs ?a)" by (simp add: IsZero_def)
  have g: "[''x'' \<mapsto> ?st] ''x'' = Some ?st" by simp
  have ty: "metricType ?st = ''gauge'' \<or> metricType ?st = ''counter''" by simp
  have v: "vals ?st = []" by simp
  from inst z have 1: "run exact ?a [Tick 2] =
        (None, \<lparr>startTs = 2, cur = Map.empty,
                agg_spool = agg_spool ?a @
                  [\<lparr>Ts = startTs ?a,
                    Metrics = (\<lambda>name. map_option (Summarize exact) (cur ?a name))\<rparr>]\<rparr>)"
    by blast
  from inst g ty have "(Cnt (Summarize exact ?st) = 0 \<longleftrightarrow> vals ?st = []) \<and>
      (Cnt (Summarize exact ?st) = 0 \<longleftrightarrow> fst (Finalize exact ?st) = None)"
    by blast
  with v have 2: "Cnt (Summarize exact ?st) = 0" "fst (Finalize exact ?st) = None" by blast+
  from 1 2 show ?thesis by simp
qed

theorem report_keeps_every_metric_counterexample:
  "length (agg_spool (snd (run exact NewAggregator
      [Tick 1,
       Collect \<lparr>StartTs = 5, CMetrics = [\<lparr>Name = ''x'', Type = ''counter'', Number = Fin 10\<rparr>]\<rparr>,
       Tick 2]))) = 1 \<and>
   map_option Cnt (Metrics (hd (agg_spool (snd (run exact NewAggregator
      [Tick 1,
       Collect \<lparr>StartTs = 5, CMetrics = [\<lparr>Name = ''x'', Type = ''counter'', Number = Fin 10\<rparr>]\<rparr>,
       Tick 2])))) ''x'') = Some 0"
  by (simp add: NewAggregator_def IsZero_def report_def NewStats_def MetricTypes_def Add_def
      Stats_zero_def Summarize_def)

lemma addMetrics_dom:
  "addMetrics fl c ts ms = Inr c' \<Longrightarrow> dom c' = dom c \<union> Name ` set ms"
proof (induction fl c ts ms arbitrary: c' rule: addMetrics.induct)
  case (1 fl c ts)
  then show ?case by simp
next
  case (2 fl c ts metric rest)
  from 2(2) obtain stats e stats' where
    a: "Add fl stats metric ts = Inr (e, stats')" and
    r: "addMetrics fl (c(Name metric \<mapsto> stats')) ts rest = Inr c'" and
    l: "(case c (Name metric) of
              Some stats \<Rightarrow> Inr stats
            | None \<Rightarrow>
                (case NewStats (Type metric) of
                   Inl e \<Rightarrow> Inl (Panic ''nil pointer dereference'')
                 | Inr stats \<Rightarrow> Inr stats)) = Inr stats"
    by (auto split: sum.splits prod.splits)
  from 2(1) [OF l a refl r] show ?case by auto
qed

lemma collect_dom:
  "collect fl c colls = Inr c' \<Longrightarrow>
   dom c' = dom c \<union> Name ` (\<Union>x \<in> set colls. set (CMetrics x))"
proof (induction fl c colls arbitrary: c' rule: collect.induct)
  case (1 fl c)
  then show ?case by simp
next
  case (2 fl c x xs)
  from 2(2) obtain c1 where
    a: "addMetrics fl c (StartTs x) (CMetrics x) = Inr c1" and r: "collect fl c1 xs = Inr c'"
    by (auto split: sum.splits)
  from 2(1) [OF a r] addMetrics_dom [OF a] show ?case by auto
qed

lemma run_collect_ok:
  "collect fl (cur a) colls = Inr c' \<Longrightarrow>
   run fl a (map Collect colls @ evs) = run fl (a\<lparr>cur := c'\<rparr>) evs"
proof (induction colls arbitrary: a)
  case Nil
  then have "a\<lparr>cur := c'\<rparr> = a" by simp
  then show ?case by simp
next
  case (Cons x xs)
  from Cons(2) obtain c1 where
    a: "addMetrics fl (cur a) (StartTs x) (CMetrics x) = Inr c1" and
    r: "collect fl c1 xs = Inr c'"
    by (auto split: sum.splits)
  from Cons(1) [of "a\<lparr>cur := c1\<rparr>"] r a show ?case by simp
qed

lemma run_collect_panic:
  "collect fl (cur a) colls = Inl p \<Longrightarrow>
   \<exists>a'. run fl a (map Collect colls @ evs) = (Some p, a') \<and>
        agg_spool a' = agg_spool a \<and> startTs a' = startTs a"
proof (induction colls arbitrary: a)
  case Nil
  then show ?case by simp
next
  case (Cons x xs)
  show ?case
  proof (cases "addMetrics fl (cur a) (StartTs x) (CMetrics x)")
    case (Inl q)
    with Cons(2) show ?thesis by simp
  next
    case (Inr c1)
    with Cons(2) have "collect fl (cur (a\<lparr>cur := c1\<rparr>)) xs = Inl p" by simp
    from Cons(1) [OF this] Inr show ?thesis by simp
  qed
qed

lemma run_append:
  "fst (run fl a xs) = None \<Longrightarrow> StopSig \<notin> set xs \<Longrightarrow>
   run fl a (xs @ ys) = run fl (snd (run fl a xs)) ys"
proof (induction fl a xs rule: run.induct)
  case (3 fl a collection evs)
  then show ?case by (auto split: sum.splits)
qed simp_all

lemma run_stop: "run fl a (xs @ StopSig # ys) = run fl a xs"
proof (induction fl a xs rule: run.induct)
  case (3 fl a collection evs)
  then show ?case by (auto split: sum.splits)
qed simp_all

lemma run_panic_ends:
  "fst (run fl a xs) = Some p \<Longrightarrow> run fl a (xs @ ys) = run fl a xs"
proof (induction fl a xs rule: run.induct)
  case (3 fl a collection evs)
  then show ?case by (auto split: sum.splits)
qed simp_all

lemma Aggregator_updated:
  "a\<lparr>agg_spool := sp, startTs := t, cur := c\<rparr> = \<lparr>startTs = t, cur = c, agg_spool = sp\<rparr>"
  by simp

lemma run_window:
  assumes pre: "fst (run fl NewAggregator pre) = None" "StopSig \<notin> set pre"
    and t1: "\<not> IsZero t1" and w: "collect fl Map.empty colls = Inr w"
  shows "run fl NewAggregator (pre @ Tick t1 # map Collect colls @ Tick t2 # rest) =
     run fl \<lparr>startTs = t2, cur = Map.empty,
          agg_spool = agg_spool (snd (run fl NewAggregator (pre @ [Tick t1]))) @
            [\<lparr>Ts = t1, Metrics = (\<lambda>name. map_option (Summarize fl) (w name))\<rparr>]\<rparr> rest"
proof -
  define a0 where "a0 = snd (run fl NewAggregator pre)"
  define a1 where "a1 = snd (run fl a0 [Tick t1])"
  have a1: "startTs a1 = t1" "cur a1 = Map.empty" by (simp_all add: a1_def)
  have p1: "run fl NewAggregator (pre @ [Tick t1]) = (None, a1)"
    unfolding run_append [OF pre] a0_def [symmetric] a1_def by simp
  have "run fl NewAggregator (pre @ Tick t1 # map Collect colls @ Tick t2 # rest) =
      run fl a0 (Tick t1 # map Collect colls @ Tick t2 # rest)"
    unfolding run_append [OF pre] a0_def ..
  also have "\<dots> = run fl a1 (map Collect colls @ Tick t2 # rest)"
    by (simp add: a1_def)
  also have "\<dots> = run fl (a1\<lparr>cur := w\<rparr>) (Tick t2 # rest)"
    by (rule run_collect_ok) (simp add: a1 w)
  also have "\<dots> = run fl \<lparr>startTs = t2, cur = Map.empty,
          agg_spool = agg_spool a1 @
            [\<lparr>Ts = t1, Metrics = (\<lambda>name. map_option (Summarize fl) (w name))\<rparr>]\<rparr> rest"
    using t1 a1 by (simp add: report_def Aggregator_updated)
  finally show ?thesis by (simp add: p1)
qed

lemma run_window_panic:
  assumes pre: "fst (run fl NewAggregator pre) = None" "StopSig \<notin> set pre"
    and w: "collect fl Map.empty colls = Inl p"
  shows "\<exists>a'. run fl NewAggregator (pre @ Tick t1 # map Collect colls @ rest) = (Some p, a') \<and>
     agg_spool a' = agg_spool (snd (run fl NewAggregator (pre @ [Tick t1])))"
proof -
  define a0 where "a0 = snd (run fl NewAggregator pre)"
  define a1 where "a1 = snd (run fl a0 [Tick t1])"
  have a1: "cur a1 = Map.empty" by (simp add: a1_def)
  have p1: "run fl NewAggregator (pre @ [Tick t1]) = (None, a1)"
    unfolding run_append [OF pre] a0_def [symmetric] a1_def by simp
  have "run fl NewAggregator (pre @ Tick t1 # map Collect colls @ rest) =
      run fl a0 (Tick t1 # map Collect colls @ rest)"
    unfolding run_append [OF pre] a0_def ..
  also have "\<dots> = run fl a1 (map Collect colls @ rest)"
    by (simp add: a1_def)
  finally have e: "run fl NewAggregator (pre @ Tick t1 # map Collect colls @ rest) =
      run fl a1 (map Collect colls @ rest)" .
  have "collect fl (cur a1) colls = Inl p" by (simp add: a1 w)
  from run_collect_panic [OF this, of rest] show ?thesis unfolding e p1 by auto
qed

text \<open>
  The timestamps of the Reports written over a trace: one for every tick but the last,
  the window open at the start included.
\<close>

lemma run_report_times:
  assumes "fst (run fl a evs) = None" "list_all (\<lambda>t. \<not> IsZero t) (ticks evs)"
  shows "map Ts (agg_spool (snd (run fl a evs))) =
     map Ts (agg_spool a) @ butlast ((if IsZero (startTs a) then [] else [startTs a]) @ ticks evs)"
  using assms
proof (induction fl a evs rule: run.induct)
  case (1 fl a)
  then show ?case by simp
next
  case (2 fl a now evs)
  then show ?case by (simp add: report_def)
next
  case (3 fl a collection evs)
  then show ?case by (auto split: sum.splits)
next
  case (4 fl a evs)
  then show ?case by simp
qed

text \<open>
  Claim C6. Over the events the loop of \<open>run\<close> receives, a tick carrying the time of
  the clock, which is never the zero time. The Collections that arrive before the first
  tick change nothing that is ever written (the run goes on as if they had not arrived,
  and a panic among them ends the goroutine with nothing written). The tick that
  follows a tick writes exactly one Report, with the timestamp of that previous tick
  and with exactly the metrics of the Collections received since, summarized, whatever
  came before; a panic among these Collections ends the goroutine and leaves the window
  unwritten. Over a whole trace the Reports written carry, in order, the times of all
  the ticks but the last. The stop signal ends the loop with the state as it is,
  writing nothing, and after a panic nothing more is received.
\<close>

theorem run_windows:
  "(collect fl Map.empty colls = Inr w \<longrightarrow>
      run fl NewAggregator (map Collect colls @ Tick t # rest) =
      run fl NewAggregator (Tick t # rest)) \<and>
   (collect fl Map.empty colls = Inl p \<longrightarrow>
      (\<exists>a'. run fl NewAggregator (map Collect colls @ rest) = (Some p, a') \<and>
            agg_spool a' = [])) \<and>
   (fst (run fl NewAggregator pre) = None \<and> StopSig \<notin> set pre \<and> \<not> IsZero t1 \<and>
    collect fl Map.empty colls = Inr w \<longrightarrow>
      run fl NewAggregator (pre @ Tick t1 # map Collect colls @ Tick t2 # rest) =
        run fl \<lparr>startTs = t2, cur = Map.empty,
             agg_spool = agg_spool (snd (run fl NewAggregator (pre @ [Tick t1]))) @
               [\<lparr>Ts = t1, Metrics = (\<lambda>name. map_option (Summarize fl) (w name))\<rparr>]\<rparr> rest \<and>
      dom w = Name ` (\<Union>x \<in> set colls. set (CMetrics x))) \<and>
   (fst (run fl NewAggregator pre) = None \<and> StopSig \<notin> set pre \<and>
    collect fl Map.empty colls = Inl p \<longrightarrow>
      (\<exists>a'. run fl NewAggregator (pre @ Tick t1 # map Collect colls @ rest) = (Some p, a') \<and>
            agg_spool a' = agg_spool (snd (run fl NewAggregator (pre @ [Tick t1]))))) \<and>
   (fst (run fl NewAggregator evs) = None \<and> list_all (\<lambda>t. \<not> IsZero t) (ticks evs) \<longrightarrow>
      map Ts (agg_spool (snd (run fl NewAggregator evs))) = butlast (ticks evs)) \<and>
   run fl a (pre @ StopSig # rest) = run fl a pre \<and>
   (fst (run fl a pre) = Some p \<longrightarrow> run fl a (pre @ rest) = run fl a pre)"
proof (intro conjI impI)
  assume w: "collect fl Map.empty colls = Inr w"
  have "run fl NewAggregator (map Collect colls @ Tick t # rest) =
      run fl (NewAggregator\<lparr>cur := w\<rparr>) (Tick t # rest)"
    by (rule run_collect_ok) (simp add: NewAggregator_def w)
  then show "run fl NewAggregator (map Collect colls @ Tick t # rest) =
      run fl NewAggregator (Tick t # rest)"
    by (simp add: NewAggregator_def IsZero_def)
next
  assume "collect fl Map.empty colls = Inl p"
  then have "collect fl (cur NewAggregator) colls = Inl p" by (simp add: NewAggregator_def)
  from run_collect_panic [OF this, of rest]
  show "\<exists>a'. run fl NewAggregator (map Collect colls @ rest) = (Some p, a') \<and> agg_spool a' = []"
    by (auto simp: NewAggregator_def)
next
  assume h: "fst (run fl NewAggregator pre) = None \<and> StopSig \<notin> set pre \<and> \<not> IsZero t1 \<and>
    collect fl Map.empty colls = Inr w"
  then show "run fl NewAggregator (pre @ Tick t1 # map Collect colls @ Tick t2 # rest) =
        run fl \<lparr>startTs = t2, cur = Map.empty,
             agg_spool = agg_spool (snd (run fl NewAggregator (pre @ [Tick t1]))) @
               [\<lparr>Ts = t1, Metrics = (\<lambda>name. map_option (Summarize fl) (w name))\<rparr>]\<rparr> rest"
    by (intro run_window) simp_all
  from h collect_dom [of fl Map.empty colls w]
  show "dom w = Name ` (\<Union>x \<in> set colls. set (CMetrics x))" by simp
next
  assume "fst (run fl NewAggregator pre) = None \<and> StopSig \<notin> set pre \<and>
    collect fl Map.empty colls = Inl p"
  then show "\<exists>a'. run fl NewAggregator (pre @ Tick t1 # map Collect colls @ rest) = (Some p, a') \<and>
            agg_spool a' = agg_spool (snd (run fl NewAggregator (pre @ [Tick t1])))"
    by (intro run_window_panic) simp_all
next
  assume "fst (run fl NewAggregator evs) = None \<and> list_all (\<lambda>t. \<not> IsZero t) (ticks evs)"
  then have "map Ts (agg_spool (snd (run fl NewAggregator evs))) =
     map Ts (agg_spool NewAggregator) @
     butlast ((if IsZero (startTs NewAggregator) then [] else [startTs NewAggregator]) @
       ticks evs)"
    by (intro run_report_times) simp_all
  then show "map Ts (agg_spool (snd (run fl NewAggregator evs))) = butlast (ticks evs)"
    by (simp add: NewAggregator_def IsZero_def)
next
  show "run fl a (pre @ StopSig # rest) = run fl a pre" by (rule run_stop)
next
  assume "fst (run fl a pre) = Some p"
  then show "run fl a (pre @ rest) = run fl a pre" by (rule run_panic_ends)
qed

theorem run_windows_witness:
  "map Ts (agg_spool (snd (run exact NewAggregator
      [Collect \<lparr>StartTs = 990, CMetrics = [\<lparr>Name = ''early'', Type = ''gauge'', Number = Fin 1\<rparr>]\<rparr>,
       Tick 1000,
       Collect \<lparr>StartTs = 1005, CMetrics = [\<lparr>Name = ''x'', Type = ''gauge'', Number = Fin 10\<rparr>]\<rparr>,
       Tick 1060]))) = [1000] \<and>
   map_option Cnt (Metrics (hd (agg_spool (snd (run exact NewAggregator
      [Collect \<lparr>StartTs = 990, CMetrics = [\<lparr>Name = ''early'', Type = ''gauge'', Number = Fin 1\<rparr>]\<rparr>,
       Tick 1000,
       Collect \<lparr>StartTs = 1005, CMetrics = [\<lparr>Name = ''x'', Type = ''gauge'', Number = Fin 10\<rparr>]\<rparr>,
       Tick 1060])))) ''x'') = Some 1 \<and>
   Metrics (hd (agg_spool (snd (run exact NewAggregator
      [Collect \<lparr>StartTs = 990, CMetrics = [\<lparr>Name = ''early'', Type = ''gauge'', Number = Fin 1\<rparr>]\<rparr>,
       Tick 1000,
       Collect \<lparr>StartTs = 1005, CMetrics = [\<lparr>Name = ''x'', Type = ''gauge'', Number = Fin 10\<rparr>]\<rparr>,
       Tick 1060])))) ''early'' = None \<and>
   fst (run exact NewAggregator
      [Collect \<lparr>StartTs = 990, CMetrics = [\<lparr>Name = ''early'', Type = ''bogus'', Number = Fin 1\<rparr>]\<rparr>,
       Tick 1000]) = Some (Panic ''nil pointer dereference'') \<and>
   map Ts (agg_spool (snd (run exact NewAggregator
      [Collect \<lparr>StartTs = 990, CMetrics = [\<lparr>Name = ''early'', Type = ''gauge'', Number = Fin 1\<rparr>]\<rparr>,
       Tick 1000,
       Collect \<lparr>StartTs = 1005, CMetrics = [\<lparr>Name = ''x'', Type = ''gauge'', Number = Fin 10\<rparr>]\<rparr>,
       Tick 1060,
       Tick 1120,
       StopSig,
       Tick 1180]))) = [1000, 1060]"
proof -
  let ?c0 = "\<lparr>StartTs = 990, CMetrics = [\<lparr>Name = ''early'', Type = ''gauge'', Number = Fin 1\<rparr>]\<rparr>"
  let ?c1 = "\<lparr>StartTs = 1005, CMetrics = [\<lparr>Name = ''x'', Type = ''gauge'', Number = Fin 10\<rparr>]\<rparr>"
  let ?cb = "\<lparr>StartTs = 990, CMetrics = [\<lparr>Name = ''early'', Type = ''bogus'', Number = Fin 1\<rparr>]\<rparr>"
  let ?w = "[''x'' \<mapsto> Stats_zero\<lparr>metricType := ''gauge'', vals := [Fin 10], firstVal := True,
                                     sum_s := Fin 10\<rparr>]"
  let ?evs = "[Collect ?c0, Tick 1000, Collect ?c1, Tick 1060, Tick 1120, StopSig, Tick 1180]"
  have w: "collect exact Map.empty [?c1] = Inr ?w"
    by (simp add: NewStats_def MetricTypes_def Add_def Stats_zero_def exact_def)
  have b: "collect exact Map.empty [?cb] = Inl (Panic ''nil pointer dereference'')"
    by (simp add: NewStats_def MetricTypes_def)
  have pre: "fst (run exact NewAggregator [Collect ?c0]) = None \<and> StopSig \<notin> set [Collect ?c0] \<and>
      \<not> IsZero 1000 \<and> collect exact Map.empty [?c1] = Inr ?w"
    using w by (simp add: NewAggregator_def IsZero_def NewStats_def MetricTypes_def Add_def)
  have all: "fst (run exact NewAggregator ?evs) = None \<and>
      list_all (\<lambda>t. \<not> IsZero t) (ticks ?evs)"
    by (simp add: NewAggregator_def IsZero_def NewStats_def MetricTypes_def Add_def)
  note A = run_windows [where fl = exact and colls = "[?c1]" and w = ?w and pre = "[Collect ?c0]"
      and ?t1.0 = 1000 and ?t2.0 = 1060 and rest = "[]" and evs = ?evs]
  note B = run_windows [where fl = exact and colls = "[?cb]"
      and p = "Panic ''nil pointer dereference''" and rest = "[Tick 1000]"]
  from A pre have 1: "run exact NewAggregator
        ([Collect ?c0] @ Tick 1000 # map Collect [?c1] @ [Tick 1060]) =
        run exact \<lparr>startTs = 1060, cur = Map.empty,
             agg_spool = agg_spool (snd (run exact NewAggregator ([Collect ?c0] @ [Tick 1000]))) @
               [\<lparr>Ts = 1000, Metrics = (\<lambda>name. map_option (Summarize exact) (?w name))\<rparr>]\<rparr> []"
    by blast
  from B b obtain a' where
    2: "run exact NewAggregator (map Collect [?cb] @ [Tick 1000]) =
      (Some (Panic ''nil pointer dereference''), a')"
    by blast
  from A all have 6: "map Ts (agg_spool (snd (run exact NewAggregator ?evs))) =
      butlast (ticks ?evs)"
    by blast
  have 3: "agg_spool (snd (run exact NewAggregator ([Collect ?c0] @ [Tick 1000]))) = []"
    by (simp add: NewAggregator_def IsZero_def NewStats_def MetricTypes_def Add_def)
  have 4: "Cnt (Summarize exact (Stats_zero\<lparr>metricType := ''gauge'', vals := [Fin 10],
      firstVal := True, sum_s := Fin 10\<rparr>)) = 1"
    by (simp add: Summarize_def)
  have 5: "[Collect ?c0] @ Tick 1000 # map Collect [?c1] @ [Tick 1060] =
      [Collect ?c0, Tick 1000, Collect ?c1, Tick 1060]"
    "map Collect [?cb] @ [Tick 1000] = [Collect ?cb, Tick 1000]"
    by simp_all
  have 7: "butlast (ticks ?evs) = [1000, 1060]" by simp
  note 1 = 1 [unfolded 3 5 run.simps(1) append_Nil]
  note 2 = 2 [unfolded 5]
  note 6 = 6 [unfolded 7]
  show ?thesis unfolding 1 2 6 by (simp add: 4)
qed

section \<open>Properties of the Sender\<close>

lemma sendFiles_acked:
  assumes "acked io s file data resp"
  shows "sendFiles fl io s (file # files) =
     (let s1 = transmitted fl io s file data in
      if Code resp \<ge> 500 then (None, s1\<lparr>apiErr := True\<rparr>)
      else if Code resp \<ge> 400 then
        sendFiles fl io (s1\<lparr>spool := Remove (spool s1) file, sent := sent s1 + 1,
                             bad := bad s1 + 1\<rparr>) files
      else if Code resp \<ge> 300 then (Some (UnhandledCode (Code resp) (Error resp)), s1)
      else if Code resp \<ge> 200 then
        sendFiles fl io (s1\<lparr>spool := Remove (spool s1) file, sent := sent s1 + 1\<rparr>) files
      else (Some (UnknownCode (Code resp) (Error resp)), s1))"
  using assms by (simp add: acked_def transmitted_def Let_def)

lemma send_loop_done:
  assumes "\<not> apiErr s" "errs s < MAX_SEND_ERRORS" "\<not> timeoutErr s"
    and "\<not> p_runTime (world (errs s)) > timeout s"
    and "p_connect (world (errs s)) = None"
    and "sendAllFiles fl (p_files (world (errs s))) s = (None, s')"
  shows "send_loop fl world s = s'"
  using assms by (subst send_loop.simps) simp

lemma acked_cong:
  "timeout s' = timeout s \<Longrightarrow> blackhole s' = blackhole s \<Longrightarrow>
   acked io s' file data resp = acked io s file data resp"
  by (simp add: acked_def)

lemma acked_code: "acked io s file data resp \<Longrightarrow> ack_code io file = Code resp"
  by (simp add: acked_def ack_code_def)

text \<open>
  One pass of \<open>sendAllFiles\<close> over units that are all transmitted and acknowledged with
  a code of the three ranges: the units before the first code of 500 or more are
  removed and counted, that unit and the later ones stay.
\<close>

lemma sendFiles_drain:
  assumes "distinct files" "spool s = files"
    and "\<forall>f \<in> set files. \<exists>data resp. acked io s f data resp \<and> handled_code (Code resp)"
  shows "\<exists>s'. sendFiles fl io s files = (None, s') \<and>
     spool s' = dropWhile (\<lambda>f. ack_code io f < 500) files \<and>
     sent s' = sent s + length (takeWhile (\<lambda>f. ack_code io f < 500) files) \<and>
     bad s' = bad s +
       length (filter (\<lambda>f. 400 \<le> ack_code io f) (takeWhile (\<lambda>f. ack_code io f < 500) files)) \<and>
     apiErr s' = (apiErr s \<or> dropWhile (\<lambda>f. ack_code io f < 500) files \<noteq> []) \<and>
     errs s' = errs s \<and> timeoutErr s' = timeoutErr s"
  using assms
proof (induction files arbitrary: s)
  case Nil
  then show ?case by simp
next
  case (Cons f files)
  from Cons(4) obtain data resp where
    a: "acked io s f data resp" and h: "handled_code (Code resp)" by auto
  note c = acked_code [OF a]
  have d: "distinct files" "f \<notin> set files" using Cons(2) by simp_all
  have rm: "Remove (spool s) f = files"
    using d(2) by (simp add: Remove_def Cons(3))
  have rest: "\<forall>g \<in> set files. \<exists>data resp. acked io s' g data resp \<and> handled_code (Code resp)"
    if "timeout s' = timeout s" "blackhole s' = blackhole s" for s'
    using Cons(4) acked_cong [OF that] by simp
  consider (api) "500 \<le> Code resp" | (bad) "400 \<le> Code resp" "Code resp \<le> 499"
    | (ok) "200 \<le> Code resp" "Code resp \<le> 299"
    using h by (auto simp: handled_code_def)
  then show ?case
  proof cases
    case api
    then have "sendFiles fl io s (f # files) =
        (None, (transmitted fl io s f data)\<lparr>apiErr := True\<rparr>)"
      unfolding sendFiles_acked [OF a] by (simp add: Let_def)
    then show ?thesis using api c Cons(3) by (simp add: transmitted_def)
  next
    case bad
    let ?s2 = "(transmitted fl io s f data)
        \<lparr>spool := files, sent := sent s + 1, bad := bad s + 1\<rparr>"
    have e: "sendFiles fl io s (f # files) = sendFiles fl io ?s2 files"
      unfolding sendFiles_acked [OF a] using bad rm by (simp add: transmitted_def Let_def)
    have "spool ?s2 = files" by simp
    moreover have "\<forall>g \<in> set files. \<exists>data resp. acked io ?s2 g data resp \<and>
        handled_code (Code resp)"
      by (rule rest) (simp_all add: transmitted_def)
    ultimately obtain s' where
      "sendFiles fl io ?s2 files = (None, s') \<and>
       spool s' = dropWhile (\<lambda>f. ack_code io f < 500) files \<and>
       sent s' = sent ?s2 + length (takeWhile (\<lambda>f. ack_code io f < 500) files) \<and>
       bad s' = bad ?s2 +
         length (filter (\<lambda>f. 400 \<le> ack_code io f)
           (takeWhile (\<lambda>f. ack_code io f < 500) files)) \<and>
       apiErr s' = (apiErr ?s2 \<or> dropWhile (\<lambda>f. ack_code io f < 500) files \<noteq> []) \<and>
       errs s' = errs ?s2 \<and> timeoutErr s' = timeoutErr ?s2"
      using Cons(1) [OF d(1), of ?s2] by blast
    then show ?thesis unfolding e using bad c by (simp add: transmitted_def)
  next
    case ok
    let ?s2 = "(transmitted fl io s f data)\<lparr>spool := files, sent := sent s + 1\<rparr>"
    have e: "sendFiles fl io s (f # files) = sendFiles fl io ?s2 files"
      unfolding sendFiles_acked [OF a] using ok rm by (simp add: transmitted_def Let_def)
    have "spool ?s2 = files" by simp
    moreover have "\<forall>g \<in> set files. \<exists>data resp. acked io ?s2 g data resp \<and>
        handled_code (Code resp)"
      by (rule rest) (simp_all add: transmitted_def)
    ultimately obtain s' where
      "sendFiles fl io ?s2 files = (None, s') \<and>
       spool s' = dropWhile (\<lambda>f. ack_code io f < 500) files \<and>
       sent s' = sent ?s2 + length (takeWhile (\<lambda>f. ack_code io f < 500) files) \<and>
       bad s' = bad ?s2 +
         length (filter (\<lambda>f. 400 \<le> ack_code io f)
           (takeWhile (\<lambda>f. ack_code io f < 500) files)) \<and>
       apiErr s' = (apiErr ?s2 \<or> dropWhile (\<lambda>f. ack_code io f < 500) files \<noteq> []) \<and>
       errs s' = errs ?s2 \<and> timeoutErr s' = timeoutErr ?s2"
      using Cons(1) [OF d(1), of ?s2] by blast
    then show ?thesis unfolding e using ok c by (simp add: transmitted_def)
  qed
qed

text \<open>
  One \<open>send\<close> from any state of the Sender, whatever the counters and flags of the
  cycle before: when the first pass connects in time and every pending unit is
  transmitted and acknowledged with a code of the three ranges.
\<close>

lemma send_drain:
  assumes d: "distinct (spool s)"
    and t: "\<not> p_runTime (world 0) > timeout s" and c: "p_connect (world 0) = None"
    and a: "\<forall>f \<in> set (spool s). \<exists>data resp.
        acked (p_files (world 0)) s f data resp \<and> handled_code (Code resp)"
  shows "\<exists>info s'. send fl world s = (info, spool s = [], s') \<and>
     spool s' = dropWhile (\<lambda>f. ack_code (p_files (world 0)) f < 500) (spool s) \<and>
     sent s' = length (takeWhile (\<lambda>f. ack_code (p_files (world 0)) f < 500) (spool s)) \<and>
     bad s' = length (filter (\<lambda>f. 400 \<le> ack_code (p_files (world 0)) f)
       (takeWhile (\<lambda>f. ack_code (p_files (world 0)) f < 500) (spool s))) \<and>
     apiErr s' = (dropWhile (\<lambda>f. ack_code (p_files (world 0)) f < 500) (spool s) \<noteq> []) \<and>
     errs s' = 0 \<and> \<not> timeoutErr s' \<and>
     info_sent info = sent s' \<and>
     info_problems info =
       (if 0 < bad s' \<or> apiErr s' then Some (bad s', 0, apiErr s', False) else None)"
proof -
  let ?s0 = "s\<lparr>sent := 0, sentBytes := 0, sentTime := Fin 0, errs := 0, bad := 0,
      apiErr := False, timeoutErr := False\<rparr>"
  let ?io = "p_files (world 0)"
  have a0: "\<forall>f \<in> set (spool s). \<exists>data resp. acked ?io ?s0 f data resp \<and>
      handled_code (Code resp)"
    using a acked_cong [of ?s0 s ?io] by simp
  from sendFiles_drain [OF d _ a0, of fl] obtain s' where
    r: "sendFiles fl ?io ?s0 (spool s) = (None, s')" and
    p: "spool s' = dropWhile (\<lambda>f. ack_code ?io f < 500) (spool s)"
      "sent s' = length (takeWhile (\<lambda>f. ack_code ?io f < 500) (spool s))"
      "bad s' = length (filter (\<lambda>f. 400 \<le> ack_code ?io f)
         (takeWhile (\<lambda>f. ack_code ?io f < 500) (spool s)))"
      "apiErr s' = (dropWhile (\<lambda>f. ack_code ?io f < 500) (spool s) \<noteq> [])"
      "errs s' = 0" "\<not> timeoutErr s'"
    by auto
  have l: "send_loop fl world ?s0 = s'"
    by (rule send_loop_done)
       (use t c r in \<open>simp_all add: MAX_SEND_ERRORS_def sendAllFiles_def\<close>)
  have nd: "(sent s' = 0 \<and> \<not> apiErr s') = (spool s = [])"
    unfolding p by (cases "spool s") auto
  have "send fl world s = (status_of s', spool s = [], s')"
    unfolding send_def Let_def l nd ..
  moreover have "info_sent (status_of s') = sent s'"
    "info_problems (status_of s') =
       (if 0 < bad s' \<or> apiErr s' then Some (bad s', 0, apiErr s', False) else None)"
    using p(5,6) by (auto simp: status_of_def)
  ultimately show ?thesis using p by blast
qed

lemma send_scenario:
  "\<exists>info s3.
      send fl (mock_world [(''f1'', 204), (''f2'', 204), (''f3'', 503)])
        (s\<lparr>spool := [''f1'', ''f2'', ''f3''], timeout := 60, blackhole := False\<rparr>) =
        (info, False, s3) \<and>
      spool s3 = [''f3''] \<and> sent s3 = 2 \<and> bad s3 = 0 \<and> errs s3 = 0 \<and> apiErr s3 \<and>
      \<not> timeoutErr s3 \<and> info_sent info = 2 \<and>
      info_problems info = Some (0, 0, True, False)"
proof -
  let ?w = "mock_world [(''f1'', 204), (''f2'', 204), (''f3'', 503)]"
  let ?s = "s\<lparr>spool := [''f1'', ''f2'', ''f3''], timeout := 60, blackhole := False\<rparr>"
  have d: "distinct (spool ?s)" by simp
  have t: "\<not> p_runTime (?w 0) > timeout ?s" by (simp add: mock_world_def)
  have c: "p_connect (?w 0) = None" by (simp add: mock_world_def)
  have a: "\<forall>f \<in> set (spool ?s). \<exists>data resp.
      acked (p_files (?w 0)) ?s f data resp \<and> handled_code (Code resp)"
    by (simp add: mock_world_def mock_files_def acked_def handled_code_def)
  have k: "takeWhile (\<lambda>f. ack_code (p_files (?w 0)) f < 500) (spool ?s) = [''f1'', ''f2'']"
    "dropWhile (\<lambda>f. ack_code (p_files (?w 0)) f < 500) (spool ?s) = [''f3'']"
    by (simp_all add: mock_world_def mock_files_def ack_code_def)
  have b: "filter (\<lambda>f. 400 \<le> ack_code (p_files (?w 0)) f) [''f1'', ''f2''] = []"
    by (simp add: mock_world_def mock_files_def ack_code_def)
  note r = send_drain [where s = ?s and world = ?w and fl = fl]
  from r [OF d t c a, unfolded k b]
  show ?thesis by auto
qed

text \<open>
  Claim C5. While \<open>sendAllFiles\<close> handles a unit that is transmitted and acknowledged
  with a code: a code from 200 to 299 removes the unit and adds one to the sent count; a
  code from 400 to 499 removes the unit and adds one to the sent count and one to the
  bad count, and in both cases the loop goes on with the next unit; a code of 500 or
  more sets the API-error flag and returns at once, leaving this unit and every later
  one in the spool, and \<open>send\<close> then leaves its loop without another pass.

  One \<open>send\<close> cycle, from any state of the Sender, whatever the cycle before left in
  its counters and flags: when the first pass connects in time and every pending unit
  is transmitted and acknowledged with a code of these ranges, the units before the
  first code of 500 or more are removed, that unit and all later ones remain, the sent
  count is the number of units removed, the bad count the number of those acknowledged
  400 to 499, the API-error flag is set exactly when a unit remains, the error count is
  0 and there is no timeout; the status shows these, and "No data sent" is logged only
  for an empty spool. With three units acknowledged 204, 204 and 503, one \<open>send\<close>
  removes the first two, keeps the third, and the status it writes shows 2 sent, no bad
  file, no error, the API-error flag set and no timeout.
\<close>

theorem send_response_codes:
  "(acked io s file data resp \<and> 200 \<le> Code resp \<and> Code resp \<le> 299 \<longrightarrow>
      sendFiles fl io s (file # files) =
        sendFiles fl io ((transmitted fl io s file data)
          \<lparr>spool := Remove (spool s) file, sent := sent s + 1\<rparr>) files) \<and>
   (acked io s file data resp \<and> 400 \<le> Code resp \<and> Code resp \<le> 499 \<longrightarrow>
      sendFiles fl io s (file # files) =
        sendFiles fl io ((transmitted fl io s file data)
          \<lparr>spool := Remove (spool s) file, sent := sent s + 1, bad := bad s + 1\<rparr>) files) \<and>
   (acked io s file data resp \<and> 500 \<le> Code resp \<longrightarrow>
      sendFiles fl io s (file # files) =
        (None, (transmitted fl io s file data)\<lparr>apiErr := True\<rparr>) \<and>
      spool (snd (sendFiles fl io s (file # files))) = spool s \<and>
      sent (snd (sendFiles fl io s (file # files))) = sent s \<and>
      bad (snd (sendFiles fl io s (file # files))) = bad s) \<and>
   (\<not> apiErr s \<and> errs s < MAX_SEND_ERRORS \<and> \<not> timeoutErr s \<and>
    \<not> p_runTime (world (errs s)) > timeout s \<and> p_connect (world (errs s)) = None \<and>
    sendAllFiles fl (p_files (world (errs s))) s = (None, s') \<longrightarrow>
      send_loop fl world s = s') \<and>
   set (Remove sp file) = set sp - {file} \<and>
   (distinct (spool s) \<and> \<not> p_runTime (world 0) > timeout s \<and> p_connect (world 0) = None \<and>
    (\<forall>f \<in> set (spool s). \<exists>data resp.
        acked (p_files (world 0)) s f data resp \<and> handled_code (Code resp)) \<longrightarrow>
      (\<exists>info s'. send fl world s = (info, spool s = [], s') \<and>
         spool s' = dropWhile (\<lambda>f. ack_code (p_files (world 0)) f < 500) (spool s) \<and>
         sent s' = length (takeWhile (\<lambda>f. ack_code (p_files (world 0)) f < 500) (spool s)) \<and>
         bad s' = length (filter (\<lambda>f. 400 \<le> ack_code (p_files (world 0)) f)
           (takeWhile (\<lambda>f. ack_code (p_files (world 0)) f < 500) (spool s))) \<and>
         apiErr s' = (dropWhile (\<lambda>f. ack_code (p_files (world 0)) f < 500) (spool s) \<noteq> []) \<and>
         errs s' = 0 \<and> \<not> timeoutErr s' \<and>
         info_sent info = sent s' \<and>
         info_problems info =
           (if 0 < bad s' \<or> apiErr s' then Some (bad s', 0, apiErr s', False) else None))) \<and>
   (\<exists>info s3.
      send fl (mock_world [(''f1'', 204), (''f2'', 204), (''f3'', 503)])
        (s\<lparr>spool := [''f1'', ''f2'', ''f3''], timeout := 60, blackhole := False\<rparr>) =
        (info, False, s3) \<and>
      spool s3 = [''f3''] \<and> sent s3 = 2 \<and> bad s3 = 0 \<and> errs s3 = 0 \<and> apiErr s3 \<and>
      \<not> timeoutErr s3 \<and> info_sent info = 2 \<and>
      info_problems info = Some (0, 0, True, False))"
proof (intro conjI impI)
  assume h: "acked io s file data resp \<and> 200 \<le> Code resp \<and> Code resp \<le> 299"
  then have a: "acked io s file data resp" by simp
  show "sendFiles fl io s (file # files) =
        sendFiles fl io ((transmitted fl io s file data)
          \<lparr>spool := Remove (spool s) file, sent := sent s + 1\<rparr>) files"
    unfolding sendFiles_acked [OF a] using h by (simp add: transmitted_def Let_def)
next
  assume h: "acked io s file data resp \<and> 400 \<le> Code resp \<and> Code resp \<le> 499"
  then have a: "acked io s file data resp" by simp
  show "sendFiles fl io s (file # files) =
        sendFiles fl io ((transmitted fl io s file data)
          \<lparr>spool := Remove (spool s) file, sent := sent s + 1, bad := bad s + 1\<rparr>) files"
    unfolding sendFiles_acked [OF a] using h by (simp add: transmitted_def Let_def)
next
  assume h: "acked io s file data resp \<and> 500 \<le> Code resp"
  then have a: "acked io s file data resp" by simp
  show r: "sendFiles fl io s (file # files) =
      (None, (transmitted fl io s file data)\<lparr>apiErr := True\<rparr>)"
    unfolding sendFiles_acked [OF a] using h by (simp add: Let_def)
  show "spool (snd (sendFiles fl io s (file # files))) = spool s"
    "sent (snd (sendFiles fl io s (file # files))) = sent s"
    "bad (snd (sendFiles fl io s (file # files))) = bad s"
    unfolding r by (simp_all add: transmitted_def)
next
  assume "\<not> apiErr s \<and> errs s < MAX_SEND_ERRORS \<and> \<not> timeoutErr s \<and>
    \<not> p_runTime (world (errs s)) > timeout s \<and> p_connect (world (errs s)) = None \<and>
    sendAllFiles fl (p_files (world (errs s))) s = (None, s')"
  then show "send_loop fl world s = s'" by (intro send_loop_done) simp_all
next
  show "set (Remove sp file) = set sp - {file}" by (simp add: Remove_def)
next
  assume "distinct (spool s) \<and> \<not> p_runTime (world 0) > timeout s \<and>
    p_connect (world 0) = None \<and>
    (\<forall>f \<in> set (spool s). \<exists>data resp.
        acked (p_files (world 0)) s f data resp \<and> handled_code (Code resp))"
  then show "\<exists>info s'. send fl world s = (info, spool s = [], s') \<and>
         spool s' = dropWhile (\<lambda>f. ack_code (p_files (world 0)) f < 500) (spool s) \<and>
         sent s' = length (takeWhile (\<lambda>f. ack_code (p_files (world 0)) f < 500) (spool s)) \<and>
         bad s' = length (filter (\<lambda>f. 400 \<le> ack_code (p_files (world 0)) f)
           (takeWhile (\<lambda>f. ack_code (p_files (world 0)) f < 500) (spool s))) \<and>
         apiErr s' = (dropWhile (\<lambda>f. ack_code (p_files (world 0)) f < 500) (spool s) \<noteq> []) \<and>
         errs s' = 0 \<and> \<not> timeoutErr s' \<and>
         info_sent info = sent s' \<and>
         info_problems info =
           (if 0 < bad s' \<or> apiErr s' then Some (bad s', 0, apiErr s', False) else None)"
    by (intro send_drain) simp_all
next
  show "\<exists>info s3.
      send fl (mock_world [(''f1'', 204), (''f2'', 204), (''f3'', 503)])
        (s\<lparr>spool := [''f1'', ''f2'', ''f3''], timeout := 60, blackhole := False\<rparr>) =
        (info, False, s3) \<and>
      spool s3 = [''f3''] \<and> sent s3 = 2 \<and> bad s3 = 0 \<and> errs s3 = 0 \<and> apiErr s3 \<and>
      \<not> timeoutErr s3 \<and> info_sent info = 2 \<and>
      info_problems info = Some (0, 0, True, False)"
    by (rule send_scenario)
qed

theorem send_response_codes_witness:
  "sendFiles exact (mock_files [(''f1'', 204)])
     \<lparr>spool = [''f1'', ''f2''], timeout = 60, blackhole = False, sent = 0, sentBytes = 0,
      sentTime = Fin 0, errs = 0, bad = 0, apiErr = False, timeoutErr = False\<rparr> [''f1''] =
     (None,
      \<lparr>spool = [''f2''], timeout = 60, blackhole = False, sent = 1, sentBytes = 3,
       sentTime = Fin 0, errs = 0, bad = 0, apiErr = False, timeoutErr = False\<rparr>) \<and>
   sendFiles exact (mock_files [(''f1'', 422)])
     \<lparr>spool = [''f1'', ''f2''], timeout = 60, blackhole = False, sent = 0, sentBytes = 0,
      sentTime = Fin 0, errs = 0, bad = 0, apiErr = False, timeoutErr = False\<rparr> [''f1''] =
     (None,
      \<lparr>spool = [''f2''], timeout = 60, blackhole = False, sent = 1, sentBytes = 3,
       sentTime = Fin 0, errs = 0, bad = 1, apiErr = False, timeoutErr = False\<rparr>) \<and>
   sendFiles exact (mock_files [(''f1'', 503)])
     \<lparr>spool = [''f1'', ''f2''], timeout = 60, blackhole = False, sent = 0, sentBytes = 0,
      sentTime = Fin 0, errs = 0, bad = 0, apiErr = False, timeoutErr = False\<rparr>
     [''f1'', ''f2''] =
     (None,
      \<lparr>spool = [''f1'', ''f2''], timeout = 60, blackhole = False, sent = 0, sentBytes = 3,
       sentTime = Fin 0, errs = 0, bad = 0, apiErr = True, timeoutErr = False\<rparr>) \<and>
   send_loop exact (mock_world [(''f1'', 503)])
     \<lparr>spool = [''f1'', ''f2''], timeout = 60, blackhole = False, sent = 0, sentBytes = 0,
      sentTime = Fin 0, errs = 0, bad = 0, apiErr = False, timeoutErr = False\<rparr> =
     \<lparr>spool = [''f1'', ''f2''], timeout = 60, blackhole = False, sent = 0, sentBytes = 3,
      sentTime = Fin 0, errs = 0, bad = 0, apiErr = True, timeoutErr = False\<rparr> \<and>
   (\<exists>info s3.
      send exact (mock_world [(''f1'', 204), (''f2'', 422), (''f3'', 503), (''f4'', 204)])
        \<lparr>spool = [''f1'', ''f2'', ''f3'', ''f4''], timeout = 60, blackhole = False, sent = 9,
         sentBytes = 5, sentTime = Fin 1, errs = 2, bad = 4, apiErr = True,
         timeoutErr = True\<rparr> = (info, False, s3) \<and>
      spool s3 = [''f3'', ''f4''] \<and> sent s3 = 2 \<and> bad s3 = 1 \<and> apiErr s3 \<and> errs s3 = 0 \<and>
      \<not> timeoutErr s3 \<and> info_sent info = 2 \<and>
      info_problems info = Some (1, 0, True, False))"
proof -
  let ?S = "\<lparr>spool = [''f1'', ''f2''], timeout = 60, blackhole = False, sent = 0, sentBytes = 0,
      sentTime = Fin 0, errs = 0, bad = 0, apiErr = False, timeoutErr = False\<rparr>"
  let ?E = "\<lparr>spool = [''f1'', ''f2''], timeout = 60, blackhole = False, sent = 0, sentBytes = 3,
      sentTime = Fin 0, errs = 0, bad = 0, apiErr = True, timeoutErr = False\<rparr>"
  let ?L = "\<lparr>spool = [''f1'', ''f2'', ''f3'', ''f4''], timeout = 60, blackhole = False, sent = 9,
      sentBytes = 5, sentTime = Fin 1, errs = 2, bad = 4, apiErr = True, timeoutErr = True\<rparr>"
  let ?W = "mock_world [(''f1'', 204), (''f2'', 422), (''f3'', 503), (''f4'', 204)]"
  have ok: "acked (mock_files [(''f1'', 204)]) ?S ''f1'' [1, 2, 3] \<lparr>Code = 204, Error = []\<rparr> \<and>
      200 \<le> Code \<lparr>Code = 204, Error = []\<rparr> \<and> Code \<lparr>Code = 204, Error = []\<rparr> \<le> 299"
    by (simp add: acked_def mock_files_def)
  have bd: "acked (mock_files [(''f1'', 422)]) ?S ''f1'' [1, 2, 3] \<lparr>Code = 422, Error = []\<rparr> \<and>
      400 \<le> Code \<lparr>Code = 422, Error = []\<rparr> \<and> Code \<lparr>Code = 422, Error = []\<rparr> \<le> 499"
    by (simp add: acked_def mock_files_def)
  have ap: "acked (mock_files [(''f1'', 503)]) ?S ''f1'' [1, 2, 3] \<lparr>Code = 503, Error = []\<rparr> \<and>
      500 \<le> Code \<lparr>Code = 503, Error = []\<rparr>"
    by (simp add: acked_def mock_files_def)
  have cy: "distinct (spool ?L) \<and> \<not> p_runTime (?W 0) > timeout ?L \<and>
      p_connect (?W 0) = None \<and>
      (\<forall>f \<in> set (spool ?L). \<exists>data resp.
          acked (p_files (?W 0)) ?L f data resp \<and> handled_code (Code resp))"
    by (simp add: mock_world_def mock_files_def acked_def handled_code_def)
  note A = send_response_codes [where fl = exact and io = "mock_files [(''f1'', 204)]" and s = ?S
      and ?file = "''f1''" and data = "[1, 2, 3]" and resp = "\<lparr>Code = 204, Error = []\<rparr>"
      and files = "[]"]
  note B = send_response_codes [where fl = exact and io = "mock_files [(''f1'', 422)]" and s = ?S
      and ?file = "''f1''" and data = "[1, 2, 3]" and resp = "\<lparr>Code = 422, Error = []\<rparr>"
      and files = "[]"]
  note C = send_response_codes [where fl = exact and io = "mock_files [(''f1'', 503)]" and s = ?S
      and ?file = "''f1''" and data = "[1, 2, 3]" and resp = "\<lparr>Code = 503, Error = []\<rparr>"
      and files = "[''f2'']" and world = "mock_world [(''f1'', 503)]" and s' = ?E]
  note D = send_response_codes [where fl = exact and s = ?L and world = ?W,
      THEN conjunct2, THEN conjunct2, THEN conjunct2, THEN conjunct2, THEN conjunct2,
      THEN conjunct1, THEN mp, OF cy]
  from A ok have 1: "sendFiles exact (mock_files [(''f1'', 204)]) ?S [''f1''] =
      sendFiles exact (mock_files [(''f1'', 204)])
        ((transmitted exact (mock_files [(''f1'', 204)]) ?S ''f1'' [1, 2, 3])
          \<lparr>spool := Remove (spool ?S) ''f1'', sent := sent ?S + 1\<rparr>) []"
    by blast
  from B bd have 2: "sendFiles exact (mock_files [(''f1'', 422)]) ?S [''f1''] =
      sendFiles exact (mock_files [(''f1'', 422)])
        ((transmitted exact (mock_files [(''f1'', 422)]) ?S ''f1'' [1, 2, 3])
          \<lparr>spool := Remove (spool ?S) ''f1'', sent := sent ?S + 1, bad := bad ?S + 1\<rparr>) []"
    by blast
  from C ap have 3: "sendFiles exact (mock_files [(''f1'', 503)]) ?S [''f1'', ''f2''] =
      (None, (transmitted exact (mock_files [(''f1'', 503)]) ?S ''f1'' [1, 2, 3])
        \<lparr>apiErr := True\<rparr>)"
    by blast
  have e3: "sendFiles exact (mock_files [(''f1'', 503)]) ?S [''f1'', ''f2''] = (None, ?E)"
    unfolding 3 by (simp add: transmitted_def mock_files_def exact_def)
  have pass: "\<not> apiErr ?S \<and> errs ?S < MAX_SEND_ERRORS \<and> \<not> timeoutErr ?S \<and>
      \<not> p_runTime (mock_world [(''f1'', 503)] (errs ?S)) > timeout ?S \<and>
      p_connect (mock_world [(''f1'', 503)] (errs ?S)) = None \<and>
      sendAllFiles exact (p_files (mock_world [(''f1'', 503)] (errs ?S))) ?S = (None, ?E)"
    using e3 by (simp add: MAX_SEND_ERRORS_def mock_world_def sendAllFiles_def
        del: sendFiles.simps)
  from C pass have 4: "send_loop exact (mock_world [(''f1'', 503)]) ?S = ?E" by blast
  have k: "takeWhile (\<lambda>f. ack_code (p_files (?W 0)) f < 500) (spool ?L) = [''f1'', ''f2'']"
    "dropWhile (\<lambda>f. ack_code (p_files (?W 0)) f < 500) (spool ?L) = [''f3'', ''f4'']"
    by (simp_all add: mock_world_def mock_files_def ack_code_def)
  have b: "filter (\<lambda>f. 400 \<le> ack_code (p_files (?W 0)) f) [''f1'', ''f2''] = [''f2'']"
    by (simp add: mock_world_def mock_files_def ack_code_def)
  from D [unfolded k b] have 5: "\<exists>info s3. send exact ?W ?L = (info, False, s3) \<and>
      spool s3 = [''f3'', ''f4''] \<and> sent s3 = 2 \<and> bad s3 = 1 \<and> apiErr s3 \<and> errs s3 = 0 \<and>
      \<not> timeoutErr s3 \<and> info_sent info = 2 \<and>
      info_problems info = Some (1, 0, True, False)"
    by auto
  show ?thesis
    unfolding 1 2 e3 4 using 5
    by (simp add: transmitted_def mock_files_def Remove_def exact_def del: send_loop.simps)
qed

section \<open>Properties of Connect\<close>

lemma after_simps [simp]: "after efs (e, c, efs') = (e, c, efs @ efs')"
  by (simp add: after_def)

lemma connect_loop_fail:
  assumes "\<forall>k. tries - i \<le> k \<and> k < tries \<longrightarrow> \<not> is_Connected (db k)" "i \<le> tries"
  shows "connect_loop W S db tries i c err =
     (Some (ConnectFailed tries (if i = 0 then err else dial_error (db (tries - 1)))),
      c\<lparr>backoff := waited W (backoff c) i\<rparr>,
      attempts_effects W db (backoff c) (tries - i) i)"
  using assms
proof (induction i arbitrary: c err)
  case 0
  then show ?case by simp
next
  case (Suc i)
  obtain d b where w: "W (backoff c) = (d, b)" by (cases "W (backoff c)")
  have k: "tries - Suc i \<le> tries - Suc i \<and> tries - Suc i < tries" using Suc(3) by simp
  with Suc(2) have nc: "\<not> is_Connected (db (tries - Suc i))" by blast
  have rest: "\<forall>k. tries - i \<le> k \<and> k < tries \<longrightarrow> \<not> is_Connected (db k)"
    using Suc(2) by auto
  have le: "i \<le> tries" using Suc(3) by simp
  have s: "Suc (tries - Suc i) = tries - i" using Suc(3) by simp
  note IH = Suc(1) [OF rest le]
  show ?case
  proof (cases "db (tries - Suc i)")
    case (OpenFails e)
    then show ?thesis
      using w IH [of "c\<lparr>backoff := b\<rparr>" "Some e"] s
      by (cases "i = 0") (simp_all)
  next
    case (PingFails h e)
    then show ?thesis
      using w IH [of "c\<lparr>backoff := b\<rparr>" "Some e"] s
      by (cases "i = 0") (simp_all)
  next
    case (Connected h)
    with nc show ?thesis by simp
  qed
qed

lemma connect_loop_success:
  assumes "i \<le> tries" "tries - i \<le> j" "j < tries" "db j = Connected h"
    and "\<forall>k. tries - i \<le> k \<and> k < j \<longrightarrow> \<not> is_Connected (db k)"
  shows "connect_loop W S db tries i c err =
     (None,
      c\<lparr>conn := Some h, backoff := S (waited W (backoff c) (Suc (j - (tries - i))))\<rparr>,
      attempts_effects W db (backoff c) (tries - i) (Suc (j - (tries - i))))"
  using assms
proof (induction i arbitrary: c err)
  case 0
  then show ?case by simp
next
  case (Suc i)
  obtain d b where w: "W (backoff c) = (d, b)" by (cases "W (backoff c)")
  let ?k = "tries - Suc i"
  have s: "Suc ?k = tries - i" using Suc(2) by simp
  show ?case
  proof (cases "j = ?k")
    case True
    with Suc(5) w show ?thesis by simp
  next
    case False
    with Suc(3) have lt: "?k < j" by simp
    then have ge: "tries - i \<le> j" using s by simp
    from Suc(6) lt have nc: "\<not> is_Connected (db ?k)" by simp
    have rest: "\<forall>k. tries - i \<le> k \<and> k < j \<longrightarrow> \<not> is_Connected (db k)"
      using Suc(6) by auto
    have le: "i \<le> tries" using Suc(2) by simp
    note IH = Suc(1) [OF le ge Suc(4) Suc(5) rest]
    have n: "Suc (j - ?k) = Suc (Suc (j - (tries - i)))" using lt s by simp
    show ?thesis
    proof (cases "db ?k")
      case (OpenFails e)
      then show ?thesis
        using w IH [of "c\<lparr>backoff := b\<rparr>" "Some e"] s unfolding n by simp
    next
      case (PingFails h' e)
      then show ?thesis
        using w IH [of "c\<lparr>backoff := b\<rparr>" "Some e"] s unfolding n by simp
    next
      case (Connected h')
      with nc show ?thesis by simp
    qed
  qed
qed

lemma attempts_attempt_effects [simp]: "attempts (attempt_effects d x @ efs) = Suc (attempts efs)"
  by (cases x) (simp_all add: attempts_def)

lemma attempts_attempts_effects: "attempts (attempts_effects W db b k n) = n"
proof (induction n arbitrary: b k)
  case 0
  then show ?case by (simp add: attempts_def)
next
  case (Suc n)
  then show ?case by simp
qed

lemma slept_attempt_effects [simp]: "slept (attempt_effects d x @ efs) = d # slept efs"
  by (cases x) simp_all

lemma slept_attempts_effects: "slept (attempts_effects W db b k n) = waits W b n"
  by (induction n arbitrary: b k) simp_all

lemma sleeps_before_opens_attempt [simp]:
  "sleeps_before_opens (attempt_effects d x @ efs) = sleeps_before_opens efs"
  by (cases x) simp_all

lemma sleeps_before_opens_attempts: "sleeps_before_opens (attempts_effects W db b k n)"
  by (induction n arbitrary: b k) simp_all

lemma probes_settled_attempt [simp]:
  "probes_settled (attempt_effects d x @ efs) = probes_settled efs"
  by (cases x) simp_all

lemma probes_settled_attempts: "probes_settled (attempts_effects W db b k n)"
  by (induction n arbitrary: b k) simp_all

lemma attempts_effects_last:
  "db (k + n) = Connected h \<Longrightarrow> last (attempts_effects W db b k (Suc n)) = Success"
proof (induction n arbitrary: b k)
  case 0
  then show ?case by simp
next
  case (Suc n)
  from Suc(2) have "db (Suc k + n) = Connected h" by simp
  from Suc(1) [OF this, of "snd (W b)"]
  have "last (attempts_effects W db (snd (W b)) (Suc k) (Suc n)) = Success" .
  moreover have "attempts_effects W db (snd (W b)) (Suc k) (Suc n) \<noteq> []"
    by (cases "db (Suc k)") simp_all
  ultimately show ?case
    by (simp del: attempts_effects.simps add: attempts_effects.simps(2) [of W db b k "Suc n"])
qed

lemma first_connected:
  fixes tries :: nat and db :: "nat \<Rightarrow> 'h dial"
  assumes "\<exists>k<tries. is_Connected (db k)"
  obtains j h where "j < tries" "db j = Connected h" "\<forall>k<j. \<not> is_Connected (db k)"
proof -
  define j where "j = (LEAST k. k < tries \<and> is_Connected (db k))"
  from assms have "\<exists>k. k < tries \<and> is_Connected (db k)" by blast
  then have 1: "j < tries \<and> is_Connected (db j)" unfolding j_def
    by (rule LeastI_ex [where P = "\<lambda>k. k < tries \<and> is_Connected (db k)"])
  have 2: "\<forall>k<j. \<not> is_Connected (db k)"
  proof (intro allI impI notI)
    fix k assume "k < j" "is_Connected (db k)"
    with 1 have "k < tries \<and> is_Connected (db k)" by simp
    then have "j \<le> k" unfolding j_def
      by (rule Least_le [where P = "\<lambda>k. k < tries \<and> is_Connected (db k)"])
    with \<open>k < j\<close> show False by simp
  qed
  from 1 obtain h where "db j = Connected h" by (cases "db j") simp_all
  with 1 2 that show thesis by blast
qed

lemma Connect_success:
  assumes "j < tries" "db j = Connected h" "\<forall>k<j. \<not> is_Connected (db k)"
  shows "Connect W S db c tries =
     (None, c\<lparr>conn := Some h, backoff := S (waited W (backoff c) (Suc j))\<rparr>,
      attempts_effects W db (backoff c) 0 (Suc j))"
proof -
  have "tries \<noteq> 0" using assms(1) by simp
  moreover have "connect_loop W S db tries tries c None =
     (None, c\<lparr>conn := Some h, backoff := S (waited W (backoff c) (Suc (j - (tries - tries))))\<rparr>,
      attempts_effects W db (backoff c) (tries - tries) (Suc (j - (tries - tries))))"
    by (rule connect_loop_success) (use assms in simp_all)
  ultimately show ?thesis by (simp add: Connect_def)
qed

lemma Connect_failure:
  assumes "0 < tries" "\<forall>k<tries. \<not> is_Connected (db k)"
  shows "Connect W S db c tries =
     (Some (ConnectFailed tries (dial_error (db (tries - 1)))),
      c\<lparr>backoff := waited W (backoff c) tries\<rparr>,
      attempts_effects W db (backoff c) 0 tries)"
proof -
  have "connect_loop W S db tries tries c None =
     (Some (ConnectFailed tries (if tries = 0 then None else dial_error (db (tries - 1)))),
      c\<lparr>backoff := waited W (backoff c) tries\<rparr>,
      attempts_effects W db (backoff c) (tries - tries) tries)"
    by (rule connect_loop_fail) (use assms in simp_all)
  with assms(1) show ?thesis by (simp add: Connect_def)
qed

text \<open>
  Claim C7. \<open>Connect\<close> with 0 tries returns nil at once, with no effect at all. With
  more, it makes at most \<open>tries\<close> attempts; every attempt opens right after a sleep,
  and the sleeps are the waits the Backoff computes, call after call; a handle that was
  probed is closed unless the probe passed. If attempt \<open>j\<close> is the first that opens and
  passes the probe, \<open>Connect\<close> makes \<open>j + 1\<close> attempts, records that handle, ends with
  \<open>Success\<close> on the Backoff and returns nil. If none of the \<open>tries\<close> attempts does,
  it makes them all, leaves the recorded handle as it was and returns the error that
  carries \<open>tries\<close> and the error of the last attempt.
\<close>

theorem Connect_tries:
  "Connect W S db c 0 = (None, c, []) \<and>
   (\<exists>e c' efs. Connect W S db c tries = (e, c', efs) \<and> attempts efs \<le> tries \<and>
      slept efs = waits W (backoff c) (attempts efs) \<and>
      sleeps_before_opens efs \<and> probes_settled efs) \<and>
   (j < tries \<and> db j = Connected h \<and> (\<forall>k<j. \<not> is_Connected (db k)) \<longrightarrow>
      Connect W S db c tries =
        (None, c\<lparr>conn := Some h, backoff := S (waited W (backoff c) (Suc j))\<rparr>,
         attempts_effects W db (backoff c) 0 (Suc j)) \<and>
      attempts (attempts_effects W db (backoff c) 0 (Suc j)) = Suc j \<and>
      last (attempts_effects W db (backoff c) 0 (Suc j)) = Success) \<and>
   (0 < tries \<and> (\<forall>k<tries. \<not> is_Connected (db k)) \<longrightarrow>
      Connect W S db c tries =
        (Some (ConnectFailed tries (dial_error (db (tries - 1)))),
         c\<lparr>backoff := waited W (backoff c) tries\<rparr>,
         attempts_effects W db (backoff c) 0 tries) \<and>
      attempts (attempts_effects W db (backoff c) 0 tries) = tries \<and>
      dial_error (db (tries - 1)) \<noteq> None)"
proof (intro conjI impI)
  show "Connect W S db c 0 = (None, c, [])" by (simp add: Connect_def)
next
  show "\<exists>e c' efs. Connect W S db c tries = (e, c', efs) \<and> attempts efs \<le> tries \<and>
      slept efs = waits W (backoff c) (attempts efs) \<and>
      sleeps_before_opens efs \<and> probes_settled efs"
  proof (cases "\<exists>k<tries. is_Connected (db k)")
    case True
    then obtain j h where j: "j < tries" "db j = Connected h" "\<forall>k<j. \<not> is_Connected (db k)"
      by (rule first_connected)
    from j(1) have "Suc j \<le> tries" by simp
    then show ?thesis
      unfolding Connect_success [OF j]
      by (simp add: attempts_attempts_effects slept_attempts_effects
          sleeps_before_opens_attempts probes_settled_attempts
          del: attempts_effects.simps waits.simps)
  next
    case False
    then have none: "\<forall>k<tries. \<not> is_Connected (db k)" by blast
    show ?thesis
    proof (cases "tries = 0")
      case True
      then show ?thesis by (simp add: Connect_def attempts_def)
    next
      case False
      then have "0 < tries" by simp
      then show ?thesis
        unfolding Connect_failure [OF \<open>0 < tries\<close> none]
        by (simp add: attempts_attempts_effects slept_attempts_effects
            sleeps_before_opens_attempts probes_settled_attempts
            del: attempts_effects.simps waits.simps)
    qed
  qed
next
  assume h: "j < tries \<and> db j = Connected h \<and> (\<forall>k<j. \<not> is_Connected (db k))"
  then show "Connect W S db c tries =
        (None, c\<lparr>conn := Some h, backoff := S (waited W (backoff c) (Suc j))\<rparr>,
         attempts_effects W db (backoff c) 0 (Suc j))"
    by (intro Connect_success) simp_all
  show "attempts (attempts_effects W db (backoff c) 0 (Suc j)) = Suc j"
    by (rule attempts_attempts_effects)
  from h have "db (0 + j) = Connected h" by simp
  then show "last (attempts_effects W db (backoff c) 0 (Suc j)) = Success"
    by (rule attempts_effects_last)
next
  assume h: "0 < tries \<and> (\<forall>k<tries. \<not> is_Connected (db k))"
  then show "Connect W S db c tries =
        (Some (ConnectFailed tries (dial_error (db (tries - 1)))),
         c\<lparr>backoff := waited W (backoff c) tries\<rparr>,
         attempts_effects W db (backoff c) 0 tries)"
    by (intro Connect_failure) simp_all
  show "attempts (attempts_effects W db (backoff c) 0 tries) = tries"
    by (rule attempts_attempts_effects)
  from h have "\<not> is_Connected (db (tries - 1))" by simp
  then show "dial_error (db (tries - 1)) \<noteq> None" by (cases "db (tries - 1)") simp_all
qed

theorem Connect_tries_witness:
  "Connect (\<lambda>b. (b, 2 * b + 1)) (\<lambda>b. 0)
     (\<lambda>k. if k = 0 then OpenFails ''refused''
          else if k = 1 then PingFails (7 :: nat) ''denied'' else Connected 8)
     \<lparr>dsn = ''d'', conn = None, backoff = 1 :: nat\<rparr> 3 =
     (None, \<lparr>dsn = ''d'', conn = Some 8, backoff = 0\<rparr>,
      [Sleep 1, Open, Sleep 3, Open, Ping 7, Close 7, Sleep 7, Open, Ping 8, Success]) \<and>
   Connect (\<lambda>b. (b, 2 * b + 1)) (\<lambda>b. 0)
     (\<lambda>k. if k = 0 then OpenFails ''refused''
          else if k = 1 then PingFails (7 :: nat) ''denied'' else Connected 8)
     \<lparr>dsn = ''d'', conn = None, backoff = 1 :: nat\<rparr> 2 =
     (Some (ConnectFailed 2 (Some ''denied'')), \<lparr>dsn = ''d'', conn = None, backoff = 7\<rparr>,
      [Sleep 1, Open, Sleep 3, Open, Ping 7, Close 7])"
proof -
  let ?W = "\<lambda>b :: nat. (b, 2 * b + 1)"
  let ?S = "\<lambda>b :: nat. 0 :: nat"
  let ?db = "\<lambda>k :: nat. if k = 0 then OpenFails ''refused''
          else if k = 1 then PingFails (7 :: nat) ''denied'' else Connected 8"
  let ?c = "\<lparr>dsn = ''d'', conn = None, backoff = 1 :: nat\<rparr>"
  have ok: "2 < (3 :: nat) \<and> ?db 2 = Connected 8 \<and> (\<forall>k<2. \<not> is_Connected (?db k))"
    by (auto simp: less_Suc_eq numeral_2_eq_2)
  have ko: "0 < (2 :: nat) \<and> (\<forall>k<2. \<not> is_Connected (?db k))"
    by (auto simp: less_Suc_eq numeral_2_eq_2)
  note A = Connect_tries [where W = ?W and S = ?S and db = ?db and c = ?c and tries = 3
      and j = 2 and h = 8]
  note B = Connect_tries [where W = ?W and S = ?S and db = ?db and c = ?c and tries = 2]
  note 1 = A [THEN conjunct2, THEN conjunct2, THEN conjunct1, THEN mp, OF ok, THEN conjunct1]
  note 2 = B [THEN conjunct2, THEN conjunct2, THEN conjunct2, THEN mp, OF ko, THEN conjunct1]
  show ?thesis unfolding 1 2 by (simp add: numeral_2_eq_2)
qed

end
